(* ===== verification/Prelude.thy ===== *)
theory Prelude
  imports Complex_Main
    "HOL-Library.Char_ord" "HOL-Library.List_Lexorder" "HOL-Library.Sublist"
    "HOL-Library.AList"
begin

text \<open>
  What every component shares: results with an error side, Go's byte strings and the functions of
  package \<^verbatim>\<open>strings\<close> the sources call, Go's float64 as an exact rational or one of the special
  values, and the value type behind \<^verbatim>\<open>any\<close> as \<^verbatim>\<open>encoding/json\<close> decodes it.

  A Go string is a list of bytes, so \<^const>\<open>length\<close> is \<^verbatim>\<open>len\<close>; a map with string keys is an
  association list read with \<^const>\<open>map_of\<close>, so that duplicate keys further down the list are
  invisible, and its length counts distinct keys.
\<close>

named_theorems result_simps \<open>rewriting of results with an error side\<close>
named_theorems str_simps \<open>facts on Go strings\<close>

section \<open>Results\<close>

abbreviation Err :: "'e \<Rightarrow> 'e + 'a" where "Err \<equiv> Inl"
abbreviation Ok :: "'a \<Rightarrow> 'e + 'a" where "Ok \<equiv> Inr"

definition bindE :: "'e + 'a \<Rightarrow> ('a \<Rightarrow> 'e + 'b) \<Rightarrow> 'e + 'b" where
  "bindE r k = (case r of Inl e \<Rightarrow> Inl e | Inr a \<Rightarrow> k a)"

lemma bindE_simps [simp, result_simps]:
  "bindE (Inl e) k = Inl e" "bindE (Inr a) k = k a"
  by (simp_all add: bindE_def)

lemma bindE_Ok_iff [result_simps]: "bindE r k = Inr b \<longleftrightarrow> (\<exists>a. r = Inr a \<and> k a = Inr b)"
  by (cases r) auto

lemma bindE_cong [fundef_cong]:
  "r = r' \<Longrightarrow> (\<And>a. r' = Inr a \<Longrightarrow> k a = k' a) \<Longrightarrow> bindE r k = bindE r' k'"
  by (cases r') auto

definition is_ok :: "'e + 'a \<Rightarrow> bool" where
  "is_ok r = (case r of Inl _ \<Rightarrow> False | Inr _ \<Rightarrow> True)"

lemma is_ok_simps [simp, result_simps]: "\<not> is_ok (Inl e)" "is_ok (Inr a)"
  by (simp_all add: is_ok_def)

lemma is_ok_iff: "is_ok r \<longleftrightarrow> (\<exists>a. r = Inr a)"
  by (cases r) auto

section \<open>Go strings\<close>

text \<open>
  The byte sequences \<^verbatim>\<open>strings.TrimSpace\<close> and \<^verbatim>\<open>strings.Fields\<close> take for white space:
  the ASCII ones, U+0085, U+00A0, U+1680, U+2000 to U+200A, U+2028, U+2029, U+202F, U+205F
  and U+3000 in UTF-8.
\<close>

definition space_seqs :: "string list" where
  "space_seqs =
     [[CHR 0x20], [CHR 0x09], [CHR 0x0A], [CHR 0x0B], [CHR 0x0C], [CHR 0x0D],
      [CHR 0xC2, CHR 0x85], [CHR 0xC2, CHR 0xA0], [CHR 0xE1, CHR 0x9A, CHR 0x80],
      [CHR 0xE2, CHR 0x80, CHR 0x80], [CHR 0xE2, CHR 0x80, CHR 0x81], [CHR 0xE2, CHR 0x80, CHR 0x82],
      [CHR 0xE2, CHR 0x80, CHR 0x83], [CHR 0xE2, CHR 0x80, CHR 0x84], [CHR 0xE2, CHR 0x80, CHR 0x85],
      [CHR 0xE2, CHR 0x80, CHR 0x86], [CHR 0xE2, CHR 0x80, CHR 0x87], [CHR 0xE2, CHR 0x80, CHR 0x88],
      [CHR 0xE2, CHR 0x80, CHR 0x89], [CHR 0xE2, CHR 0x80, CHR 0x8A], [CHR 0xE2, CHR 0x80, CHR 0xA8],
      [CHR 0xE2, CHR 0x80, CHR 0xA9], [CHR 0xE2, CHR 0x80, CHR 0xAF], [CHR 0xE2, CHR 0x81, CHR 0x9F],
      [CHR 0xE3, CHR 0x80, CHR 0x80]]"

definition starts_with_any :: "string list \<Rightarrow> string \<Rightarrow> string option" where
  "starts_with_any ws s = find (\<lambda>w. w \<noteq> [] \<and> prefix w s) ws"

lemma starts_with_any_SomeD:
  "starts_with_any ws s = Some w \<Longrightarrow> w \<in> set ws \<and> w \<noteq> [] \<and> prefix w s"
  by (auto simp: starts_with_any_def find_Some_iff)

lemma starts_with_any_None_iff:
  "starts_with_any ws s = None \<longleftrightarrow> (\<forall>w\<in>set ws. w \<noteq> [] \<longrightarrow> \<not> prefix w s)"
  by (auto simp: starts_with_any_def find_None_iff)

function drop_any :: "string list \<Rightarrow> string \<Rightarrow> string" where
  "drop_any ws s =
     (case starts_with_any ws s of None \<Rightarrow> s | Some w \<Rightarrow> drop_any ws (drop (length w) s))"
  by pat_completeness auto
termination
proof (relation "measure (\<lambda>(ws, s). length s)")
  fix ws s w
  assume "starts_with_any ws s = Some w"
  then have "w \<noteq> []" "prefix w s" using starts_with_any_SomeD by blast+
  then show "((ws, drop (length w) s), ws, s) \<in> measure (\<lambda>(ws, s). length s)"
    by (cases s) (auto simp: length_greater_0_conv dest: prefix_length_le)
qed simp

declare drop_any.simps [simp del]

definition trim_left :: "string \<Rightarrow> string" where
  "trim_left s = drop_any space_seqs s"

definition trim_right :: "string \<Rightarrow> string" where
  "trim_right s = rev (drop_any (map rev space_seqs) (rev s))"

definition TrimSpace :: "string \<Rightarrow> string" where
  "TrimSpace s = trim_right (trim_left s)"

lemma drop_any_none: "starts_with_any ws (drop_any ws s) = None"
proof (induction ws s rule: drop_any.induct)
  case (1 ws s)
  then show ?case
    by (subst drop_any.simps) (auto split: option.split)
qed

lemma drop_any_id: "starts_with_any ws s = None \<Longrightarrow> drop_any ws s = s"
  by (subst drop_any.simps) simp

lemma suffix_drop_any: "suffix (drop_any ws s) s"
proof (induction ws s rule: drop_any.induct)
  case (1 ws s)
  show ?case
  proof (cases "starts_with_any ws s")
    case None
    then show ?thesis by (simp add: drop_any_id)
  next
    case (Some w)
    with 1 have "suffix (drop_any ws (drop (length w) s)) (drop (length w) s)" by blast
    with Some show ?thesis
      by (subst drop_any.simps) (auto intro: suffix_order.trans suffix_drop)
  qed
qed

lemma prefix_trim_right: "prefix (trim_right s) s"
  using suffix_drop_any [of "map rev space_seqs" "rev s"]
  by (simp add: trim_right_def suffix_to_prefix)

lemma trim_left_trim_right: "trim_left t = t \<Longrightarrow> trim_left (trim_right t) = trim_right t"
proof -
  assume "trim_left t = t"
  then have "starts_with_any space_seqs t = None"
    by (metis drop_any_none trim_left_def)
  then have "starts_with_any space_seqs (trim_right t) = None"
    using prefix_trim_right [of t] prefix_order.trans
    by (auto simp: starts_with_any_None_iff)
  then show ?thesis by (simp add: trim_left_def drop_any_id)
qed

lemma trim_right_idem: "trim_right (trim_right s) = trim_right s"
  by (simp add: trim_right_def drop_any_id drop_any_none)

lemma trim_left_idem: "trim_left (trim_left s) = trim_left s"
  by (simp add: trim_left_def drop_any_id drop_any_none)

lemma TrimSpace_idem [simp, str_simps]: "TrimSpace (TrimSpace s) = TrimSpace s"
  by (simp add: TrimSpace_def trim_left_trim_right trim_left_idem trim_right_idem)

lemma length_TrimSpace: "length (TrimSpace s) \<le> length s"
proof -
  have "length (trim_right (trim_left s)) \<le> length (trim_left s)"
    by (rule prefix_length_le) (rule prefix_trim_right)
  also have "\<dots> \<le> length s"
    unfolding trim_left_def by (rule suffix_length_le) (rule suffix_drop_any)
  finally show ?thesis by (simp add: TrimSpace_def)
qed

lemma trim_nil [simp]: "TrimSpace [] = []"
  using length_TrimSpace [of "[]"] by simp

lemma TrimSpace_id:
  assumes "s \<noteq> []" "hd s \<notin> hd ` set space_seqs" "last s \<notin> last ` set space_seqs"
  shows "TrimSpace s = s"
proof -
  have "starts_with_any space_seqs s = None"
    using assms(2) by (fastforce simp: starts_with_any_None_iff prefix_def hd_append)
  moreover have "starts_with_any (map rev space_seqs) (rev s) = None"
    using assms(1,3) by (fastforce simp: starts_with_any_None_iff suffix_to_prefix [symmetric] suffix_def last_append)
  ultimately show ?thesis by (simp add: TrimSpace_def trim_left_def trim_right_def drop_any_id)
qed

text \<open>Number of runes of a valid UTF-8 string: the bytes that are not continuation bytes.\<close>

definition RuneCount :: "string \<Rightarrow> nat" where
  "RuneCount s = length (filter (\<lambda>c. \<not> (128 \<le> (of_char c :: nat) \<and> (of_char c :: nat) < 192)) s)"

lemma RuneCount_le: "RuneCount s \<le> length s"
  by (simp add: RuneCount_def)

definition digit :: "char \<Rightarrow> bool" where
  "digit c \<longleftrightarrow> 48 \<le> (of_char c :: nat) \<and> (of_char c :: nat) \<le> 57"

definition digit_val :: "char \<Rightarrow> nat" where
  "digit_val c = of_char c - 48"

definition upper_byte :: "char \<Rightarrow> char" where
  "upper_byte c = (if 97 \<le> (of_char c :: nat) \<and> (of_char c :: nat) \<le> 122
                   then char_of (of_char c - 32 :: nat) else c)"

definition lower_byte :: "char \<Rightarrow> char" where
  "lower_byte c = (if 65 \<le> (of_char c :: nat) \<and> (of_char c :: nat) \<le> 90
                   then char_of (of_char c + 32 :: nat) else c)"

text \<open>
  \<^verbatim>\<open>strings.ToUpper\<close> and \<^verbatim>\<open>strings.ToLower\<close> up to the letters outside ASCII: these never become
  ASCII letters, apart from U+0131 and U+017F, whose upper case is I and S, and U+0130 and
  U+212A, whose lower case is i and k.
\<close>

fun ToUpper :: "string \<Rightarrow> string" where
  "ToUpper [] = []"
| "ToUpper (a # b # s) =
     (if a = CHR 0xC4 \<and> b = CHR 0xB1 then CHR ''I'' # ToUpper s
      else if a = CHR 0xC5 \<and> b = CHR 0xBF then CHR ''S'' # ToUpper s
      else upper_byte a # ToUpper (b # s))"
| "ToUpper [a] = [upper_byte a]"

fun ToLower :: "string \<Rightarrow> string" where
  "ToLower [] = []"
| "ToLower (a # s) =
     (if a = CHR 0xC4 \<and> (case s of b # _ \<Rightarrow> b = CHR 0xB0 | [] \<Rightarrow> False) then CHR ''i'' # ToLower (tl s)
      else if a = CHR 0xE2 \<and> (case s of b # c # _ \<Rightarrow> b = CHR 0x84 \<and> c = CHR 0xAA | _ \<Rightarrow> False)
      then CHR ''k'' # ToLower (tl (tl s))
      else lower_byte a # ToLower s)"

text \<open>\<^verbatim>\<open>strings.SplitSeq\<close> and \<^verbatim>\<open>strings.Cut\<close> at a separator of one byte.\<close>

fun split_on :: "char \<Rightarrow> string \<Rightarrow> string list" where
  "split_on c [] = [[]]"
| "split_on c (d # s) = (if d = c then [] # split_on c s else (case split_on c s of p # ps \<Rightarrow> (d # p) # ps | [] \<Rightarrow> [[d]]))"

definition Cut :: "char \<Rightarrow> string \<Rightarrow> (string \<times> string) option" where
  "Cut c s = (if c \<in> set s then Some (takeWhile (\<lambda>d. d \<noteq> c) s, tl (dropWhile (\<lambda>d. d \<noteq> c) s)) else None)"

text \<open>\<^verbatim>\<open>strconv.Itoa\<close> of a number that is not negative.\<close>

fun itoa :: "nat \<Rightarrow> string" where
  "itoa n = (if n < 10 then [char_of (48 + n)] else itoa (n div 10) @ [char_of (48 + n mod 10)])"

declare itoa.simps [simp del]

lemma itoa_nonempty [simp]: "itoa n \<noteq> []"
  by (subst itoa.simps) simp

lemma digit_char_of [simp]: "n < 10 \<Longrightarrow> digit (char_of (48 + n))" for n :: nat
  by (simp add: digit_def)

lemma digits_itoa [simp]: "list_all digit (itoa n)"
proof (induction n rule: itoa.induct)
  case (1 n)
  then show ?case by (subst itoa.simps) simp
qed

lemma length_itoa: "10 ^ k \<le> n \<Longrightarrow> k < length (itoa n)"
proof (induction n arbitrary: k rule: itoa.induct)
  case (1 n)
  show ?case
  proof (cases k)
    case (Suc j)
    with 1(2) have "10 * 10 ^ j \<le> n" by simp
    moreover have "1 \<le> (10 :: nat) ^ j" by simp
    ultimately have n: "\<not> n < 10" by linarith
    from \<open>10 * 10 ^ j \<le> n\<close> have "10 ^ j \<le> n div 10" by (simp add: less_eq_div_iff_mult_less_eq)
    with 1(1) n have "j < length (itoa (n div 10))" by blast
    with Suc n show ?thesis by (subst itoa.simps) simp
  qed simp
qed

section \<open>Numbers\<close>

text \<open>
  A float64: a finite value as the rational it denotes, or one of the values JSON cannot carry.
\<close>

datatype f64 = Fin rat | PosInf | NegInf | NaN

definition whole :: "rat \<Rightarrow> bool" where
  "whole q \<longleftrightarrow> of_int \<lfloor>q\<rfloor> = q"

lemma whole_of_int [simp]: "whole (of_int n)"
  by (simp add: whole_def)

lemma whole_numeral [simp]: "whole (numeral n)" "whole 0" "whole 1"
  by (simp_all add: whole_def)

lemma wholeE: "whole q \<Longrightarrow> (\<And>n. q = of_int n \<Longrightarrow> P) \<Longrightarrow> P"
  by (metis whole_def)

section \<open>Lists\<close>

lemma filter_take_drop: "filter P (take n xs) @ filter P (drop n xs) = filter P xs"
  by (metis append_take_drop_id filter_append)

lemma concat_map_Nil_iff: "concat (map f xs) = [] \<longleftrightarrow> (\<forall>x\<in>set xs. f x = [])"
  by (induction xs) auto

lemma snd_enumerate: "snd ` set (enumerate n xs) = set xs"
  by (metis list.set_map map_snd_enumerate)

lemma count_pending_decreases:
  assumes "x \<in> set xs" "P x" "\<And>y. Q y \<Longrightarrow> P y" "\<not> Q x"
  shows "length (filter Q xs) < length (filter P xs)"
  using assms
proof (induction xs)
  case (Cons a xs)
  have le: "length (filter Q xs) \<le> length (filter P xs)"
    using Cons.prems(3) by (induction xs) auto
  from Cons show ?case using le by (auto simp: less_Suc_eq_le)
qed simp

text \<open>The distinct keys of a Go map, in the order \<^verbatim>\<open>slices.Sorted(maps.Keys(m))\<close> gives.\<close>

definition sorted_keys :: "(string \<times> 'a) list \<Rightarrow> string list" where
  "sorted_keys m = sort (remdups (map fst m))"

lemma set_sorted_keys [simp]: "set (sorted_keys m) = fst ` set m"
  by (simp add: sorted_keys_def)

lemma distinct_sorted_keys [simp]: "distinct (sorted_keys m)"
  by (simp add: sorted_keys_def)

lemma map_of_sorted_keys: "k \<in> set (sorted_keys m) \<Longrightarrow> \<exists>v. map_of m k = Some v"
  by (metis domD dom_map_of_conv_image_fst set_sorted_keys)

lemma alist_update_same: "map_of m k = Some v \<Longrightarrow> AList.update k v m = m"
  by (induction m) (auto split: if_splits)

lemma set_clearjunk_subset: "set (AList.clearjunk m) \<subseteq> set m"
proof (induction m rule: AList.clearjunk.induct)
  case (2 p ps)
  moreover have "set (AList.delete (fst p) ps) \<subseteq> set ps" by (auto simp: AList.delete_eq)
  ultimately show ?case by auto
qed simp

definition map_len :: "(string \<times> 'a) list \<Rightarrow> nat" where
  "map_len m = length (remdups (map fst m))"

end
