(* ===== verification/Json.thy ===== *)
theory Json
  imports Prelude
begin

text \<open>
  Values of Go's \<^verbatim>\<open>any\<close> as \<^verbatim>\<open>encoding/json\<close> decodes a document: null, booleans, float64,
  strings, arrays and maps with string keys. The type switches of the sources on other Go number
  types never fire on a decoded document.
\<close>

datatype json =
    JNull
  | JBool bool
  | JNum f64
  | JStr string
  | JArr "json list"
  | JObj "(string \<times> json) list"

type_synonym jmap = "(string \<times> json) list"

section \<open>Type assertions\<close>

fun as_str :: "json \<Rightarrow> string option" where
  "as_str (JStr s) = Some s" | "as_str _ = None"

fun as_bool :: "json \<Rightarrow> bool option" where
  "as_bool (JBool b) = Some b" | "as_bool _ = None"

fun as_num :: "json \<Rightarrow> f64 option" where
  "as_num (JNum x) = Some x" | "as_num _ = None"

fun as_arr :: "json \<Rightarrow> json list option" where
  "as_arr (JArr xs) = Some xs" | "as_arr _ = None"

fun as_obj :: "json \<Rightarrow> jmap option" where
  "as_obj (JObj m) = Some m" | "as_obj _ = None"

lemma as_str_Some_iff [simp]: "as_str v = Some s \<longleftrightarrow> v = JStr s" by (cases v) auto
lemma as_bool_Some_iff [simp]: "as_bool v = Some b \<longleftrightarrow> v = JBool b" by (cases v) auto
lemma as_num_Some_iff [simp]: "as_num v = Some x \<longleftrightarrow> v = JNum x" by (cases v) auto
lemma as_arr_Some_iff [simp]: "as_arr v = Some xs \<longleftrightarrow> v = JArr xs" by (cases v) auto
lemma as_obj_Some_iff [simp]: "as_obj v = Some m \<longleftrightarrow> v = JObj m" by (cases v) auto

text \<open>
  The comma-ok idiom \<^verbatim>\<open>v, _ := m[k].(T)\<close> reads a missing key or another type as the zero value.
\<close>

definition get_str :: "jmap \<Rightarrow> string \<Rightarrow> string option" where
  "get_str m k = Option.bind (map_of m k) as_str"

definition str_or_empty :: "jmap \<Rightarrow> string \<Rightarrow> string" where
  "str_or_empty m k = (case get_str m k of Some s \<Rightarrow> s | None \<Rightarrow> [])"

lemma get_str_Some_iff [simp]: "get_str m k = Some s \<longleftrightarrow> map_of m k = Some (JStr s)"
  by (auto simp: get_str_def bind_eq_Some_conv)

section \<open>Equality of decoded values\<close>

text \<open>
  \<^verbatim>\<open>reflect.DeepEqual\<close> compares maps by content: equal normal forms, where an object lists each
  key once in byte order.
\<close>

fun norm_json :: "json \<Rightarrow> json" where
  "norm_json (JArr xs) = JArr (map norm_json xs)"
| "norm_json (JObj m) =
     JObj (sort_key fst (AList.clearjunk (map (\<lambda>(k, v). (k, norm_json v)) m)))"
| "norm_json v = v"

definition deep_equal :: "json \<Rightarrow> json \<Rightarrow> bool" where
  "deep_equal a b \<longleftrightarrow> norm_json a = norm_json b"

lemma deep_equal_refl [simp]: "deep_equal a a"
  by (simp add: deep_equal_def)

lemma deep_equal_sym: "deep_equal a b \<longleftrightarrow> deep_equal b a"
  by (auto simp: deep_equal_def)

lemma size_map_of [termination_simp]:
  "map_of m k = Some v \<Longrightarrow> size v < Suc (size_list (size_prod (\<lambda>_. 0) size) m)"
  by (induction m) (auto split: if_splits)

end
