(* ===== verification/Workflow.thy ===== *)
theory Workflow
  imports Json
begin

text \<open>
  The workflow document of \<^verbatim>\<open>internal/domain/workflow.go\<close>: nodes, edges and the parsed document,
  with the input schema of \<^verbatim>\<open>inputs.go\<close> and the recovery contract of \<^verbatim>\<open>recoverycontract.go\<close> that a
  document carries, and the parsing of the node and edge arrays.
\<close>

section \<open>Nodes and edges\<close>

record node =
  n_ID :: string
  n_Type :: string
  n_Label :: string
  n_Config :: jmap

record edge =
  e_ID :: string
  e_From :: string
  e_To :: string
  e_Condition :: string
  e_OnError :: bool

section \<open>Input schemas\<close>

text \<open>
  A schema of the supported JSON Schema subset. A default is kept apart from an absent one, as
  the raw field does; a property or item schema that is null in the document is \<^const>\<open>None\<close>.
\<close>

datatype schema = Schema
  (sc_Type: string)
  (sc_Description: string)
  (sc_Properties: "(string \<times> schema option) list")
  (sc_Required: "string list")
  (sc_Items: "schema option")
  (sc_Enum: "json list")
  (sc_Default: "json option")

section \<open>Recovery contracts\<close>

record effect =
  ef_NodeID :: string
  ef_Kind :: string
  ef_Idempotency :: string
  ef_Receipt :: string

record technical_failure =
  tf_TerminalNodeFailure :: bool
  tf_StalledNode :: bool
  tf_Autonomy :: "(string \<times> int) list"

record detector =
  d_ID :: string
  d_SourceNodeID :: string
  d_Kind :: string
  d_PassWhen :: string
  d_Schema :: "schema option"
  d_Action :: string
  d_Message :: string
  d_AutonomyLevel :: "int option"

record fixture =
  fx_ID :: string
  fx_SourceNodeID :: string
  fx_Output :: json
  fx_Context :: jmap
  fx_Expected :: string

record semantic_failure =
  sf_Mode :: string
  sf_Detectors :: "detector list"
  sf_EvaluationFixtures :: "fixture list"

record narrow_autonomy =
  na_AllowedRepairClasses :: "string list"
  na_MinimumPriorVerifiedRecoveries :: int
  na_MaxAffectedExecutions :: int
  na_RollbackRequired :: bool

record contract =
  c_Version :: string
  c_Technical :: technical_failure
  c_Semantic :: semantic_failure
  c_EvidenceRequired :: "string list"
  c_Effects :: "effect list"
  c_RepairsAllowed :: "string list"
  c_MinimumEvidenceLevel :: string
  c_ProductionMutation :: string
  c_Permission :: string
  c_AutonomyLevel :: int
  c_NarrowAutonomy :: "narrow_autonomy option"
  c_VerificationKind :: string
  c_RecurrenceWindowDays :: int

section \<open>The document\<close>

record workflow =
  wf_DSLVersion :: string
  wf_ID :: string
  wf_Name :: string
  wf_Inputs :: "schema option"
  wf_Outputs :: "(string \<times> string) list"
  wf_TemplatePolicy :: string
  wf_CircuitBreaker :: "json option"
  wf_Contract :: "contract option"
  wf_Nodes :: "node list"
  wf_Edges :: "edge list"

definition node_ids :: "node list \<Rightarrow> string list" where
  "node_ids ns = map n_ID ns"

definition edge_pairs :: "edge list \<Rightarrow> (string \<times> string) list" where
  "edge_pairs es = map (\<lambda>e. (e_From e, e_To e)) es"

end
