(* ===== verification/RunState.thy ===== *)
theory RunState
  imports Workflow
begin

text \<open>
  The persisted state of one run as the engine sees it inside its transactions: the run row, the node
  rows, the wake-up clocks, the timeline, the dead letters and the semantic cases, with the guarded
  updates of \<^verbatim>\<open>internal/store\<close>. Every update is the compare-and-set its SQL says: a condition on the
  rows, what it sets, and the number of rows it touched.

  Writes to tables of other components (playbooks, rollouts, memory, alerts, parent runs, routing
  statistics, tool approvals, ownership items) are recorded as calls, in order, with their arguments.
  Event payloads and the truncation and redaction of persisted JSON are left out; the state JSON of a
  node is kept because edge conditions read it.
\<close>

section \<open>Rows\<close>

datatype node_status =
  NPending | NQueued | NRunning | NWaiting | NSucceeded | NFailed | NSkipped | NCancelled

datatype run_status = RRunning | RWaiting | RSucceeded | RFailed | RCancelled | RTimedOut

record run_node =
  rn_ID :: string
  rn_NodeID :: string
  rn_Status :: node_status
  rn_Attempts :: int
  rn_State :: json
  rn_Error :: json
  rn_EnqueuedAt :: int
  rn_StartedAt :: "int option"
  rn_FinishedAt :: "int option"
  rn_RecoveryDeadLetter :: "string option"

record event =
  ev_Node :: string
  ev_Type :: string
  ev_At :: int

record dead_letter =
  dl_ID :: string
  dl_NodeID :: string
  dl_Attempt :: int
  dl_Error :: json
  dl_Replayed :: bool
  dl_Claimed :: bool
  dl_CreatedAt :: int

record wakeup =
  wk_At :: int
  wk_Reason :: string

record semantic_case =
  cs_DetectorID :: string
  cs_SourceNodeID :: string
  cs_Action :: string
  cs_State :: string

text \<open>Calls into components whose tables are not part of this state.\<close>

datatype call =
    RecordRoutingOutcome string int bool
  | RecordRecoveryImpact string string int
  | InsertCaseTransition string string string
  | RecordPlaybookValidationOutcome run_status
  | FinalizeSemanticMonitoring run_status int
  | ProjectOutputs
  | AutoCreateRecoveryItem string
  | InsertRecoveryItem string
  | RetireToolApprovals string
  | RecordRunActor string string string
  | UpdateRunWorkflowSnapshot
  | NotifyWake nat
  | NotifyRunEvents
  | RecordRolloutOutcome
  | CommitRunSummaryMemory
  | TripCircuitBreaker
  | DispatchAlert string
  | DeliverParentNotifications

record run_db =
  r_Status :: run_status
  r_OutcomeStatus :: string
  r_ViolationCount :: nat
  r_OrgID :: string
  r_ReplayMode :: string
  r_ParentLinkKind :: string
  r_Workflow :: workflow
  r_Nodes :: "run_node list"
  r_Wakeups :: "string \<rightharpoonup> wakeup"
  r_Events :: "event list"
  r_DeadLetters :: "dead_letter list"
  r_Cases :: "semantic_case list"
  r_Calls :: "call list"
  r_Clock :: "nat \<Rightarrow> int"
  r_Reads :: nat
  r_NewID :: "nat \<Rightarrow> string"
  r_IDs :: nat

section \<open>Clock, identifiers, events and calls\<close>

text \<open>\<^verbatim>\<open>eventNow\<close>: the next reading of the clock, in milliseconds; \<^verbatim>\<open>newID\<close>: the next identifier.\<close>

definition eventNow :: "run_db \<Rightarrow> int \<times> run_db" where
  "eventNow db = (r_Clock db (r_Reads db), db\<lparr>r_Reads := r_Reads db + 1\<rparr>)"

definition newID :: "run_db \<Rightarrow> string \<times> run_db" where
  "newID db = (r_NewID db (r_IDs db), db\<lparr>r_IDs := r_IDs db + 1\<rparr>)"

definition add_event :: "string \<Rightarrow> string \<Rightarrow> int \<Rightarrow> run_db \<Rightarrow> run_db" where
  "add_event nid ty tm db = db\<lparr>r_Events := r_Events db @ [\<lparr>ev_Node = nid, ev_Type = ty, ev_At = tm\<rparr>]\<rparr>"

definition log_call :: "call \<Rightarrow> run_db \<Rightarrow> run_db" where
  "log_call c db = db\<lparr>r_Calls := r_Calls db @ [c]\<rparr>"

section \<open>Guarded updates\<close>

definition cas :: "(run_node \<Rightarrow> bool) \<Rightarrow> (run_node \<Rightarrow> run_node) \<Rightarrow> run_db \<Rightarrow> nat \<times> run_db" where
  "cas P f db = (length (filter P (r_Nodes db)),
     db\<lparr>r_Nodes := map (\<lambda>r. if P r then f r else r) (r_Nodes db)\<rparr>)"

definition is_node :: "string \<Rightarrow> node_status \<Rightarrow> run_node \<Rightarrow> bool" where
  "is_node nid st r \<longleftrightarrow> rn_NodeID r = nid \<and> rn_Status r = st"

definition CompleteRunNode :: "string \<Rightarrow> json \<Rightarrow> int \<Rightarrow> run_db \<Rightarrow> nat \<times> run_db" where
  "CompleteRunNode nid st tm = cas (is_node nid NRunning)
     (\<lambda>r. r\<lparr>rn_Status := NSucceeded, rn_State := st, rn_FinishedAt := Some tm\<rparr>)"

definition FailRunNode :: "string \<Rightarrow> json \<Rightarrow> int \<Rightarrow> run_db \<Rightarrow> nat \<times> run_db" where
  "FailRunNode nid err tm = cas (is_node nid NRunning)
     (\<lambda>r. r\<lparr>rn_Status := NFailed, rn_Error := err, rn_FinishedAt := Some tm\<rparr>)"

definition RequeueRunNodeForRetry :: "string \<Rightarrow> int \<Rightarrow> int \<Rightarrow> run_db \<Rightarrow> nat \<times> run_db" where
  "RequeueRunNodeForRetry nid attempt wakeAt = cas (is_node nid NRunning)
     (\<lambda>r. r\<lparr>rn_Status := NQueued, rn_Attempts := attempt, rn_EnqueuedAt := wakeAt\<rparr>)"

definition MarkRunNodeWaiting :: "string \<Rightarrow> json \<Rightarrow> run_db \<Rightarrow> nat \<times> run_db" where
  "MarkRunNodeWaiting nid st = cas (is_node nid NRunning) (\<lambda>r. r\<lparr>rn_Status := NWaiting, rn_State := st\<rparr>)"

definition SkipRunNode :: "string \<Rightarrow> json \<Rightarrow> int \<Rightarrow> run_db \<Rightarrow> nat \<times> run_db" where
  "SkipRunNode nid st tm = cas (is_node nid NPending)
     (\<lambda>r. r\<lparr>rn_Status := NSkipped, rn_State := st, rn_FinishedAt := Some tm\<rparr>)"

text \<open>The statement takes its own clock reading for the queue clock.\<close>

definition QueueRunNode :: "string \<Rightarrow> int \<Rightarrow> run_db \<Rightarrow> nat \<times> run_db" where
  "QueueRunNode nid tm = cas (is_node nid NPending)
     (\<lambda>r. r\<lparr>rn_Status := NQueued, rn_Attempts := 1, rn_EnqueuedAt := tm\<rparr>)"

definition DemoteQueuedRunNodes :: "run_db \<Rightarrow> nat \<times> run_db" where
  "DemoteQueuedRunNodes = cas (\<lambda>r. rn_Status r = NQueued) (\<lambda>r. r\<lparr>rn_Status := NPending, rn_Attempts := 0\<rparr>)"

definition CancelRunNodes :: "json \<Rightarrow> int \<Rightarrow> run_db \<Rightarrow> nat \<times> run_db" where
  "CancelRunNodes st tm = cas (\<lambda>r. rn_Status r \<in> {NPending, NQueued, NWaiting})
     (\<lambda>r. r\<lparr>rn_Status := NCancelled, rn_State := st, rn_FinishedAt := Some tm\<rparr>)"

text \<open>\<^verbatim>\<open>state_json #>> '{waiting,kind}'\<close> and its siblings: a text field of the waiting object.\<close>

definition waiting_field :: "run_node \<Rightarrow> string \<Rightarrow> string option" where
  "waiting_field r k = (case rn_State r of
     JObj m \<Rightarrow> (case map_of m ''waiting'' of Some (JObj w) \<Rightarrow> get_str w k | _ \<Rightarrow> None)
   | _ \<Rightarrow> None)"

definition MarkWaitingNodeSucceeded :: "string \<Rightarrow> json \<Rightarrow> int \<Rightarrow> run_db \<Rightarrow> nat \<times> run_db" where
  "MarkWaitingNodeSucceeded nid st tm =
     cas (\<lambda>r. is_node nid NWaiting r \<and> waiting_field r ''kind'' \<noteq> Some ''tool_approval'')
       (\<lambda>r. r\<lparr>rn_Status := NSucceeded, rn_State := st, rn_FinishedAt := Some tm\<rparr>)"

definition approval_generation :: "string \<Rightarrow> string \<Rightarrow> run_node \<Rightarrow> bool" where
  "approval_generation nid deadline r \<longleftrightarrow> is_node nid NWaiting r \<and> waiting_field r ''kind'' = Some ''approval'' \<and>
     waiting_field r ''deadlineAt'' = Some deadline \<and> waiting_field r ''timeoutState'' = None"

definition FailWaitingApprovalDeadline :: "string \<Rightarrow> string \<Rightarrow> json \<Rightarrow> int \<Rightarrow> run_db \<Rightarrow> nat \<times> run_db" where
  "FailWaitingApprovalDeadline nid deadline err tm = cas (approval_generation nid deadline)
     (\<lambda>r. r\<lparr>rn_Status := NFailed, rn_Error := err, rn_FinishedAt := Some tm\<rparr>)"

definition EscalateWaitingApprovalDeadline :: "string \<Rightarrow> string \<Rightarrow> json \<Rightarrow> run_db \<Rightarrow> nat \<times> run_db" where
  "EscalateWaitingApprovalDeadline nid deadline st = cas (approval_generation nid deadline) (\<lambda>r. r\<lparr>rn_State := st\<rparr>)"

definition FailWaitingTimerNode :: "string \<Rightarrow> json \<Rightarrow> int \<Rightarrow> run_db \<Rightarrow> nat \<times> run_db" where
  "FailWaitingTimerNode nid err tm =
     cas (\<lambda>r. is_node nid NWaiting r \<and> waiting_field r ''kind'' = Some ''timer'')
       (\<lambda>r. r\<lparr>rn_Status := NFailed, rn_Error := err, rn_FinishedAt := Some tm\<rparr>)"

definition RedriveFailedRunNode :: "string \<Rightarrow> int \<Rightarrow> run_db \<Rightarrow> nat \<times> run_db" where
  "RedriveFailedRunNode nid tm = cas (is_node nid NFailed)
     (\<lambda>r. r\<lparr>rn_Status := NQueued, rn_Attempts := 1, rn_EnqueuedAt := tm\<rparr>)"

definition StampRedriveRecoveryClaim :: "string \<Rightarrow> string \<Rightarrow> run_db \<Rightarrow> run_db" where
  "StampRedriveRecoveryClaim nid dl db =
     snd (cas (\<lambda>r. rn_NodeID r = nid) (\<lambda>r. r\<lparr>rn_RecoveryDeadLetter := Some dl\<rparr>) db)"

text \<open>
  A node may be claimed when it is queued and due, the run is running, and no wake-up of it lies in
  the future; marking it running checks the node's own conditions again.
\<close>

definition due :: "int \<Rightarrow> run_db \<Rightarrow> run_node \<Rightarrow> bool" where
  "due tm db r \<longleftrightarrow> rn_Status r = NQueued \<and> rn_EnqueuedAt r \<le> tm \<and>
     (case r_Wakeups db (rn_ID r) of None \<Rightarrow> True | Some w \<Rightarrow> wk_At w \<le> tm)"

definition LockClaimableRunNodes :: "int \<Rightarrow> run_db \<Rightarrow> string list" where
  "LockClaimableRunNodes tm db =
     map rn_ID (filter (\<lambda>r. due tm db r \<and> r_Status db = RRunning) (r_Nodes db))"

definition MarkLockedNodesRunning :: "string list \<Rightarrow> int \<Rightarrow> run_db \<Rightarrow> nat \<times> run_db" where
  "MarkLockedNodesRunning ids tm db = cas (\<lambda>r. rn_ID r \<in> set ids \<and> due tm db r)
     (\<lambda>r. r\<lparr>rn_Status := NRunning, rn_StartedAt := Some tm\<rparr>) db"

definition FindStalledRunningNodes :: "int \<Rightarrow> int \<Rightarrow> run_db \<Rightarrow> run_node list" where
  "FindStalledRunningNodes tm threshold db =
     (if r_Status db \<in> {RRunning, RFailed} then
        sort_key (\<lambda>r. case rn_StartedAt r of Some t \<Rightarrow> t | None \<Rightarrow> 0)
          (filter (\<lambda>r. rn_Status r = NRunning \<and> (case rn_StartedAt r of Some t \<Rightarrow> t < tm - threshold | None \<Rightarrow> False)) (r_Nodes db))
      else [])"

section \<open>The run row, wake-ups and dead letters\<close>

definition terminal :: "run_status \<Rightarrow> bool" where
  "terminal s \<longleftrightarrow> s \<in> {RSucceeded, RFailed, RCancelled, RTimedOut}"

definition MarkRunTerminalFromRunning :: "run_status \<Rightarrow> run_db \<Rightarrow> nat \<times> run_db" where
  "MarkRunTerminalFromRunning st db =
     (if r_Status db = RRunning then (1, db\<lparr>r_Status := st\<rparr>) else (0, db))"

definition CancelRun_row :: "run_db \<Rightarrow> nat \<times> run_db" where
  "CancelRun_row db = (if terminal (r_Status db) then (0, db) else (1, db\<lparr>r_Status := RCancelled\<rparr>))"

definition ReviveFailedRun :: "run_db \<Rightarrow> nat \<times> run_db" where
  "ReviveFailedRun db = (if r_Status db = RFailed then (1, db\<lparr>r_Status := RRunning\<rparr>) else (0, db))"

definition SetRunSemanticOutcome :: "bool \<Rightarrow> string \<Rightarrow> nat \<Rightarrow> run_db \<Rightarrow> run_db" where
  "SetRunSemanticOutcome quarantine outcome cnt db =
     db\<lparr>r_Status := if quarantine then RWaiting else r_Status db,
        r_OutcomeStatus := outcome, r_ViolationCount := cnt\<rparr>"

definition UpsertWakeup :: "string \<Rightarrow> int \<Rightarrow> string \<Rightarrow> run_db \<Rightarrow> run_db" where
  "UpsertWakeup row tm reason db = db\<lparr>r_Wakeups := (r_Wakeups db)(row \<mapsto> \<lparr>wk_At = tm, wk_Reason = reason\<rparr>)\<rparr>"

definition DeleteWakeup :: "string \<Rightarrow> run_db \<Rightarrow> run_db" where
  "DeleteWakeup row db = db\<lparr>r_Wakeups := (r_Wakeups db)(row := None)\<rparr>"

definition InsertDeadLetter :: "string \<Rightarrow> string \<Rightarrow> int \<Rightarrow> json \<Rightarrow> int \<Rightarrow> run_db \<Rightarrow> run_db" where
  "InsertDeadLetter i nid attempt err tm db = db\<lparr>r_DeadLetters := r_DeadLetters db @
     [\<lparr>dl_ID = i, dl_NodeID = nid, dl_Attempt = attempt, dl_Error = err, dl_Replayed = False, dl_Claimed = False,
      dl_CreatedAt = tm\<rparr>]\<rparr>"

definition ClaimDeadLetterReplay :: "string \<Rightarrow> run_db \<Rightarrow> nat \<times> run_db" where
  "ClaimDeadLetterReplay i db =
     (length (filter (\<lambda>d. dl_ID d = i \<and> \<not> dl_Claimed d) (r_DeadLetters db)),
      db\<lparr>r_DeadLetters := map (\<lambda>d. if dl_ID d = i \<and> \<not> dl_Claimed d
           then d\<lparr>dl_Claimed := True, dl_Replayed := True\<rparr> else d) (r_DeadLetters db)\<rparr>)"

definition ConvergeDeadLetterReplayed :: "string \<Rightarrow> run_db \<Rightarrow> run_db" where
  "ConvergeDeadLetterReplayed i db = db\<lparr>r_DeadLetters :=
     map (\<lambda>d. if dl_ID d = i \<and> \<not> dl_Replayed d then d\<lparr>dl_Replayed := True\<rparr> else d) (r_DeadLetters db)\<rparr>"

text \<open>\<^verbatim>\<open>InsertRecoveryCase\<close> does nothing when the run already has a case of the detector.\<close>

definition InsertRecoveryCase :: "semantic_case \<Rightarrow> run_db \<Rightarrow> run_db" where
  "InsertRecoveryCase c db =
     (if cs_DetectorID c \<in> cs_DetectorID ` set (r_Cases db) then db else db\<lparr>r_Cases := r_Cases db @ [c]\<rparr>)"

definition OpenQuarantines :: "run_db \<Rightarrow> nat" where
  "OpenQuarantines db = length (filter (\<lambda>c. cs_Action c = ''quarantine'' \<and>
     cs_State c \<notin> {''verified_recovered'', ''recurred'', ''accepted_loss'', ''abandoned''}) (r_Cases db))"

section \<open>Statuses by node id\<close>

text \<open>\<^verbatim>\<open>nodeStatuses\<close>: the status of every node id; a missing id reads as the empty string.\<close>

type_synonym statuses = "string \<rightharpoonup> node_status"

definition nodeStatuses :: "run_db \<Rightarrow> statuses" where
  "nodeStatuses db = map_of (rev (map (\<lambda>r. (rn_NodeID r, rn_Status r)) (r_Nodes db)))"

definition one_row_each :: "run_db \<Rightarrow> bool" where
  "one_row_each db \<longleftrightarrow> distinct (map rn_NodeID (r_Nodes db))"

lemma row_unique:
  "one_row_each db \<Longrightarrow> r \<in> set (r_Nodes db) \<Longrightarrow> r' \<in> set (r_Nodes db) \<Longrightarrow> rn_NodeID r = rn_NodeID r' \<Longrightarrow> r = r'"
  by (auto simp: one_row_each_def distinct_map dest: inj_onD)

lemma nodeStatuses_SomeD:
  "nodeStatuses db v = Some s \<Longrightarrow> \<exists>r\<in>set (r_Nodes db). rn_NodeID r = v \<and> rn_Status r = s"
  by (auto simp: nodeStatuses_def dest!: map_of_SomeD)

lemma nodeStatuses_row:
  assumes "one_row_each db" and "r \<in> set (r_Nodes db)"
  shows "nodeStatuses db (rn_NodeID r) = Some (rn_Status r)"
proof -
  have "rn_NodeID r \<in> fst ` set (rev (map (\<lambda>r. (rn_NodeID r, rn_Status r)) (r_Nodes db)))"
    using assms(2) by force
  then have "nodeStatuses db (rn_NodeID r) \<noteq> None"
    unfolding nodeStatuses_def by (metis map_of_eq_None_iff)
  then obtain s where "nodeStatuses db (rn_NodeID r) = Some s" by blast
  with nodeStatuses_SomeD [OF this] row_unique [OF assms(1) assms(2)] show ?thesis by metis
qed

lemma nodeStatuses_iff:
  "one_row_each db \<Longrightarrow> nodeStatuses db v = Some s \<longleftrightarrow> (\<exists>r\<in>set (r_Nodes db). rn_NodeID r = v \<and> rn_Status r = s)"
  using nodeStatuses_row nodeStatuses_SomeD by metis

lemma node_ids_cas [simp]:
  "(\<And>r. rn_NodeID (f r) = rn_NodeID r) \<Longrightarrow> map rn_NodeID (r_Nodes (snd (cas P f db))) = map rn_NodeID (r_Nodes db)"
  by (simp add: cas_def)

lemma one_row_each_cas:
  "(\<And>r. rn_NodeID (f r) = rn_NodeID r) \<Longrightarrow> one_row_each (snd (cas P f db)) \<longleftrightarrow> one_row_each db"
  by (simp add: one_row_each_def)

lemma nodeStatuses_map:
  assumes "one_row_each db" and "\<And>r. rn_NodeID (f r) = rn_NodeID r"
  shows "nodeStatuses (snd (cas P f db)) v = Some x \<longleftrightarrow>
    (\<exists>r\<in>set (r_Nodes db). rn_NodeID r = v \<and> rn_Status (if P r then f r else r) = x)"
  using assms one_row_each_cas [of f P db]
  by (subst nodeStatuses_iff) (auto simp: cas_def)

text \<open>A compare-and-set on one node id changes the status of that node only, and only when it hits.\<close>

lemma nodeStatuses_cas:
  assumes one: "one_row_each db" and ids: "\<And>r. rn_NodeID (f r) = rn_NodeID r" and st: "\<And>r. rn_Status (f r) = s'"
  shows "nodeStatuses (snd (cas (is_node v s) f db)) =
    (if nodeStatuses db v = Some s then (nodeStatuses db)(v \<mapsto> s') else nodeStatuses db)" (is "_ = ?rhs")
proof (rule ext)
  fix w
  have "nodeStatuses (snd (cas (is_node v s) f db)) w = Some x \<longleftrightarrow> ?rhs w = Some x" for x
    using row_unique [OF one]
    by (auto simp: nodeStatuses_map [OF one ids] nodeStatuses_iff [OF one] is_node_def st split: if_splits)
  then show "nodeStatuses (snd (cas (is_node v s) f db)) w = ?rhs w" by (metis not_Some_eq)
qed

lemma cas_hits: "0 < fst (cas P f db) \<longleftrightarrow> (\<exists>r\<in>set (r_Nodes db). P r)"
  by (auto simp: cas_def filter_empty_conv)

lemma cas_hits_node:
  "one_row_each db \<Longrightarrow> fst (cas (is_node v s) f db) = 0 \<longleftrightarrow> nodeStatuses db v \<noteq> Some s"
  using cas_hits [of "is_node v s" f db] by (auto simp: nodeStatuses_iff is_node_def)

end
