(* ===== verification/Graph.thy ===== *)
theory Graph
  imports Workflow
begin

text \<open>
  The graph algorithms on a workflow document: the iterative three-colour search of
  \<^verbatim>\<open>hasCycle\<close> (\<^verbatim>\<open>internal/domain/validate.go\<close>), the queue and stack walks behind
  \<^verbatim>\<open>reachableNodesWithout\<close> (\<^verbatim>\<open>recoverydag.go\<close>), \<^verbatim>\<open>collectAncestors\<close> and \<^verbatim>\<open>downstreamJoins\<close>
  (\<^verbatim>\<open>readiness.go\<close>), and the memoised dominance check \<^verbatim>\<open>hasApprovalAncestor\<close>. Each is
  proved against a relational specification on the edge relation.
\<close>

section \<open>Cycle detection\<close>

text \<open>
  \<^verbatim>\<open>graph[id]\<close>: the targets of the edges that leave a declared node, in document order. An id
  that no node declares has no entry, so its edges are ignored.
\<close>

definition succs :: "node list \<Rightarrow> edge list \<Rightarrow> string \<Rightarrow> string list" where
  "succs ns es v = (if v \<in> set (node_ids ns) then map e_To (filter (\<lambda>e. e_From e = v) es) else [])"

datatype color = Unvisited | Visiting | Visited

text \<open>
  The inner loop. A frame is a node and the index of its next successor; the head of the list is
  the top of the Go stack. The result is whether a cycle was found, and the colours.
\<close>

definition targets :: "edge list \<Rightarrow> string set" where
  "targets es = e_To ` set es"

lemma finite_targets [simp]: "finite (targets es)"
  by (simp add: targets_def)

lemma succs_targets: "set (succs ns es v) \<subseteq> targets es"
  by (auto simp: succs_def targets_def)

definition white :: "edge list \<Rightarrow> (string \<Rightarrow> color) \<Rightarrow> nat" where
  "white es st = card {w \<in> targets es. st w = Unvisited}"

lemma white_paint_less:
  "w \<in> targets es \<Longrightarrow> st w = Unvisited \<Longrightarrow> c \<noteq> Unvisited \<Longrightarrow> white es (st(w := c)) < white es st"
  unfolding white_def by (rule psubset_card_mono) auto

lemma white_paint_le: "c \<noteq> Unvisited \<Longrightarrow> white es (st(w := c)) \<le> white es st"
  unfolding white_def by (rule card_mono) auto

function cycle_loop ::
  "node list \<Rightarrow> edge list \<Rightarrow> (string \<Rightarrow> color) \<Rightarrow> (string \<times> nat) list \<Rightarrow> bool \<times> (string \<Rightarrow> color)"
where
  "cycle_loop ns es st [] = (False, st)"
| "cycle_loop ns es st ((v, i) # stack) =
     (if i \<ge> length (succs ns es v) then cycle_loop ns es (st(v := Visited)) stack
      else let w = succs ns es v ! i in
        (case st w of
           Visiting \<Rightarrow> (True, st)
         | Visited \<Rightarrow> cycle_loop ns es st ((v, i + 1) # stack)
         | Unvisited \<Rightarrow> cycle_loop ns es (st(w := Visiting)) ((w, 0) # (v, i + 1) # stack)))"
  by pat_completeness auto
termination
proof (relation "measures [\<lambda>(ns, es, st, stack). white es st,
    \<lambda>(ns, es, st, stack). (\<Sum>(v, i) \<leftarrow> stack. Suc (length (succs ns es v) - i))]", goal_cases)
  case (2 ns es st v i stack)
  then show ?case using white_paint_le [of Visited es st v] by (auto simp: le_less)
next
  case (3 ns es st v i stack x)
  then have "x \<in> targets es" using succs_targets [of ns es v] by (auto dest: nth_mem)
  with 3 show ?case by (simp add: white_paint_less)
qed auto

declare cycle_loop.simps(2) [simp del]

lemma cycle_loop_cases:
  "length (succs ns es v) \<le> i \<Longrightarrow>
     cycle_loop ns es st ((v, i) # stack) = cycle_loop ns es (st(v := Visited)) stack"
  "i < length (succs ns es v) \<Longrightarrow> st (succs ns es v ! i) = Visiting \<Longrightarrow>
     cycle_loop ns es st ((v, i) # stack) = (True, st)"
  "i < length (succs ns es v) \<Longrightarrow> st (succs ns es v ! i) = Visited \<Longrightarrow>
     cycle_loop ns es st ((v, i) # stack) = cycle_loop ns es st ((v, i + 1) # stack)"
  "i < length (succs ns es v) \<Longrightarrow> st (succs ns es v ! i) = Unvisited \<Longrightarrow>
     cycle_loop ns es st ((v, i) # stack) =
       cycle_loop ns es (st(succs ns es v ! i := Visiting)) ((succs ns es v ! i, 0) # (v, i + 1) # stack)"
  by (subst cycle_loop.simps(2), simp add: Let_def)+

text \<open>The outer loop over the nodes, one search per node that is still unvisited.\<close>

fun cycle_nodes :: "node list \<Rightarrow> edge list \<Rightarrow> (string \<Rightarrow> color) \<Rightarrow> string list \<Rightarrow> bool" where
  "cycle_nodes ns es st [] = False"
| "cycle_nodes ns es st (v # vs) =
     (if st v \<noteq> Unvisited then cycle_nodes ns es st vs
      else case cycle_loop ns es (st(v := Visiting)) [(v, 0)] of
             (True, _) \<Rightarrow> True
           | (False, st') \<Rightarrow> cycle_nodes ns es st' vs)"

definition hasCycle :: "node list \<Rightarrow> edge list \<Rightarrow> bool" where
  "hasCycle ns es = cycle_nodes ns es (\<lambda>_. Unvisited) (node_ids ns)"

text \<open>The specification: the relation of the edges that leave a declared node.\<close>

definition edge_rel :: "node list \<Rightarrow> edge list \<Rightarrow> (string \<times> string) set" where
  "edge_rel ns es = {(e_From e, e_To e) | e. e \<in> set es \<and> e_From e \<in> set (node_ids ns)}"

lemma edge_rel_succs: "(v, w) \<in> edge_rel ns es \<longleftrightarrow> w \<in> set (succs ns es v)"
  by (auto simp: edge_rel_def succs_def)

lemma finite_edge_rel [simp]: "finite (edge_rel ns es)"
proof -
  have "edge_rel ns es \<subseteq> (\<lambda>e. (e_From e, e_To e)) ` set es" by (auto simp: edge_rel_def)
  then show ?thesis by (rule finite_subset) simp
qed

text \<open>
  Invariant of the search. The stack is a path of grey nodes, every grey node is on it, and every
  finished node, as well as every successor a frame has passed, lies in the accessible part of the
  converse edge relation: no infinite path starts there.
\<close>

abbreviation safe_nodes :: "node list \<Rightarrow> edge list \<Rightarrow> string set" where
  "safe_nodes ns es \<equiv> Wellfounded.acc ((edge_rel ns es)\<inverse>)"

fun frames_ok :: "node list \<Rightarrow> edge list \<Rightarrow> string set \<Rightarrow> (string \<times> nat) list \<Rightarrow> bool" where
  "frames_ok ns es pend [] = True"
| "frames_ok ns es pend ((v, i) # stack) \<longleftrightarrow>
     set (take i (succs ns es v)) \<subseteq> safe_nodes ns es \<union> pend \<and> frames_ok ns es {v} stack \<and>
     (stack \<noteq> [] \<longrightarrow> (fst (hd stack), v) \<in> edge_rel ns es)"

definition search_inv ::
  "node list \<Rightarrow> edge list \<Rightarrow> (string \<Rightarrow> color) \<Rightarrow> (string \<times> nat) list \<Rightarrow> bool" where
  "search_inv ns es st stack \<longleftrightarrow>
     (\<forall>v. st v = Visited \<longrightarrow> v \<in> safe_nodes ns es) \<and>
     (\<forall>v. st v = Visiting \<longleftrightarrow> v \<in> fst ` set stack) \<and> distinct (map fst stack) \<and>
     frames_ok ns es {} stack"

lemma safe_nodesI: "set (succs ns es v) \<subseteq> safe_nodes ns es \<Longrightarrow> v \<in> safe_nodes ns es"
  by (rule accI) (auto simp: edge_rel_succs)

lemma search_inv_pop:
  assumes inv: "search_inv ns es st ((v, i) # stack)" and fin: "length (succs ns es v) \<le> i"
  shows "search_inv ns es (st(v := Visited)) stack"
proof -
  have v: "v \<in> safe_nodes ns es"
    by (rule safe_nodesI) (use inv fin in \<open>auto simp: search_inv_def\<close>)
  have "frames_ok ns es {v} stack" using inv by (simp add: search_inv_def)
  with v have "frames_ok ns es {} stack" by (cases stack) auto
  with inv v show ?thesis by (auto simp: search_inv_def)
qed

lemma search_inv_skip:
  assumes inv: "search_inv ns es st ((v, i) # stack)" and i: "i < length (succs ns es v)"
    and seen: "st (succs ns es v ! i) = Visited"
  shows "search_inv ns es st ((v, i + 1) # stack)"
  using inv i seen by (auto simp: search_inv_def take_Suc_conv_app_nth)

lemma search_inv_push:
  assumes inv: "search_inv ns es st ((v, i) # stack)" and i: "i < length (succs ns es v)"
    and new: "st (succs ns es v ! i) = Unvisited"
  shows "search_inv ns es (st(succs ns es v ! i := Visiting)) ((succs ns es v ! i, 0) # (v, i + 1) # stack)"
proof -
  let ?w = "succs ns es v ! i"
  have fr: "?w \<notin> fst ` set ((v, i) # stack)"
    using inv new by (metis color.distinct(1) search_inv_def)
  have "(v, ?w) \<in> edge_rel ns es" using i by (simp add: edge_rel_succs)
  with inv i new fr show ?thesis
    by (auto simp: search_inv_def take_Suc_conv_app_nth)
qed

lemma frames_path:
  assumes "frames_ok ns es pend ((v, i) # stack)" and "w \<in> fst ` set ((v, i) # stack)"
  shows "(w, v) \<in> (edge_rel ns es)\<^sup>*"
  using assms
proof (induction stack arbitrary: v i pend)
  case (Cons f stack)
  obtain u j where f: "f = (u, j)" by (cases f)
  show ?case
  proof (cases "w = v")
    case False
    with Cons.prems f have "frames_ok ns es {v} ((u, j) # stack)" "w \<in> fst ` set ((u, j) # stack)"
      by auto
    then have "(w, u) \<in> (edge_rel ns es)\<^sup>*" by (rule Cons.IH)
    moreover have "(u, v) \<in> edge_rel ns es" using Cons.prems(1) f by simp
    ultimately show ?thesis by (rule rtrancl_into_rtrancl)
  qed simp
qed simp

lemma grey_successor_cycle:
  assumes inv: "search_inv ns es st ((v, i) # stack)" and i: "i < length (succs ns es v)"
    and grey: "st (succs ns es v ! i) = Visiting"
  shows "\<not> acyclic (edge_rel ns es)"
proof -
  let ?w = "succs ns es v ! i"
  have "?w \<in> fst ` set ((v, i) # stack)" using inv grey by (simp add: search_inv_def)
  then have "(?w, v) \<in> (edge_rel ns es)\<^sup>*"
    using inv frames_path unfolding search_inv_def by blast
  moreover have "(v, ?w) \<in> edge_rel ns es" using i by (simp add: edge_rel_succs)
  ultimately have "(v, v) \<in> (edge_rel ns es)\<^sup>+" by (rule rtrancl_into_trancl2 [rotated])
  then show ?thesis by (auto simp: acyclic_def)
qed

lemma cycle_loop_correct:
  assumes "search_inv ns es st stack" and "cycle_loop ns es st stack = (b, st')"
  shows "if b then \<not> acyclic (edge_rel ns es)
     else search_inv ns es st' [] \<and> (\<forall>v. v \<in> fst ` set stack \<or> st v = Visited \<longrightarrow> st' v = Visited)"
  using assms
proof (induction ns es st stack rule: cycle_loop.induct)
  case (1 ns es st)
  then show ?case by auto
next
  case (2 ns es st v i stack)
  let ?w = "succs ns es v ! i"
  consider (pop) "length (succs ns es v) \<le> i"
    | (grey) "i < length (succs ns es v)" "st ?w = Visiting"
    | (black) "i < length (succs ns es v)" "st ?w = Visited"
    | (fresh) "i < length (succs ns es v)" "st ?w = Unvisited"
    by (metis color.exhaust not_le)
  then show ?case
  proof cases
    case pop
    with 2(5) have run: "cycle_loop ns es (st(v := Visited)) stack = (b, st')"
      by (simp only: cycle_loop_cases)
    from 2(1) [OF pop search_inv_pop [OF 2(4) pop] run] show ?thesis by (auto split: if_splits)
  next
    case grey
    with grey_successor_cycle [OF 2(4) grey] 2(5) show ?thesis by (simp add: cycle_loop_cases)
  next
    case black
    with 2(5) have run: "cycle_loop ns es st ((v, i + 1) # stack) = (b, st')"
      by (simp only: cycle_loop_cases)
    from black have "\<not> length (succs ns es v) \<le> i" by simp
    from 2(3) [OF this refl black(2) search_inv_skip [OF 2(4) black] run] show ?thesis
      by (auto split: if_splits)
  next
    case fresh
    with 2(5) have run:
      "cycle_loop ns es (st(?w := Visiting)) ((?w, 0) # (v, i + 1) # stack) = (b, st')"
      by (simp only: cycle_loop_cases)
    from fresh have "\<not> length (succs ns es v) \<le> i" by simp
    from 2(2) [OF this refl fresh(2) search_inv_push [OF 2(4) fresh] run] fresh(2) show ?thesis
      by (auto split: if_splits)
  qed
qed

lemma search_inv_start:
  "search_inv ns es st [] \<Longrightarrow> st v = Unvisited \<Longrightarrow> search_inv ns es (st(v := Visiting)) [(v, 0)]"
  by (auto simp: search_inv_def)

lemma cycle_nodes_search:
  "st v = Unvisited \<Longrightarrow> cycle_loop ns es (st(v := Visiting)) [(v, 0)] = (b, st') \<Longrightarrow>
     cycle_nodes ns es st (v # vs) \<longleftrightarrow> b \<or> cycle_nodes ns es st' vs"
  by (cases b) simp_all

lemma cycle_nodes_correct:
  assumes "search_inv ns es st []"
  shows "cycle_nodes ns es st vs \<Longrightarrow> \<not> acyclic (edge_rel ns es)"
    and "\<not> cycle_nodes ns es st vs \<Longrightarrow> set vs \<subseteq> safe_nodes ns es"
  using assms
proof (induction vs arbitrary: st)
  case (Cons v vs)
  {
    case 1
    show ?case
    proof (cases "st v = Unvisited")
      case True
      obtain b st' where run: "cycle_loop ns es (st(v := Visiting)) [(v, 0)] = (b, st')"
        by fastforce
      with 1 True have "b \<or> cycle_nodes ns es st' vs" by (simp only: cycle_nodes_search)
      with cycle_loop_correct [OF search_inv_start [OF 1(2) True] run] Cons.IH(1) show ?thesis
        by (auto split: if_splits)
    qed (use 1 Cons.IH(1) in auto)
  next
    case 2
    show ?case
    proof (cases "st v = Unvisited")
      case True
      obtain b st' where run: "cycle_loop ns es (st(v := Visiting)) [(v, 0)] = (b, st')"
        by fastforce
      with 2 True have "\<not> b" "\<not> cycle_nodes ns es st' vs" by (simp_all only: cycle_nodes_search) auto
      with cycle_loop_correct [OF search_inv_start [OF 2(2) True] run] Cons.IH(2) [of st'] show ?thesis
        by (auto simp: search_inv_def)
    next
      case False
      from 2(2) have "st v \<noteq> Visiting" by (simp add: search_inv_def)
      with False have "st v = Visited" by (cases "st v") auto
      with 2 False Cons.IH(2) show ?thesis by (auto simp: search_inv_def)
    qed
  }
qed auto

lemma hasCycle_iff: "hasCycle ns es \<longleftrightarrow> \<not> acyclic (edge_rel ns es)"
proof
  have start: "search_inv ns es (\<lambda>_. Unvisited) []" by (simp add: search_inv_def)
  show "\<not> acyclic (edge_rel ns es)" if "hasCycle ns es"
    using cycle_nodes_correct(1) [OF start] that by (simp add: hasCycle_def)
  show "hasCycle ns es" if cyc: "\<not> acyclic (edge_rel ns es)"
  proof (rule ccontr)
    assume "\<not> hasCycle ns es"
    with cycle_nodes_correct(2) [OF start] have "set (node_ids ns) \<subseteq> safe_nodes ns es"
      by (simp add: hasCycle_def)
    moreover have "v \<in> safe_nodes ns es" if "v \<notin> set (node_ids ns)" for v
      by (rule safe_nodesI) (use that in \<open>simp add: succs_def\<close>)
    ultimately have "wf ((edge_rel ns es)\<inverse>)" by (intro acc_wfI) blast
    then have "acyclic ((edge_rel ns es)\<inverse>)" by (rule wf_acyclic)
    with cyc show False by (simp add: acyclic_converse)
  qed
qed

text \<open>
  C20: the validator's cycle check is exact. \<^verbatim>\<open>hasCycle\<close> answers true precisely when the edges that
  leave declared nodes contain a cycle.
\<close>

theorem hasCycle_exact: "hasCycle ns es \<longleftrightarrow> \<not> acyclic (edge_rel ns es)"
  by (rule hasCycle_iff)

section \<open>Paths\<close>

text \<open>
  The specification of the walks: a path is a non-empty list of node ids whose neighbours are
  joined by edges, and a root path starts at an id without incoming edges.
\<close>

definition path :: "(string \<times> string) list \<Rightarrow> string list \<Rightarrow> bool" where
  "path ps p \<longleftrightarrow> p \<noteq> [] \<and> successively (\<lambda>a b. (a, b) \<in> set ps) p"

lemma path_single [simp]: "path ps [v]"
  by (simp add: path_def)

lemma path_snoc: "path ps (p @ [v]) \<longleftrightarrow> p = [] \<or> path ps p \<and> (last p, v) \<in> set ps"
  by (auto simp: path_def successively_append_iff)

lemma path_avoiding:
  "(a, b) \<in> (Restr (set ps) (- X))\<^sup>* \<Longrightarrow> a \<notin> X \<Longrightarrow>
     \<exists>p. path ps p \<and> hd p = a \<and> last p = b \<and> set p \<inter> X = {}"
proof (induction rule: rtrancl_induct)
  case base
  then show ?case by (intro exI [of _ "[a]"]) auto
next
  case (step b c)
  then obtain p where p: "path ps p" "hd p = a" "last p = b" "set p \<inter> X = {}" by auto
  then have "hd (p @ [c]) = a" by (auto simp: path_def)
  with p step.hyps(2) show ?case by (intro exI [of _ "p @ [c]"]) (auto simp: path_snoc)
qed

lemma avoiding_path:
  "path ps p \<Longrightarrow> set p \<inter> X = {} \<Longrightarrow> (hd p, last p) \<in> (Restr (set ps) (- X))\<^sup>*"
proof (induction p rule: rev_induct)
  case (snoc v p)
  show ?case
  proof (cases "p = []")
    case False
    then have "last p \<in> set p" by simp
    then have "last p \<notin> X" using snoc.prems(2) by auto
    with False snoc have "(hd p, last p) \<in> (Restr (set ps) (- X))\<^sup>*"
      "(last p, v) \<in> Restr (set ps) (- X)" by (auto simp: path_snoc)
    with False show ?thesis by (auto intro: rtrancl_into_rtrancl)
  qed simp
qed (simp add: path_def)

section \<open>Worklist walks\<close>

text \<open>
  The walks of the sources share one loop: take an entry off the worklist, skip it when it was
  visited, otherwise mark it and add its successors, at the end of a queue or on top of a stack
  (the head of the list is the next entry to be taken). The result lists the visited nodes in the
  order they were marked.
\<close>

datatype discipline = Queue | Stack

fun add_work :: "discipline \<Rightarrow> 'a list \<Rightarrow> 'a list \<Rightarrow> 'a list" where
  "add_work Queue new rest = rest @ new"
| "add_work Stack new rest = rev new @ rest"

lemma set_add_work [simp]: "set (add_work d new rest) = set new \<union> set rest"
  by (cases d) auto

lemma add_work_Nil [simp]: "add_work d [] rest = rest"
  by (cases d) auto

definition nexts :: "(string \<times> string) list \<Rightarrow> string \<Rightarrow> string list" where
  "nexts ps v = map snd (filter (\<lambda>(a, b). a = v) ps)"

lemma set_nexts [simp]: "w \<in> set (nexts ps v) \<longleftrightarrow> (v, w) \<in> set ps"
  by (force simp: nexts_def)

lemma set_nexts_eq: "set (nexts ps v) = {w. (v, w) \<in> set ps}"
  by auto

lemma nexts_Nil_iff: "nexts ps v = [] \<longleftrightarrow> v \<notin> fst ` set ps"
  by (force simp: nexts_def filter_empty_conv)

function walk :: "discipline \<Rightarrow> (string \<times> string) list \<Rightarrow> string list \<Rightarrow> string list \<Rightarrow> string list" where
  "walk d ps [] visited = visited"
| "walk d ps (v # work) visited =
     (if v \<in> set visited then walk d ps work visited
      else walk d ps (add_work d (nexts ps v) work) (visited @ [v]))"
  by pat_completeness auto
termination
proof (relation "measures [\<lambda>(d, ps, work, visited). card (fst ` set ps - set visited),
    \<lambda>(d, ps, work, visited). length work]", goal_cases)
  case (3 d ps v work visited)
  show ?case
  proof (cases "v \<in> fst ` set ps")
    case True
    with 3 have "card (fst ` set ps - set (visited @ [v])) < card (fst ` set ps - set visited)"
      by (intro psubset_card_mono) auto
    then show ?thesis by simp
  next
    case False
    then have "fst ` set ps - set (visited @ [v]) = fst ` set ps - set visited" by auto
    with False show ?thesis by (simp add: nexts_Nil_iff [symmetric])
  qed
qed auto

lemma closed_image:
  assumes "\<forall>v\<in>V. \<forall>w. (v, w) \<in> R \<longrightarrow> w \<in> V \<union> W"
  shows "R\<^sup>* `` V \<subseteq> V \<union> R\<^sup>* `` W"
proof (intro subsetI, elim ImageE)
  fix v w assume "(v, w) \<in> R\<^sup>*" "v \<in> V"
  then show "w \<in> V \<union> R\<^sup>* `` W"
    by (induction rule: rtrancl_induct) (use assms in \<open>auto intro: rtrancl_into_rtrancl\<close>)
qed

lemma set_walk:
  assumes "\<forall>v\<in>set visited. \<forall>w. (v, w) \<in> set ps \<longrightarrow> w \<in> set visited \<union> set work"
  shows "set (walk d ps work visited) = set visited \<union> (set ps)\<^sup>* `` set work"
  using assms
proof (induction d ps work visited rule: walk.induct)
  case (2 d ps v work visited)
  show ?case
  proof (cases "v \<in> set visited")
    case True
    with 2(3) have "\<forall>v\<in>set visited. \<forall>w. (v, w) \<in> set ps \<longrightarrow> w \<in> set visited \<union> set work" by auto
    with 2(1) [OF True this] closed_image [OF this] True show ?thesis by auto
  next
    case False
    have cl: "\<forall>u\<in>set (visited @ [v]). \<forall>w. (u, w) \<in> set ps \<longrightarrow>
        w \<in> set (visited @ [v]) \<union> set (add_work d (nexts ps v) work)"
      using 2(3) by auto
    have "{v} \<union> (set ps)\<^sup>* `` set (nexts ps v) = (set ps)\<^sup>* `` {v}"
      by (fastforce intro: converse_rtrancl_into_rtrancl elim: converse_rtranclE)
    with 2(2) [OF False cl] False show ?thesis by auto
  qed
qed simp

lemma distinct_walk: "distinct visited \<Longrightarrow> distinct (walk d ps work visited)"
  by (induction d ps work visited rule: walk.induct) auto

text \<open>\<^verbatim>\<open>nodeByID\<close> and \<^verbatim>\<open>typesByID\<close>: the last node of the document with an id wins.\<close>

definition node_by_id :: "node list \<Rightarrow> string \<Rightarrow> node option" where
  "node_by_id ns = map_of (rev (map (\<lambda>n. (n_ID n, n)) ns))"

definition type_by_id :: "node list \<Rightarrow> string \<Rightarrow> string" where
  "type_by_id ns v = (case node_by_id ns v of Some n \<Rightarrow> n_Type n | None \<Rightarrow> [])"

lemma node_by_id_SomeD: "node_by_id ns v = Some n \<Longrightarrow> n \<in> set ns \<and> n_ID n = v"
  by (auto simp: node_by_id_def dest: map_of_SomeD)

text \<open>The nodes of the document without incoming edges.\<close>

definition roots :: "node list \<Rightarrow> edge list \<Rightarrow> string list" where
  "roots ns es = filter (\<lambda>v. v \<notin> set (map e_To es)) (node_ids ns)"

definition reachableNodesWithout :: "node list \<Rightarrow> edge list \<Rightarrow> string \<Rightarrow> string list" where
  "reachableNodesWithout ns es x =
     walk Queue (edge_pairs (filter (\<lambda>e. \<not> (e_From e = x \<or> e_To e = x)) es))
       (filter (\<lambda>v. v \<noteq> x) (roots ns es)) []"

definition collectAncestors :: "edge list \<Rightarrow> string \<Rightarrow> string list" where
  "collectAncestors es v =
     (let rev_pairs = map (\<lambda>(a, b). (b, a)) (edge_pairs es) in walk Stack rev_pairs (add_work Stack (nexts rev_pairs v) []) [])"

definition downstreamJoins :: "node list \<Rightarrow> edge list \<Rightarrow> string \<Rightarrow> node list" where
  "downstreamJoins ns es v =
     (let ps = edge_pairs es;
          seen = walk Stack ps (add_work Stack (nexts ps v) []) [] in
      filter (\<lambda>n. n_Type n = ''join'') (List.map_filter (node_by_id ns) seen))"

lemma restr_pairs:
  "set (edge_pairs (filter (\<lambda>e. \<not> (e_From e = x \<or> e_To e = x)) es)) =
     Restr (set (edge_pairs es)) (- {x})"
  by (auto simp: edge_pairs_def)

lemma set_reachableNodesWithout:
  "set (reachableNodesWithout ns es x) = (Restr (set (edge_pairs es)) (- {x}))\<^sup>* `` (set (roots ns es) - {x})"
  unfolding reachableNodesWithout_def by (subst set_walk) (auto simp only: restr_pairs set_filter, auto)

text \<open>
  C21: the dominance check behind semantic quarantine. A node is in \<^verbatim>\<open>reachableNodesWithout\<close> exactly
  when some path from a root of the workflow reaches it without passing the excluded node; so no
  issue is raised for a guarded effect precisely when the detector's source runs on every path to it.
\<close>

theorem reachableNodesWithout_exact:
  "v \<in> set (reachableNodesWithout ns es x) \<longleftrightarrow>
     (\<exists>p. path (edge_pairs es) p \<and> hd p \<in> set (roots ns es) \<and> last p = v \<and> x \<notin> set p)"
proof -
  have "v \<in> set (reachableNodesWithout ns es x) \<longleftrightarrow>
      (\<exists>r\<in>set (roots ns es) - {x}. (r, v) \<in> (Restr (set (edge_pairs es)) (- {x}))\<^sup>*)"
    by (auto simp: set_reachableNodesWithout)
  also have "\<dots> \<longleftrightarrow>
      (\<exists>p. path (edge_pairs es) p \<and> hd p \<in> set (roots ns es) \<and> last p = v \<and> x \<notin> set p)"
  proof
    assume "\<exists>r\<in>set (roots ns es) - {x}. (r, v) \<in> (Restr (set (edge_pairs es)) (- {x}))\<^sup>*"
    then show "\<exists>p. path (edge_pairs es) p \<and> hd p \<in> set (roots ns es) \<and> last p = v \<and> x \<notin> set p"
      by (fastforce dest: path_avoiding)
  next
    assume "\<exists>p. path (edge_pairs es) p \<and> hd p \<in> set (roots ns es) \<and> last p = v \<and> x \<notin> set p"
    then obtain p where p: "path (edge_pairs es) p" "hd p \<in> set (roots ns es)" "last p = v" "x \<notin> set p"
      by blast
    from p have "hd p \<noteq> x" by (metis hd_in_set path_def)
    with avoiding_path [of _ p "{x}"] p
    show "\<exists>r\<in>set (roots ns es) - {x}. (r, v) \<in> (Restr (set (edge_pairs es)) (- {x}))\<^sup>*" by auto
  qed
  finally show ?thesis .
qed

lemma step_image_trancl: "R\<^sup>* `` {w. (v, w) \<in> R} = {w. (v, w) \<in> R\<^sup>+}"
  by (auto intro: rtrancl_into_trancl2 dest: tranclD)

lemma set_collectAncestors:
  "set (collectAncestors es v) = {u. (u, v) \<in> (set (edge_pairs es))\<^sup>+}"
proof -
  let ?R = "set (edge_pairs es)"
  have converse: "set (map (\<lambda>(a, b). (b, a)) (edge_pairs es)) = ?R\<inverse>" by auto
  have "set (collectAncestors es v) = (?R\<inverse>)\<^sup>* `` {w. (v, w) \<in> ?R\<inverse>}"
    unfolding collectAncestors_def Let_def by (subst set_walk) (simp_all add: set_nexts_eq converse del: set_map)
  also have "\<dots> = {u. (u, v) \<in> ?R\<^sup>+}" by (subst step_image_trancl) (simp add: trancl_converse)
  finally show ?thesis .
qed

lemma set_downstreamJoins:
  "set (downstreamJoins ns es v) =
     {n. n_Type n = ''join'' \<and> (\<exists>w. (v, w) \<in> (set (edge_pairs es))\<^sup>+ \<and> node_by_id ns w = Some n)}"
proof -
  let ?R = "set (edge_pairs es)"
  have "set (walk Stack (edge_pairs es) (add_work Stack (nexts (edge_pairs es) v) []) []) =
      ?R\<^sup>* `` {w. (v, w) \<in> ?R}"
    by (subst set_walk) auto
  then show ?thesis
    by (force simp: downstreamJoins_def Let_def List.map_filter_def step_image_trancl image_iff)
qed

section \<open>Approval dominance\<close>

text \<open>
  \<^verbatim>\<open>hasApprovalAncestor\<close>: \<^verbatim>\<open>guarded\<close> with its memo table and the set of nodes being visited, and
  the loop over the predecessors. The pairs are the edges as \<^verbatim>\<open>(to, from)\<close>, so that the entries of
  a node are its predecessors in document order.
\<close>

type_synonym cache = "string \<rightharpoonup> bool"

function guarded :: "(string \<Rightarrow> string) \<Rightarrow> (string \<times> string) list \<Rightarrow> string list \<Rightarrow> string \<Rightarrow> cache \<Rightarrow> bool \<times> cache"
  and guard_all :: "(string \<Rightarrow> string) \<Rightarrow> (string \<times> string) list \<Rightarrow> string list \<Rightarrow> string list \<Rightarrow> cache \<Rightarrow> bool \<times> cache"
where
  "guarded types preds visiting cur cache =
     (case cache cur of
        Some b \<Rightarrow> (b, cache)
      | None \<Rightarrow>
          if cur \<in> set visiting then (False, cache(cur \<mapsto> False))
          else if nexts preds cur = [] then (False, cache(cur \<mapsto> False))
          else case guard_all types preds (cur # visiting) (nexts preds cur) cache of
                 (ok, cache') \<Rightarrow> (ok, cache'(cur \<mapsto> ok)))"
| "guard_all types preds visiting [] cache = (True, cache)"
| "guard_all types preds visiting (u # us) cache =
     (if types u = ''approval'' then guard_all types preds visiting us cache
      else case guarded types preds visiting u cache of
             (True, cache') \<Rightarrow> guard_all types preds visiting us cache'
           | (False, cache') \<Rightarrow> (False, cache'))"
  by pat_completeness auto
termination
proof (relation "measures
    [\<lambda>x. case x of Inl (types, preds, visiting, cur, cache) \<Rightarrow> card (fst ` set preds - set visiting)
         | Inr (types, preds, visiting, us, cache) \<Rightarrow> card (fst ` set preds - set visiting),
     \<lambda>x. case x of Inl _ \<Rightarrow> 0 | Inr (types, preds, visiting, us, cache) \<Rightarrow> Suc (length us)]",
    goal_cases)
  case (2 types preds visiting cur cache)
  then have "cur \<in> fst ` set preds" by (simp add: nexts_Nil_iff)
  with 2 have "card (fst ` set preds - set (cur # visiting)) < card (fst ` set preds - set visiting)"
    by (intro psubset_card_mono) auto
  then show ?case by simp
qed auto

definition hasApprovalAncestor :: "node list \<Rightarrow> edge list \<Rightarrow> string \<Rightarrow> cache \<Rightarrow> bool \<times> cache" where
  "hasApprovalAncestor ns es v cache =
     guarded (type_by_id ns) (map (\<lambda>e. (e_To e, e_From e)) es) [] v cache"

text \<open>
  The specification: the least set of nodes with predecessors, each of which is an approval or in
  the set. It is exactly dominance by approvals on graphs without cycles.
\<close>

inductive dominated :: "(string \<Rightarrow> string) \<Rightarrow> (string \<times> string) list \<Rightarrow> string \<Rightarrow> bool"
  for types preds where
  dominatedI: "nexts preds v \<noteq> [] \<Longrightarrow>
     (\<And>u. (v, u) \<in> set preds \<Longrightarrow> types u = ''approval'' \<or> dominated types preds u) \<Longrightarrow>
     dominated types preds v"

lemma dominated_iff:
  "dominated types preds v \<longleftrightarrow> nexts preds v \<noteq> [] \<and>
     (\<forall>u\<in>set (nexts preds v). types u = ''approval'' \<or> dominated types preds u)"
  by (subst dominated.simps) auto

definition cache_sound :: "(string \<Rightarrow> string) \<Rightarrow> (string \<times> string) list \<Rightarrow> cache \<Rightarrow> bool" where
  "cache_sound types preds cache \<longleftrightarrow> (\<forall>v. cache v = Some True \<longrightarrow> dominated types preds v)"

lemma guarded_sound:
  "cache_sound types preds cache \<Longrightarrow> guarded types preds visiting cur cache = (ok, cache') \<Longrightarrow>
     cache_sound types preds cache' \<and> (ok \<longrightarrow> dominated types preds cur)"
  "cache_sound types preds cache \<Longrightarrow> guard_all types preds visiting us cache = (ok, cache') \<Longrightarrow>
     cache_sound types preds cache' \<and>
     (ok \<longrightarrow> (\<forall>u\<in>set us. types u = ''approval'' \<or> dominated types preds u))"
proof (induction types preds visiting cur cache and types preds visiting us cache
    arbitrary: ok cache' and ok cache' rule: guarded_guard_all.induct)
  case (1 types preds visiting cur cache)
  show ?case
  proof (cases "cache cur = None \<and> cur \<notin> set visiting \<and> nexts preds cur \<noteq> []")
    case True
    obtain ok1 c1 where run: "guard_all types preds (cur # visiting) (nexts preds cur) cache = (ok1, c1)"
      by fastforce
    with True 1(3) have res: "ok = ok1" "cache' = c1(cur \<mapsto> ok1)" by auto
    from 1(1) [OF _ _ _ 1(2) run] True
    have "cache_sound types preds c1" "ok1 \<Longrightarrow> dominated types preds cur"
      by (auto simp: dominated_iff [of _ _ cur])
    with res show ?thesis by (auto simp: cache_sound_def)
  next
    case False
    with 1(2,3) show ?thesis by (auto simp: cache_sound_def split: option.splits if_splits)
  qed
next
  case (3 types preds visiting u us cache)
  show ?case
  proof (cases "types u = ''approval''")
    case True
    with 3(1,4,5) show ?thesis by auto
  next
    case False
    obtain ok1 c1 where run: "guarded types preds visiting u cache = (ok1, c1)" by fastforce
    note one = 3(2) [OF False 3(4) run]
    show ?thesis
    proof (cases ok1)
      case True
      with False run 3(5) have "guard_all types preds visiting us c1 = (ok, cache')" by simp
      with 3(3) [OF False run [unfolded True, symmetric]] one True show ?thesis by auto
    qed (use False run 3(5) one in auto)
  qed
qed auto

definition cache_complete :: "(string \<Rightarrow> string) \<Rightarrow> (string \<times> string) list \<Rightarrow> cache \<Rightarrow> bool" where
  "cache_complete types preds cache \<longleftrightarrow> (\<forall>v. cache v = Some False \<longrightarrow> \<not> dominated types preds v)"

lemma guarded_complete:
  "cache_complete types preds cache \<Longrightarrow> acyclic (set preds) \<Longrightarrow>
     \<forall>w\<in>set visiting. (w, cur) \<in> (set preds)\<^sup>+ \<Longrightarrow>
     guarded types preds visiting cur cache = (ok, cache') \<Longrightarrow>
     cache_complete types preds cache' \<and> (\<not> ok \<longrightarrow> \<not> dominated types preds cur)"
  "cache_complete types preds cache \<Longrightarrow> acyclic (set preds) \<Longrightarrow>
     \<forall>w\<in>set visiting. \<forall>u\<in>set us. (w, u) \<in> (set preds)\<^sup>+ \<Longrightarrow>
     guard_all types preds visiting us cache = (ok, cache') \<Longrightarrow>
     cache_complete types preds cache' \<and>
     (\<not> ok \<longrightarrow> (\<exists>u\<in>set us. types u \<noteq> ''approval'' \<and> \<not> dominated types preds u))"
proof (induction types preds visiting cur cache and types preds visiting us cache
    arbitrary: ok cache' and ok cache' rule: guarded_guard_all.induct)
  case (1 types preds visiting cur cache)
  have fresh: "cur \<notin> set visiting" using 1(3,4) by (auto simp: acyclic_def)
  show ?case
  proof (cases "cache cur = None \<and> nexts preds cur \<noteq> []")
    case True
    obtain ok1 c1 where run: "guard_all types preds (cur # visiting) (nexts preds cur) cache = (ok1, c1)"
      by fastforce
    with True fresh 1(5) have res: "ok = ok1" "cache' = c1(cur \<mapsto> ok1)" by auto
    have "\<forall>w\<in>set (cur # visiting). \<forall>u\<in>set (nexts preds cur). (w, u) \<in> (set preds)\<^sup>+"
      using 1(4) by (auto intro: trancl_into_trancl)
    from 1(1) [OF _ _ _ 1(2,3) this run] True fresh
    have "cache_complete types preds c1" "\<not> ok1 \<Longrightarrow> \<not> dominated types preds cur"
      by (auto simp: dominated_iff [of _ _ cur])
    with res show ?thesis by (auto simp: cache_complete_def)
  next
    case False
    with 1(2,5) fresh show ?thesis
      by (auto simp: cache_complete_def dominated_iff [of _ _ cur] split: option.splits if_splits)
  qed
next
  case (3 types preds visiting u us cache)
  show ?case
  proof (cases "types u = ''approval''")
    case True
    with 3(1,4-) show ?thesis by auto
  next
    case False
    obtain ok1 c1 where run: "guarded types preds visiting u cache = (ok1, c1)" by fastforce
    have one: "cache_complete types preds c1 \<and> (\<not> ok1 \<longrightarrow> \<not> dominated types preds u)"
      using 3(2) [OF False 3(4,5) _ run] 3(6) by simp
    show ?thesis
    proof (cases ok1)
      case True
      with False run 3(7) have "guard_all types preds visiting us c1 = (ok, cache')" by simp
      with 3(3) [OF False run [unfolded True, symmetric]] one True 3(5,6) show ?thesis by auto
    qed (use False run 3(7) one in auto)
  qed
qed auto

lemma dominated_paths:
  assumes "dominated types preds v" and "set preds = (set ps)\<inverse>"
    and "path ps p" and "hd p \<notin> snd ` set ps" and "last p = v"
  shows "\<exists>u\<in>set (butlast p). types u = ''approval''"
  using assms
proof (induction arbitrary: p rule: dominated.induct)
  case (dominatedI v)
  obtain q where q: "p = q @ [v]"
    using dominatedI.prems by (metis append_butlast_last_id path_def)
  from dominatedI.hyps(1) have "v \<in> snd ` set ps"
    using dominatedI.prems(1) by (force simp: nexts_Nil_iff)
  with q dominatedI.prems(3) have "q \<noteq> []" by (cases q) auto
  with q dominatedI.prems have pq: "path ps q" "hd q \<notin> snd ` set ps" and e: "(v, last q) \<in> set preds"
    by (auto simp: path_snoc)
  from dominatedI.IH [OF e] pq dominatedI.prems(1)
  have "types (last q) = ''approval'' \<or> (\<exists>u\<in>set (butlast q). types u = ''approval'')" by blast
  with \<open>q \<noteq> []\<close> q show ?case by (auto dest: in_set_butlastD)
qed

lemma undominated_path:
  assumes "acyclic (set ps)" and conv: "set preds = (set ps)\<inverse>" and "\<not> dominated types preds v"
  shows "\<exists>p. path ps p \<and> hd p \<notin> snd ` set ps \<and> last p = v \<and> (\<forall>u\<in>set (butlast p). types u \<noteq> ''approval'')"
proof -
  have "wf (set ps)" using assms(1) by (simp add: finite_acyclic_wf)
  then show ?thesis using assms(3)
  proof (induction v rule: wf_induct_rule)
    case (less v)
    show ?case
    proof (cases "nexts preds v = []")
      case True
      with conv have "v \<notin> snd ` set ps" by (force simp: nexts_Nil_iff)
      then show ?thesis by (intro exI [of _ "[v]"]) auto
    next
      case False
      with less.prems obtain u where u: "(v, u) \<in> set preds" "types u \<noteq> ''approval''"
        "\<not> dominated types preds u" by (auto intro: dominatedI)
      with less.IH [of u] conv obtain p where p: "path ps p" "hd p \<notin> snd ` set ps" "last p = u"
        "\<forall>u\<in>set (butlast p). types u \<noteq> ''approval''" by auto
      then have "p \<noteq> []" by (simp add: path_def)
      then have "set p = insert (last p) (set (butlast p))"
        by (metis append_butlast_last_id list.set(2) rotate1.simps(2) set_rotate1)
      with u p conv \<open>p \<noteq> []\<close> show ?thesis
        by (intro exI [of _ "p @ [v]"]) (auto simp: path_snoc)
    qed
  qed
qed

lemma dominated_iff_paths:
  assumes "acyclic (set ps)" and "set preds = (set ps)\<inverse>"
  shows "dominated types preds v \<longleftrightarrow> (\<forall>p. path ps p \<and> hd p \<notin> snd ` set ps \<and> last p = v \<longrightarrow>
    (\<exists>u\<in>set (butlast p). types u = ''approval''))" (is "_ \<longleftrightarrow> ?all")
proof
  assume "?all"
  then show "dominated types preds v"
    by (rule contrapos_pp) (use undominated_path [OF assms, of types v] in auto)
qed (use dominated_paths [OF _ assms(2), of types v] in blast)

lemma set_pred_pairs: "set (map (\<lambda>e. (e_To e, e_From e)) es) = (set (edge_pairs es))\<inverse>"
  by (auto simp: edge_pairs_def)

text \<open>
  Approval is authority only when it dominates. Whenever \<^verbatim>\<open>hasApprovalAncestor\<close> answers true,
  on any graph, even a cyclic one, every path from an entry point of the workflow to the node passes
  a node of type approval before it.
\<close>

lemma hasApprovalAncestor_sound:
  assumes "fst (hasApprovalAncestor ns es v Map.empty)"
    and "path (edge_pairs es) p" "hd p \<notin> set (map e_To es)" "last p = v"
  shows "\<exists>u\<in>set (butlast p). type_by_id ns u = ''approval''"
proof -
  let ?preds = "map (\<lambda>e. (e_To e, e_From e)) es"
  have "dominated (type_by_id ns) ?preds v"
    using guarded_sound(1) [of "type_by_id ns" ?preds Map.empty "[]" v] assms(1)
    by (cases "guarded (type_by_id ns) ?preds [] v Map.empty")
      (auto simp: hasApprovalAncestor_def cache_sound_def)
  moreover have "hd p \<notin> snd ` set (edge_pairs es)" using assms(3) by (auto simp: edge_pairs_def)
  ultimately show ?thesis using dominated_paths set_pred_pairs assms(2,4) by blast
qed

text \<open>
  On the acyclic graphs the validator accepts, \<^verbatim>\<open>hasApprovalAncestor\<close> is exact, and its memo
  table stays right for the calls that share it: whatever was cached before is correct afterwards.
\<close>

theorem hasApprovalAncestor_exact:
  assumes "acyclic (set (edge_pairs es))"
    and "\<forall>u b. cache u = Some b \<longrightarrow> b = dominated (type_by_id ns) (map (\<lambda>e. (e_To e, e_From e)) es) u"
    and "hasApprovalAncestor ns es v cache = (ok, cache')"
  shows "(ok \<longleftrightarrow> (\<forall>p. path (edge_pairs es) p \<and> hd p \<notin> set (map e_To es) \<and> last p = v \<longrightarrow>
              (\<exists>u\<in>set (butlast p). type_by_id ns u = ''approval''))) \<and>
    (\<forall>u b. cache' u = Some b \<longrightarrow> b = dominated (type_by_id ns) (map (\<lambda>e. (e_To e, e_From e)) es) u)"
proof -
  let ?types = "type_by_id ns" and ?preds = "map (\<lambda>e. (e_To e, e_From e)) es"
  have acyc: "acyclic (set ?preds)" using assms(1) by (simp only: set_pred_pairs acyclic_converse)
  have run: "guarded ?types ?preds [] v cache = (ok, cache')"
    using assms(3) by (simp add: hasApprovalAncestor_def)
  have sound: "cache_sound ?types ?preds cache' \<and> (ok \<longrightarrow> dominated ?types ?preds v)"
    using guarded_sound(1) [OF _ run] assms(2) by (auto simp: cache_sound_def)
  have complete: "cache_complete ?types ?preds cache' \<and> (\<not> ok \<longrightarrow> \<not> dominated ?types ?preds v)"
    using guarded_complete(1) [OF _ acyc _ run] assms(2) by (auto simp: cache_complete_def)
  have heads: "hd p \<notin> set (map e_To es) \<longleftrightarrow> hd p \<notin> snd ` set (edge_pairs es)" for p
    by (auto simp: edge_pairs_def image_image)
  have "dominated ?types ?preds v \<longleftrightarrow> (\<forall>p. path (edge_pairs es) p \<and> hd p \<notin> set (map e_To es) \<and>
      last p = v \<longrightarrow> (\<exists>u\<in>set (butlast p). ?types u = ''approval''))"
    unfolding heads by (rule dominated_iff_paths [OF assms(1) set_pred_pairs])
  moreover have "b = dominated ?types ?preds u" if "cache' u = Some b" for u b
    using sound complete that by (cases b) (auto simp: cache_sound_def cache_complete_def)
  ultimately show ?thesis using sound complete by blast
qed

end
