(* ===== verification/JsValue.thy ===== *)
theory JsValue
  imports Json "HOL-Library.Log_Nat"
begin

text \<open>
  JavaScript value semantics over decoded JSON (\<^verbatim>\<open>internal/grammar/jsvalue.go\<close>): undefined against
  null, truthiness, strict and loose equality, \<^verbatim>\<open>Number(string)\<close> and the UTF-16 order on strings.
  The parts of \<^verbatim>\<open>strconv\<close>, \<^verbatim>\<open>utf8\<close> and \<^verbatim>\<open>utf16\<close> the file uses are modelled here as well; finite
  float64 values are the rationals they denote, so a decimal literal is rounded to the nearest
  float64, ties to even.
\<close>

section \<open>Rounding to float64\<close>

definition exp2 :: "int \<Rightarrow> rat" where
  "exp2 e = (if 0 \<le> e then 2 ^ nat e else 1 / 2 ^ nat (- e))"

text \<open>The floor of the binary logarithm of a positive rational.\<close>

definition log2_floor :: "rat \<Rightarrow> int" where
  "log2_floor q = (let (a, b) = quotient_of q; e = bitlen a - bitlen b in
     if exp2 e \<le> q then e else e - 1)"

definition round_half_even :: "rat \<Rightarrow> int" where
  "round_half_even x = (let f = \<lfloor>x\<rfloor>; d = x - of_int f in
     if d < 1/2 then f else if d > 1/2 then f + 1 else if even f then f else f + 1)"

definition round_f64 :: "rat \<Rightarrow> f64" where
  "round_f64 q = (if q = 0 then Fin 0 else
     let u = exp2 (max (log2_floor \<bar>q\<bar> - 52) (- 1074)); r = of_int (round_half_even (q / u)) * u in
     if r \<ge> 2 ^ 1024 then PosInf else if r \<le> - (2 ^ 1024) then NegInf else Fin r)"

lemma exp2_pos [simp]: "0 < exp2 e"
  by (simp add: exp2_def)

lemma exp2_add: "exp2 (a + b) = exp2 a * exp2 b"
proof -
  have "exp2 e = 2 powi e" for e by (simp add: exp2_def power_int_def field_simps)
  then show ?thesis by (simp add: power_int_add)
qed

lemma exp2_le_quotient:
  fixes a b :: int
  assumes "0 < a" "0 < b"
  shows "exp2 (bitlen a - bitlen b - 1) \<le> of_int a / of_int b"
proof -
  have l: "0 < bitlen a" "0 < bitlen b" using assms bitlen_nonneg bitlen_eq_zero_iff
    by (metis less_eq_int_code(1) less_le not_less)+
  have "(2 :: int) ^ nat (bitlen a - 1) \<le> a" "b < 2 ^ nat (bitlen b)" using assms bitlen_bounds by auto
  then have "(2 :: rat) ^ nat (bitlen a - 1) \<le> of_int a" "(of_int b :: rat) \<le> 2 ^ nat (bitlen b)"
    by (metis (mono_tags) of_int_le_iff of_int_numeral of_int_power, metis (mono_tags) less_imp_le of_int_le_iff of_int_numeral of_int_power)
  moreover have "(2 :: rat) ^ nat (bitlen a - 1) = exp2 (bitlen a - 1)" "(2 :: rat) ^ nat (bitlen b) = exp2 (bitlen b)"
    using l by (simp_all add: exp2_def)
  moreover have "exp2 (bitlen a - bitlen b - 1) * exp2 (bitlen b) = exp2 (bitlen a - 1)"
    by (simp add: exp2_add [symmetric])
  moreover have "exp2 (bitlen a - bitlen b - 1) * of_int b \<le> exp2 (bitlen a - bitlen b - 1) * exp2 (bitlen b)"
    if "of_int b \<le> exp2 (bitlen b)" using that by (simp add: mult_left_mono less_imp_le)
  ultimately show ?thesis using assms by (simp add: pos_le_divide_eq)
qed

lemma log2_floor_le: "0 < q \<Longrightarrow> exp2 (log2_floor q) \<le> q"
proof -
  assume q: "0 < q"
  obtain a b where ab: "quotient_of q = (a, b)" by force
  then have b: "0 < b" "q = of_int a / of_int b" by (auto intro: quotient_of_denom_pos quotient_of_div)
  with q have "0 < a" by (simp add: zero_less_divide_iff)
  with b exp2_le_quotient [of a b] have "exp2 (bitlen a - bitlen b - 1) \<le> q" by simp
  then show ?thesis by (simp add: log2_floor_def ab Let_def)
qed

lemma round_half_even_close: "\<bar>of_int (round_half_even x) - x\<bar> \<le> 1 / 2"
proof -
  have "of_int \<lfloor>x\<rfloor> \<le> x" "x < of_int \<lfloor>x\<rfloor> + 1" by linarith+
  then show ?thesis by (auto simp: round_half_even_def Let_def abs_le_iff)
qed

text \<open>Rounding moves a positive value by at most one part in two to the 53rd, or a negligible amount.\<close>

lemma round_f64_close:
  assumes q: "0 < q" and "q < 2 ^ 1000"
  obtains r where "round_f64 q = Fin r" "\<bar>r - q\<bar> \<le> q / 2 ^ 53 + 1 / 2 ^ 1000"
proof -
  define u where "u = exp2 (max (log2_floor q - 52) (- 1074))"
  define r where "r = of_int (round_half_even (q / u)) * u"
  have u0: "0 < u" by (simp add: u_def)
  have "exp2 (log2_floor q - 52) = exp2 (log2_floor q) * exp2 (- 52)" using exp2_add [of "log2_floor q" "- 52"] by simp
  also have "\<dots> \<le> q * exp2 (- 52)" using log2_floor_le [OF q] by (simp add: mult_right_mono less_imp_le)
  finally have "exp2 (log2_floor q - 52) \<le> q / 2 ^ 52" by (simp add: exp2_def)
  moreover have "exp2 (- 1074) \<le> 1 / 2 ^ 1000" by (simp add: exp2_def)
  ultimately have u: "u \<le> q / 2 ^ 52 + 1 / 2 ^ 1000"
    unfolding u_def max_def using q by (auto intro: add_increasing add_increasing2)
  have "\<bar>of_int (round_half_even (q / u)) - q / u\<bar> * u \<le> 1 / 2 * u"
    using round_half_even_close u0 by (intro mult_right_mono) auto
  moreover have "(of_int (round_half_even (q / u)) - q / u) * u = r - q"
    using u0 by (simp add: r_def left_diff_distrib)
  then have "\<bar>of_int (round_half_even (q / u)) - q / u\<bar> * u = \<bar>r - q\<bar>"
    using u0 by (metis abs_mult abs_of_pos)
  ultimately have "\<bar>r - q\<bar> \<le> 1 / 2 * u" by simp
  also have "\<dots> \<le> 1 / 2 * (q / 2 ^ 52 + 1 / 2 ^ 1000)" using u by (rule mult_left_mono) simp
  also have "\<dots> \<le> q / 2 ^ 53 + 1 / 2 ^ 1000" by (simp add: distrib_left)
  finally have close: "\<bar>r - q\<bar> \<le> q / 2 ^ 53 + 1 / 2 ^ 1000" .
  have "q / 2 ^ 53 \<le> q" "1 / 2 ^ 1000 \<le> (1 :: rat)" using q by (simp_all add: field_simps)
  with close have "\<bar>r - q\<bar> \<le> q + 1" by linarith
  then have "- 1 \<le> r" "r \<le> 2 * q + 1" by linarith+
  moreover have "2 * q < 2 * 2 ^ 1000" "2 * 2 ^ 1000 + 1 \<le> (2 :: rat) ^ 1024" using assms(2) by simp_all
  moreover have "1 < (2 :: rat) ^ 1024" by simp
  ultimately have "r < 2 ^ 1024" "- (2 ^ 1024) < r" by linarith+
  then have "round_f64 q = Fin r" using q by (simp add: round_f64_def u_def r_def Let_def)
  with close that show thesis by blast
qed

lemma round_half_even_of_int: "round_half_even (of_int k) = k"
  by (simp add: round_half_even_def)

lemma exp2_mono: "a \<le> b \<Longrightarrow> exp2 a \<le> exp2 b"
proof -
  assume "a \<le> b"
  then have "exp2 b = exp2 a * 2 ^ nat (b - a)" using exp2_add [of a "b - a"] by (simp add: exp2_def)
  moreover have "exp2 a * 1 \<le> exp2 a * 2 ^ nat (b - a)" by (intro mult_left_mono) (simp_all add: less_imp_le)
  ultimately show ?thesis by simp
qed

text \<open>Whole numbers below two to the 53rd are exact.\<close>

lemma round_f64_int:
  assumes "0 < n" "n < 2 ^ 53"
  shows "round_f64 (of_int n) = Fin (of_int n)"
proof -
  define q :: rat where "q = of_int n"
  define e where "e = max (log2_floor q - 52) (- 1074)"
  have q: "0 < q" "q < 2 ^ 53" using assms by (simp_all add: q_def)
  have "log2_floor q < 53"
  proof (rule ccontr)
    assume "\<not> log2_floor q < 53"
    then have "exp2 53 \<le> exp2 (log2_floor q)" by (intro exp2_mono) simp
    with log2_floor_le [OF q(1)] q(2) show False by (simp add: exp2_def)
  qed
  then have e: "e \<le> 0" by (simp add: e_def)
  then have x: "q / exp2 e = of_int (n * 2 ^ nat (- e))" by (simp add: q_def exp2_def)
  have "round_half_even (q / exp2 e) = n * 2 ^ nat (- e)" unfolding x by (rule round_half_even_of_int)
  with x have "of_int (round_half_even (q / exp2 e)) * exp2 e = q" by (metis exp2_pos less_irrefl nonzero_eq_divide_eq)
  moreover have "\<not> q \<ge> 2 ^ 1024" "\<not> q \<le> - (2 ^ 1024)"
  proof -
    have "(2 :: rat) ^ 53 \<le> 2 ^ 1024" "0 < (2 :: rat) ^ 1024" by simp_all
    with q show "\<not> q \<ge> 2 ^ 1024" "\<not> q \<le> - (2 ^ 1024)" by linarith+
  qed
  ultimately show ?thesis using q by (simp add: round_f64_def Let_def e_def q_def)
qed

lemma round_f64_numeral: "(numeral k :: int) < 2 ^ 53 \<Longrightarrow> round_f64 (numeral k) = Fin (numeral k)"
  "round_f64 1 = Fin 1" "round_f64 0 = Fin 0"
  using round_f64_int [of "numeral k"] round_f64_int [of 1] by (simp_all add: round_f64_def)

fun f64_eq :: "f64 \<Rightarrow> f64 \<Rightarrow> bool" where
  "f64_eq NaN _ = False"
| "f64_eq _ NaN = False"
| "f64_eq a b = (a = b)"

fun f64_finite :: "f64 \<Rightarrow> bool" where
  "f64_finite (Fin _) = True" | "f64_finite _ = False"

section \<open>Values\<close>

datatype jsv = Undef | Val json

fun isUndefined :: "jsv \<Rightarrow> bool" where
  "isUndefined Undef = True" | "isUndefined (Val _) = False"

fun jsTruthy :: "jsv \<Rightarrow> bool" where
  "jsTruthy Undef = False"
| "jsTruthy (Val JNull) = False"
| "jsTruthy (Val (JBool b)) = b"
| "jsTruthy (Val (JNum x)) = (x \<noteq> Fin 0 \<and> x \<noteq> NaN)"
| "jsTruthy (Val (JStr s)) = (s \<noteq> [])"
| "jsTruthy (Val _) = True"

fun strictEquals :: "jsv \<Rightarrow> jsv \<Rightarrow> bool" where
  "strictEquals Undef r = isUndefined r"
| "strictEquals (Val l) Undef = False"
| "strictEquals (Val JNull) (Val r) = (r = JNull)"
| "strictEquals (Val (JBool a)) (Val r) = (case r of JBool b \<Rightarrow> a = b | _ \<Rightarrow> False)"
| "strictEquals (Val (JNum a)) (Val r) = (case r of JNum b \<Rightarrow> f64_eq a b | _ \<Rightarrow> False)"
| "strictEquals (Val (JStr a)) (Val r) = (case r of JStr b \<Rightarrow> a = b | _ \<Rightarrow> False)"
| "strictEquals (Val _) (Val r) = False"

section \<open>Number of a string\<close>

definition all_digits :: "string \<Rightarrow> bool" where
  "all_digits s \<longleftrightarrow> s \<noteq> [] \<and> list_all digit s"

definition digits_val :: "string \<Rightarrow> nat" where
  "digits_val s = foldl (\<lambda>n c. n * 10 + digit_val c) 0 s"

definition radix_digit :: "char \<Rightarrow> nat option" where
  "radix_digit c = (let n = of_char c :: nat in
     if 48 \<le> n \<and> n \<le> 57 then Some (n - 48)
     else if 97 \<le> n \<and> n \<le> 122 then Some (n - 87)
     else if 65 \<le> n \<and> n \<le> 90 then Some (n - 55) else None)"

text \<open>\<^verbatim>\<open>strconv.ParseUint(s, base, 64)\<close> for a base given explicitly.\<close>

fun parse_radix :: "nat \<Rightarrow> string \<Rightarrow> nat \<Rightarrow> nat option" where
  "parse_radix base [] n = Some n"
| "parse_radix base (c # s) n =
     (case radix_digit c of
        None \<Rightarrow> None
      | Some d \<Rightarrow> if d \<ge> base \<or> n * base + d \<ge> 2 ^ 64 then None else parse_radix base s (n * base + d))"

definition ParseUint :: "nat \<Rightarrow> string \<Rightarrow> nat option" where
  "ParseUint base s = (if s = [] then None else parse_radix base s 0)"

text \<open>
  \<^verbatim>\<open>jsDecimalPattern\<close>, \<open>^[+-]?(\d+\.?\d*|\.\d+)([eE][+-]?\d+)?$\<close>, and the value \<^verbatim>\<open>ParseFloat\<close> gives a
  match: the parts are the sign, the digits before and after the point and the exponent.
\<close>

definition split_sign :: "string \<Rightarrow> bool \<times> string" where
  "split_sign s = (case s of c # r \<Rightarrow> if c = CHR ''-'' then (True, r) else if c = CHR ''+'' then (False, r) else (False, s)
                   | [] \<Rightarrow> (False, []))"

definition parse_exponent :: "string \<Rightarrow> int option" where
  "parse_exponent s = (case s of
     [] \<Rightarrow> Some 0
   | c # r \<Rightarrow> if c = CHR ''e'' \<or> c = CHR ''E'' then
       (let (neg, ds) = split_sign r in
        if all_digits ds then Some ((if neg then - 1 else 1) * int (digits_val ds)) else None)
     else None)"

definition parse_decimal :: "string \<Rightarrow> rat option" where
  "parse_decimal t = (let (neg, s) = split_sign t;
       whole_part = takeWhile digit s; r = dropWhile digit s;
       (frac, rest) = (case r of c # r' \<Rightarrow> if c = CHR ''.'' then (takeWhile digit r', dropWhile digit r') else ([], r)
                       | [] \<Rightarrow> ([], []));
       m = of_nat (digits_val (whole_part @ frac)) / 10 ^ length frac in
     if whole_part = [] \<and> frac = [] then None
     else (case parse_exponent rest of
         None \<Rightarrow> None
       | Some e \<Rightarrow> Some ((if neg then - 1 else 1) * m * (if 0 \<le> e then 10 ^ nat e else 1 / 10 ^ nat (- e)))))"

definition jsNumber :: "string \<Rightarrow> f64" where
  "jsNumber s = (let t = TrimSpace s in
     if t = [] then Fin 0
     else if t = ''Infinity'' \<or> t = ''+Infinity'' then PosInf
     else if t = ''-Infinity'' then NegInf
     else let base = (if length t > 2 \<and> t ! 0 = CHR ''0'' then
                        (if t ! 1 = CHR ''x'' \<or> t ! 1 = CHR ''X'' then 16
                         else if t ! 1 = CHR ''o'' \<or> t ! 1 = CHR ''O'' then 8
                         else if t ! 1 = CHR ''b'' \<or> t ! 1 = CHR ''B'' then 2 else 0)
                      else (0::nat)) in
       if base \<noteq> 0 then (case ParseUint base (drop 2 t) of Some n \<Rightarrow> round_f64 (of_nat n) | None \<Rightarrow> NaN)
       else (case parse_decimal t of
           None \<Rightarrow> NaN
         | Some q \<Rightarrow> (case round_f64 q of Fin r \<Rightarrow> Fin r | _ \<Rightarrow> NaN)))"

section \<open>Loose equality\<close>

fun boolToNumber :: "bool \<Rightarrow> f64" where
  "boolToNumber b = (if b then Fin 1 else Fin 0)"

definition numbersEqual :: "f64 \<Rightarrow> f64 \<Rightarrow> bool" where
  "numbersEqual a b \<longleftrightarrow> a \<noteq> NaN \<and> b \<noteq> NaN \<and> f64_eq a b"

fun nilish :: "jsv \<Rightarrow> bool" where
  "nilish Undef = True" | "nilish (Val v) = (v = JNull)"

fun loose_scalars :: "json \<Rightarrow> json \<Rightarrow> bool" where
  "loose_scalars (JNum a) (JNum b) = f64_eq a b"
| "loose_scalars (JNum a) (JStr b) = numbersEqual a (jsNumber b)"
| "loose_scalars (JStr a) (JStr b) = (a = b)"
| "loose_scalars (JStr a) (JNum b) = numbersEqual (jsNumber a) b"
| "loose_scalars _ _ = False"

fun bool_as_number :: "json \<Rightarrow> json" where
  "bool_as_number (JBool b) = JNum (boolToNumber b)" | "bool_as_number v = v"

text \<open>The two recursive calls replace a boolean operand by its number, the left one first.\<close>

definition looseEquals :: "jsv \<Rightarrow> jsv \<Rightarrow> bool" where
  "looseEquals l r =
     (if nilish l \<or> nilish r then nilish l \<and> nilish r
      else (case (l, r) of
              (Val a, Val b) \<Rightarrow> loose_scalars (bool_as_number a) (bool_as_number b)
            | _ \<Rightarrow> False))"

section \<open>UTF-16 order\<close>

text \<open>
  \<^verbatim>\<open>[]rune(s)\<close>: a malformed byte sequence yields U+FFFD and consumes one byte.
\<close>

definition cont :: "nat \<Rightarrow> bool" where
  "cont b \<longleftrightarrow> 128 \<le> b \<and> b < 192"

fun runes :: "nat list \<Rightarrow> nat list" where
  "runes [] = []"
| "runes (a # s) =
     (if a < 128 then a # runes s
      else case s of
        b # c # d # s' \<Rightarrow>
          if 194 \<le> a \<and> a < 224 \<and> cont b then ((a - 192) * 64 + (b - 128)) # runes (c # d # s')
          else if 224 \<le> a \<and> a < 240 \<and> cont b \<and> cont c \<and> (a = 224 \<longrightarrow> 160 \<le> b) \<and> (a = 237 \<longrightarrow> b < 160)
          then ((a - 224) * 4096 + (b - 128) * 64 + (c - 128)) # runes (d # s')
          else if 240 \<le> a \<and> a < 245 \<and> cont b \<and> cont c \<and> cont d \<and> (a = 240 \<longrightarrow> 144 \<le> b) \<and> (a = 244 \<longrightarrow> b < 144)
          then ((a - 240) * 262144 + (b - 128) * 4096 + (c - 128) * 64 + (d - 128)) # runes s'
          else 65533 # runes (b # c # d # s')
      | [b, c] \<Rightarrow>
          if 194 \<le> a \<and> a < 224 \<and> cont b then ((a - 192) * 64 + (b - 128)) # runes [c]
          else if 224 \<le> a \<and> a < 240 \<and> cont b \<and> cont c \<and> (a = 224 \<longrightarrow> 160 \<le> b) \<and> (a = 237 \<longrightarrow> b < 160)
          then [(a - 224) * 4096 + (b - 128) * 64 + (c - 128)]
          else 65533 # runes [b, c]
      | [b] \<Rightarrow> if 194 \<le> a \<and> a < 224 \<and> cont b then [(a - 192) * 64 + (b - 128)] else 65533 # runes [b]
      | [] \<Rightarrow> [65533])"

definition utf16_encode :: "nat list \<Rightarrow> nat list" where
  "utf16_encode rs = concat (map (\<lambda>r. if r < 65536 then [r]
     else [55296 + (r - 65536) div 1024, 56320 + (r - 65536) mod 1024]) rs)"

definition code_units :: "string \<Rightarrow> nat list" where
  "code_units s = utf16_encode (runes (map of_char s))"

fun unit_compare :: "nat list \<Rightarrow> nat list \<Rightarrow> int" where
  "unit_compare [] [] = 0"
| "unit_compare [] (_ # _) = - 1"
| "unit_compare (_ # _) [] = 1"
| "unit_compare (a # as) (b # bs) = (if a \<noteq> b then (if a < b then - 1 else 1) else unit_compare as bs)"

definition utf16Compare :: "string \<Rightarrow> string \<Rightarrow> int" where
  "utf16Compare a b = unit_compare (code_units a) (code_units b)"

section \<open>Laws of the coercions\<close>

lemma f64_eq_sym: "f64_eq a b \<longleftrightarrow> f64_eq b a"
  by (cases a; cases b) auto

lemma strictEquals_sym: "strictEquals l r \<longleftrightarrow> strictEquals r l"
proof -
  have "strictEquals (Val a) (Val b) \<longleftrightarrow> strictEquals (Val b) (Val a)" for a b
    by (cases a; cases b) (auto simp: f64_eq_sym)
  then show ?thesis by (cases l; cases r) auto
qed

lemma looseEquals_sym: "looseEquals l r \<longleftrightarrow> looseEquals r l"
proof -
  have "loose_scalars a b \<longleftrightarrow> loose_scalars b a" for a b
    by (cases a; cases b) (auto simp: f64_eq_sym numbersEqual_def)
  then show ?thesis by (cases l; cases r) (auto simp: looseEquals_def)
qed

lemma strict_imp_loose: "strictEquals l r \<Longrightarrow> looseEquals l r"
proof -
  have "strictEquals (Val a) (Val b) \<Longrightarrow> looseEquals (Val a) (Val b)" for a b
    by (cases a; cases b) (auto simp: looseEquals_def)
  moreover have "strictEquals Undef r \<Longrightarrow> looseEquals Undef r" for r
    by (cases r) (auto simp: looseEquals_def)
  ultimately show "strictEquals l r \<Longrightarrow> looseEquals l r"
    by (cases l; cases r) simp_all
qed

lemma unit_compare_antisym: "unit_compare b a = - unit_compare a b"
  by (induction a b rule: unit_compare.induct) auto

lemma utf16Compare_antisym: "utf16Compare b a = - utf16Compare a b"
  unfolding utf16Compare_def by (rule unit_compare_antisym)

end
