(* ===== verification/Expression.thy ===== *)
theory Expression
  imports JsValue
begin

text \<open>
  The limited-grammar expression evaluator of \<^verbatim>\<open>internal/grammar/expression.go\<close>: the quote- and
  bracket-aware splitting, literals and paths, the comparison operators, the glob matcher, and the
  two entry points, evaluation against a scope and static validation. An error message of the source
  is a constructor of \<open>expr_error\<close> with the text it quotes.
\<close>

section \<open>Errors and scopes\<close>

datatype expr_error =
    EmptyExpression
  | EmptyValue
  | UnsupportedToken string
  | OrderedOperands string
  | OrderedFinite string
  | ContainsLeft
  | StartsWithOperands
  | MatchesOperands
  | InRight
  | GlobPatternTooLong
  | GlobValueTooLong

record scope =
  sc_Context :: jsv
  sc_Inputs :: jsv

definition comparisonOperators :: "string list" where
  "comparisonOperators = [''==='', ''!=='', ''>='', ''<='', ''=='', ''!='', ''>'', ''<'',
     ''contains'', ''startsWith'', ''matches'', ''in'']"

definition wordComparisonOperators :: "string list" where
  "wordComparisonOperators = [''contains'', ''startsWith'', ''matches'', ''in'']"

definition maxGlobPatternChars :: nat where "maxGlobPatternChars = 256"
definition maxGlobValueChars :: nat where "maxGlobValueChars = 16384"

section \<open>Scanning\<close>

definition isEscaped :: "string \<Rightarrow> nat \<Rightarrow> bool" where
  "isEscaped s i \<longleftrightarrow> odd (length (takeWhile (\<lambda>c. c = CHR 0x5C) (rev (take i s))))"

definition isSpaceByte :: "char \<Rightarrow> bool" where
  "isSpaceByte c \<longleftrightarrow> c \<in> {CHR 0x20, CHR 0x09, CHR 0x0A, CHR 0x0D, CHR 0x0C, CHR 0x0B}"

definition opens_quote :: "string \<Rightarrow> nat \<Rightarrow> bool" where
  "opens_quote s i \<longleftrightarrow> (s ! i = CHR 0x22 \<or> s ! i = CHR 0x27) \<and> \<not> isEscaped s i"

text \<open>The quote state after an unescaped quote character.\<close>

definition toggle :: "char option \<Rightarrow> char \<Rightarrow> char option" where
  "toggle q c = (if q = Some c then None else if q = None then Some c else q)"

definition paren_step :: "char \<Rightarrow> int \<Rightarrow> int" where
  "paren_step c d = (if c = CHR ''('' then d + 1 else if c = CHR '')'' then d - 1 else d)"

definition bracket_step :: "char \<Rightarrow> int \<Rightarrow> int" where
  "bracket_step c d = (if c = CHR ''['' then d + 1 else if c = CHR '']'' then d - 1 else d)"

text \<open>
  The loop \<^verbatim>\<open>splitTopLevel\<close> and \<^verbatim>\<open>splitWordComparison\<close> share: \<open>hit i\<close> says that the operator, of
  \<open>n\<close> bytes, stands at position \<open>i\<close>. The result is the finished parts and the start of the last one.
\<close>

function split_loop ::
  "(nat \<Rightarrow> bool) \<Rightarrow> nat \<Rightarrow> string \<Rightarrow> nat \<Rightarrow> nat \<Rightarrow> int \<Rightarrow> int \<Rightarrow> char option \<Rightarrow> string list \<Rightarrow> string list \<times> nat"
where
  "split_loop hit n s i start pd bd q parts =
     (if i \<ge> length s then (parts, start)
      else if opens_quote s i then split_loop hit n s (i + 1) start pd bd (toggle q (s ! i)) parts
      else if q \<noteq> None then split_loop hit n s (i + 1) start pd bd q parts
      else let pd' = paren_step (s ! i) pd; bd' = bracket_step (s ! i) bd in
        if pd' = 0 \<and> bd' = 0 \<and> hit i
        then split_loop hit n s (i + (n - 1) + 1) (i + n) pd' bd' q
               (parts @ [TrimSpace (take (i - start) (drop start s))])
        else split_loop hit n s (i + 1) start pd' bd' q parts)"
  by pat_completeness auto
termination by (relation "measure (\<lambda>(hit, n, s, i, _). length s - i)") auto

declare split_loop.simps [simp del]

definition split_with :: "(nat \<Rightarrow> bool) \<Rightarrow> nat \<Rightarrow> string \<Rightarrow> string list" where
  "split_with hit n s = (case split_loop hit n s 0 0 0 0 None [] of
     (parts, start) \<Rightarrow> if parts = [] then [TrimSpace s] else parts @ [TrimSpace (drop start s)])"

definition splitTopLevel :: "string \<Rightarrow> string \<Rightarrow> string list" where
  "splitTopLevel s op =
     split_with (\<lambda>i. i + length op \<le> length s \<and> take (length op) (drop i s) = op) (length op) s"

definition splitWordComparison :: "string \<Rightarrow> string \<Rightarrow> string list" where
  "splitWordComparison s op =
     split_with (\<lambda>i. i > 0 \<and> i + length op < length s \<and> take (length op) (drop i s) = op \<and>
       isSpaceByte (s ! (i - 1)) \<and> isSpaceByte (s ! (i + length op))) (length op) s"

definition splitComparison :: "string \<Rightarrow> string \<Rightarrow> (string \<times> string) option" where
  "splitComparison s op =
     (case (if op \<in> set wordComparisonOperators then splitWordComparison s op else splitTopLevel s op) of
        [l, r] \<Rightarrow> Some (l, r)
      | _ \<Rightarrow> None)"

function wraps_loop :: "string \<Rightarrow> nat \<Rightarrow> int \<Rightarrow> char option \<Rightarrow> bool" where
  "wraps_loop s i depth q =
     (if i \<ge> length s then depth = 0
      else if opens_quote s i then wraps_loop s (i + 1) depth (toggle q (s ! i))
      else if q \<noteq> None then wraps_loop s (i + 1) depth q
      else let depth' = paren_step (s ! i) depth in
        if depth' = 0 \<and> i < length s - 1 then False else wraps_loop s (i + 1) depth' q)"
  by pat_completeness auto
termination by (relation "measure (\<lambda>(s, i, _). length s - i)") auto

declare wraps_loop.simps [simp del]

definition wrapsWholeExpression :: "string \<Rightarrow> bool" where
  "wrapsWholeExpression s = wraps_loop s 0 0 None"

text \<open>A slice \<^verbatim>\<open>s[1:len(s)-1]\<close>.\<close>

definition inner :: "string \<Rightarrow> string" where
  "inner s = butlast (tl s)"

lemma length_inner: "s \<noteq> [] \<Longrightarrow> length (inner s) < length s"
  by (cases s) (auto simp: inner_def)

function stripOuterParens :: "string \<Rightarrow> string" where
  "stripOuterParens s =
     (if s \<noteq> [] \<and> hd s = CHR ''('' \<and> last s = CHR '')'' \<and> wrapsWholeExpression s
      then stripOuterParens (TrimSpace (inner s)) else s)"
  by pat_completeness auto
termination
proof (relation "measure length")
  fix s :: string
  assume "s \<noteq> [] \<and> hd s = CHR ''('' \<and> last s = CHR '')'' \<and> wrapsWholeExpression s"
  then have "length (TrimSpace (inner s)) < length s"
    using length_inner [of s] length_TrimSpace [of "inner s"] by simp
  then show "(TrimSpace (inner s), s) \<in> measure length" by simp
qed simp

declare stripOuterParens.simps [simp del]

lemma length_stripOuterParens: "length (stripOuterParens s) \<le> length s"
proof (induction s rule: stripOuterParens.induct)
  case (1 s)
  show ?case
    using 1 length_inner [of s] length_TrimSpace [of "inner s"]
    by (subst stripOuterParens.simps) (auto intro: order.trans)
qed

definition strip :: "string \<Rightarrow> string" where
  "strip s = stripOuterParens (TrimSpace s)"

lemma length_strip: "length (strip s) \<le> length s"
  using length_stripOuterParens [of "TrimSpace s"] length_TrimSpace [of s] by (simp add: strip_def)

section \<open>Paths\<close>

definition path_char :: "char \<Rightarrow> bool" where
  "path_char c \<longleftrightarrow> digit c \<or> upper_byte c \<noteq> c \<or> lower_byte c \<noteq> c \<or> c = CHR ''_'' \<or> c = CHR ''$'' \<or> c = CHR ''-''"

text \<open>
  \<^verbatim>\<open>safePathPattern\<close>: after the root, any number of \<open>.name\<close> and \<open>[digits]\<close> segments. The list of
  segment texts is what splitting the normalised path at its dots gives.
\<close>

function path_segments :: "string \<Rightarrow> string list option" where
  "path_segments s = (case s of
     [] \<Rightarrow> Some []
   | c # r \<Rightarrow>
       if c = CHR ''.'' then
         (let seg = takeWhile path_char r in
          if seg = [] then None else map_option (Cons seg) (path_segments (dropWhile path_char r)))
       else if c = CHR ''['' then
         (let seg = takeWhile digit r in
          case dropWhile digit r of
            d # r' \<Rightarrow> if seg = [] \<or> d \<noteq> CHR '']'' then None else map_option (Cons seg) (path_segments r')
          | [] \<Rightarrow> None)
       else None)"
  by pat_completeness auto
termination
proof (relation "measure length", goal_cases)
  case (2 s c r)
  then show ?case by (simp add: length_dropWhile_le le_imp_less_Suc)
next
  case (3 s c r seg d r')
  then have "length (d # r') \<le> length r" by (metis length_dropWhile_le)
  with 3 show ?case by simp
qed simp

declare path_segments.simps [simp del]

definition path_root :: "string \<Rightarrow> (string \<times> string) option" where
  "path_root s = (if prefix ''context'' s then Some (''context'', drop 7 s)
                  else if prefix ''inputs'' s then Some (''inputs'', drop 6 s) else None)"

definition safePath :: "string \<Rightarrow> (string \<times> string list) option" where
  "safePath s = (case path_root s of
     None \<Rightarrow> None
   | Some (rt, rest) \<Rightarrow> map_option (Pair rt) (path_segments rest))"

fun index_loop :: "string \<Rightarrow> nat \<Rightarrow> nat option" where
  "index_loop [] n = Some n"
| "index_loop (c # s) n =
     (if \<not> digit c then None
      else if n * 10 + digit_val c > 2 ^ 30 then None
      else index_loop s (n * 10 + digit_val c))"

definition parseIndex :: "string \<Rightarrow> nat option" where
  "parseIndex key = (if key = [] then None else index_loop key 0)"

definition childValue :: "jsv \<Rightarrow> string \<Rightarrow> jsv" where
  "childValue p key = (case p of
     Val (JObj m) \<Rightarrow> (case map_of m key of None \<Rightarrow> Undef | Some v \<Rightarrow> Val v)
   | Val (JArr xs) \<Rightarrow> (case parseIndex key of
         None \<Rightarrow> Undef
       | Some i \<Rightarrow> if i \<ge> length xs then Undef else Val (xs ! i))
   | _ \<Rightarrow> Undef)"

fun walk_path :: "jsv \<Rightarrow> string list \<Rightarrow> jsv" where
  "walk_path cur [] = cur"
| "walk_path cur (k # ks) =
     (let next = childValue cur k in if isUndefined next then Undef else walk_path next ks)"

definition getBySafePath :: "scope \<Rightarrow> string \<times> string list \<Rightarrow> jsv" where
  "getBySafePath sc p = (case p of (rt, ks) \<Rightarrow>
     walk_path (if rt = ''context'' then sc_Context sc else sc_Inputs sc) ks)"

section \<open>Literals\<close>

text \<open>\<^verbatim>\<open>numberLiteralPattern\<close>, \<open>^-?\d+(\.\d+)?$\<close>.\<close>

definition numberLiteral :: "string \<Rightarrow> bool" where
  "numberLiteral t = (let s = (case t of c # r \<Rightarrow> if c = CHR ''-'' then r else t | [] \<Rightarrow> []) in
     takeWhile digit s \<noteq> [] \<and>
     (case dropWhile digit s of
        [] \<Rightarrow> True
      | c # r \<Rightarrow> c = CHR ''.'' \<and> all_digits r))"

definition isQuoted :: "string \<Rightarrow> bool" where
  "isQuoted s \<longleftrightarrow> length s \<ge> 2 \<and>
     (hd s = CHR 0x22 \<and> last s = CHR 0x22 \<or> hd s = CHR 0x27 \<and> last s = CHR 0x27)"

definition scalar_literal :: "string \<Rightarrow> json option" where
  "scalar_literal t =
     (if t = ''true'' then Some (JBool True)
      else if t = ''false'' then Some (JBool False)
      else if t = ''null'' then Some JNull else None)"

definition number_or_text :: "string \<Rightarrow> json option" where
  "number_or_text t =
     (if numberLiteral t then Some (JNum (jsNumber t))
      else if isQuoted t then Some (JStr (inner t)) else None)"

definition readPrimitiveArrayItem :: "string \<Rightarrow> expr_error + json" where
  "readPrimitiveArrayItem tok = (let t = strip tok in
     case scalar_literal t of
       Some v \<Rightarrow> Ok v
     | None \<Rightarrow> (case number_or_text t of Some v \<Rightarrow> Ok v | None \<Rightarrow> Err (UnsupportedToken t)))"

fun read_items :: "string list \<Rightarrow> expr_error + json list" where
  "read_items [] = Ok []"
| "read_items (x # xs) =
     bindE (readPrimitiveArrayItem x) (\<lambda>v. bindE (read_items xs) (\<lambda>vs. Ok (v # vs)))"

definition readValue :: "string \<Rightarrow> scope \<Rightarrow> expr_error + jsv" where
  "readValue tok sc = (let t = strip tok in
     if t = [] then Err EmptyValue
     else case scalar_literal t of
       Some v \<Rightarrow> Ok (Val v)
     | None \<Rightarrow>
         if hd t = CHR ''['' \<and> last t = CHR '']'' then
           (let body = TrimSpace (inner t) in
            if body = [] then Ok (Val (JArr []))
            else bindE (read_items (splitTopLevel body '','')) (\<lambda>vs. Ok (Val (JArr vs))))
         else case number_or_text t of
           Some v \<Rightarrow> Ok (Val v)
         | None \<Rightarrow> (case safePath t of
               Some p \<Rightarrow> Ok (getBySafePath sc p)
             | None \<Rightarrow> Err (UnsupportedToken t)))"

section \<open>Comparison operators\<close>

text \<open>The operand that is known while the other one is an unresolved path.\<close>

definition known_side :: "jsv \<Rightarrow> jsv \<Rightarrow> jsv" where
  "known_side l r = (if isUndefined l then r else l)"

fun coerceOrderedNumber :: "jsv \<Rightarrow> f64" where
  "coerceOrderedNumber (Val (JNum x)) = x"
| "coerceOrderedNumber (Val (JStr s)) = jsNumber s"
| "coerceOrderedNumber _ = NaN"

fun is_str :: "jsv \<Rightarrow> bool" where
  "is_str (Val (JStr _)) = True" | "is_str _ = False"

fun is_num :: "jsv \<Rightarrow> bool" where
  "is_num (Val (JNum _)) = True" | "is_num _ = False"

text \<open>The difference of two finite floats has the sign of the exact difference.\<close>

definition order_result :: "string \<Rightarrow> rat \<Rightarrow> bool" where
  "order_result op d =
     (if op = ''>'' then d > 0 else if op = ''<'' then d < 0 else if op = ''>='' then d \<ge> 0 else d \<le> 0)"

fun f64_diff :: "f64 \<Rightarrow> f64 \<Rightarrow> rat" where
  "f64_diff (Fin a) (Fin b) = a - b" | "f64_diff _ _ = 0"

definition compareOrdered :: "jsv \<Rightarrow> jsv \<Rightarrow> string \<Rightarrow> bool \<Rightarrow> expr_error + bool" where
  "compareOrdered l r op vo =
     (if isUndefined l \<or> isUndefined r then
        (let known = known_side l r in
         if vo \<and> \<not> isUndefined known \<and> \<not> is_num known \<and> \<not> is_str known then Err (OrderedOperands op)
         else Ok False)
      else case (l, r) of
        (Val (JNum a), Val (JNum b)) \<Rightarrow>
          if \<not> f64_finite a \<or> \<not> f64_finite b then (if vo then Err (OrderedFinite op) else Ok False)
          else Ok (order_result op (f64_diff a b))
      | (Val (JStr a), Val (JStr b)) \<Rightarrow> Ok (order_result op (of_int (utf16Compare a b)))
      | _ \<Rightarrow>
          let a = coerceOrderedNumber l; b = coerceOrderedNumber r in
          if \<not> f64_finite a \<or> \<not> f64_finite b then (if vo then Err (OrderedOperands op) else Ok False)
          else Ok (order_result op (f64_diff a b)))"

definition containsValue :: "jsv \<Rightarrow> jsv \<Rightarrow> bool \<Rightarrow> expr_error + bool" where
  "containsValue l r vo =
     (if isUndefined l \<or> isUndefined r then Ok False
      else case (l, r) of
        (Val (JStr a), Val (JStr b)) \<Rightarrow> Ok (sublist b a)
      | (Val (JArr xs), _) \<Rightarrow> Ok (list_ex (\<lambda>x. strictEquals (Val x) r) xs)
      | _ \<Rightarrow> if vo then Err ContainsLeft else Ok False)"

definition startsWithValue :: "jsv \<Rightarrow> jsv \<Rightarrow> bool \<Rightarrow> expr_error + bool" where
  "startsWithValue l r vo =
     (if isUndefined l \<or> isUndefined r then
        (let known = known_side l r in
         if vo \<and> \<not> isUndefined known \<and> \<not> is_str known then Err StartsWithOperands else Ok False)
      else case (l, r) of
        (Val (JStr a), Val (JStr b)) \<Rightarrow> Ok (prefix b a)
      | _ \<Rightarrow> if vo then Err StartsWithOperands else Ok False)"

section \<open>Glob matching\<close>

text \<open>
  The loop of \<^verbatim>\<open>matchesGlob\<close>. The source keeps \<^verbatim>\<open>patternIndex\<close>, \<^verbatim>\<open>valueIndex\<close>, \<^verbatim>\<open>starIndex\<close> and
  \<^verbatim>\<open>starValueIndex\<close>; the pattern position never falls behind the last star and the value position
  never falls behind the value where that star began, and both advance together from there. Here
  \<open>base\<close> is \<^verbatim>\<open>starIndex + 1\<close> (zero before the first star), \<open>sv\<close> is \<^verbatim>\<open>starValueIndex\<close> and \<open>k\<close> is how far
  the two positions are past them: \<^verbatim>\<open>patternIndex = base + k\<close>, \<^verbatim>\<open>valueIndex = sv + k\<close>.
\<close>

function glob_loop :: "string \<Rightarrow> string \<Rightarrow> nat \<Rightarrow> nat \<Rightarrow> nat \<Rightarrow> bool \<Rightarrow> bool" where
  "glob_loop v p base sv k starred =
     (if sv + k \<ge> length v then list_all (\<lambda>c. c = CHR ''*'') (drop (base + k) p)
      else if base + k < length p \<and> (p ! (base + k) = CHR ''?'' \<or> p ! (base + k) = v ! (sv + k))
      then glob_loop v p base sv (k + 1) starred
      else if base + k < length p \<and> p ! (base + k) = CHR ''*''
      then glob_loop v p (base + k + 1) (sv + k) 0 True
      else if starred then glob_loop v p base (sv + 1) 0 starred
      else False)"
  by pat_completeness auto
termination
  by (relation "measures [\<lambda>(v, p, base, sv, k, starred). length p - base,
      \<lambda>(v, p, base, sv, k, starred). length v - sv, \<lambda>(v, p, base, sv, k, starred). length v - (sv + k)]")
    auto

declare glob_loop.simps [simp del]

definition matchesGlob :: "string \<Rightarrow> string \<Rightarrow> expr_error + bool" where
  "matchesGlob v p =
     (if length p > maxGlobPatternChars then Err GlobPatternTooLong
      else if length v > maxGlobValueChars then Err GlobValueTooLong
      else Ok (glob_loop v p 0 0 0 False))"

definition matchesValue :: "jsv \<Rightarrow> jsv \<Rightarrow> bool \<Rightarrow> expr_error + bool" where
  "matchesValue l r vo =
     (if vo \<and> (case l of Val (JStr a) \<Rightarrow> length a > maxGlobValueChars | _ \<Rightarrow> False) then Err GlobValueTooLong
      else if vo \<and> (case r of Val (JStr b) \<Rightarrow> length b > maxGlobPatternChars | _ \<Rightarrow> False) then Err GlobPatternTooLong
      else if isUndefined l \<or> isUndefined r then
        (let known = known_side l r in
         if vo \<and> \<not> isUndefined known \<and> \<not> is_str known then Err MatchesOperands else Ok False)
      else case (l, r) of
        (Val (JStr a), Val (JStr b)) \<Rightarrow> matchesGlob a b
      | _ \<Rightarrow> if vo then Err MatchesOperands else Ok False)"

definition isValueIn :: "jsv \<Rightarrow> jsv \<Rightarrow> bool \<Rightarrow> expr_error + bool" where
  "isValueIn l r vo = (case r of
     Undef \<Rightarrow> Ok False
   | Val (JArr xs) \<Rightarrow> if isUndefined l then Ok False else Ok (list_ex (\<lambda>x. strictEquals (Val x) l) xs)
   | _ \<Rightarrow> if vo then Err InRight else Ok False)"

definition apply_operator :: "string \<Rightarrow> jsv \<Rightarrow> jsv \<Rightarrow> bool \<Rightarrow> expr_error + bool" where
  "apply_operator op l r vo =
     (if op = ''==='' then Ok (strictEquals l r)
      else if op = ''!=='' then Ok (\<not> strictEquals l r)
      else if op = ''=='' then Ok (looseEquals l r)
      else if op = ''!='' then Ok (\<not> looseEquals l r)
      else if op = ''>'' \<or> op = ''<'' \<or> op = ''>='' \<or> op = ''<='' then compareOrdered l r op vo
      else if op = ''contains'' then containsValue l r vo
      else if op = ''startsWith'' then startsWithValue l r vo
      else if op = ''matches'' then matchesValue l r vo
      else isValueIn l r vo)"

section \<open>Evaluation\<close>

text \<open>The first operator, in the order of \<^verbatim>\<open>comparisonOperators\<close>, that splits the text in two.\<close>

fun first_split :: "string list \<Rightarrow> string \<Rightarrow> (string \<times> string \<times> string) option" where
  "first_split [] s = None"
| "first_split (op # ops) s =
     (case splitComparison s op of Some (l, r) \<Rightarrow> Some (op, l, r) | None \<Rightarrow> first_split ops s)"

definition js_bool :: "bool \<Rightarrow> jsv" where
  "js_bool b = Val (JBool b)"

lemma jsTruthy_js_bool [simp]: "jsTruthy (js_bool b) = b"
  by (simp add: js_bool_def)

lemma split_loop_bounds:
  assumes "split_loop hit n s i start pd bd q parts = (parts', start')"
    and "\<forall>p\<in>set parts. length p < length s" and "parts \<noteq> [] \<longrightarrow> 0 < start" and "0 < n"
  shows "(\<forall>p\<in>set parts'. length p < length s) \<and> (parts' \<noteq> [] \<longrightarrow> 0 < start')"
  using assms
proof (induction hit n s i start pd bd q parts rule: split_loop.induct)
  case (1 hit n s i start pd bd q parts)
  let ?part = "TrimSpace (take (i - start) (drop start s))"
  have part: "length ?part < length s" if "i < length s"
    using that length_TrimSpace [of "take (i - start) (drop start s)"] by simp
  show ?case
  proof (cases "i < length s \<and> \<not> opens_quote s i \<and> q = None \<and> paren_step (s ! i) pd = 0 \<and>
      bracket_step (s ! i) bd = 0 \<and> hit i")
    case True
    then have run: "split_loop hit n s (i + (n - 1) + 1) (i + n) 0 0 q (parts @ [?part]) = (parts', start')"
      using "1.prems"(1) by (subst (asm) split_loop.simps) simp
    from True have "\<not> length s \<le> i" "\<not> opens_quote s i" "\<not> q \<noteq> None" by auto
    from "1.IH"(3) [OF this refl refl] True run part "1.prems" show ?thesis by auto
  next
    case False
    with "1.prems" "1.IH"(1,2,4) show ?thesis
      by (subst (asm) split_loop.simps) (auto simp: Let_def split: if_splits)
  qed
qed

lemma split_with_shorter:
  assumes "0 < n" and "length (split_with hit n s) > 1" and "p \<in> set (split_with hit n s)"
  shows "length p < length s"
proof -
  obtain parts start where run: "split_loop hit n s 0 0 0 0 None [] = (parts, start)" by fastforce
  from split_loop_bounds [OF run] assms(1)
  have b: "\<forall>p\<in>set parts. length p < length s" "parts \<noteq> [] \<longrightarrow> 0 < start" by auto
  have ne: "parts \<noteq> []" using assms(2) run by (auto simp: split_with_def)
  then obtain q where "q \<in> set parts" by (cases parts) auto
  with b(1) have "s \<noteq> []" by auto
  with ne b(2) have "length s - start < length s" by simp
  with length_TrimSpace [of "drop start s"] have "length (TrimSpace (drop start s)) < length s" by simp
  with assms(3) run ne b(1) show ?thesis by (auto simp: split_with_def)
qed

lemma splitTopLevel_shorter:
  "op \<noteq> [] \<Longrightarrow> length (splitTopLevel s op) > 1 \<Longrightarrow> p \<in> set (splitTopLevel s op) \<Longrightarrow> length p < length s"
  unfolding splitTopLevel_def by (rule split_with_shorter) auto

definition widest :: "string list \<Rightarrow> nat" where
  "widest ps = foldr (\<lambda>p. max (length p)) ps 0"

lemma widest_simps [simp]: "widest [] = 0" "widest (p # ps) = max (length p) (widest ps)"
  by (simp_all add: widest_def)

lemma widest_less: "0 < n \<Longrightarrow> (\<forall>p\<in>set ps. length p < n) \<Longrightarrow> widest ps < n"
  by (induction ps) auto

lemma widest_splitTopLevel:
  "op \<noteq> [] \<Longrightarrow> length (splitTopLevel s op) > 1 \<Longrightarrow> widest (splitTopLevel s op) < length s"
proof (rule widest_less)
  assume a: "op \<noteq> []" "length (splitTopLevel s op) > 1"
  show "\<forall>p\<in>set (splitTopLevel s op). length p < length s" using splitTopLevel_shorter [OF a] by blast
  obtain p where "p \<in> set (splitTopLevel s op)" using a(2) by (cases "splitTopLevel s op") auto
  then have "length p < length s" by (rule splitTopLevel_shorter [OF a])
  then show "0 < length s" by (rule le_less_trans [OF le0])
qed

function (sequential) evaluateBoolean :: "string \<Rightarrow> scope \<Rightarrow> bool \<Rightarrow> expr_error + jsv"
  and any_part :: "string list \<Rightarrow> scope \<Rightarrow> bool \<Rightarrow> bool \<Rightarrow> expr_error + jsv"
  and all_parts :: "string list \<Rightarrow> scope \<Rightarrow> bool \<Rightarrow> bool \<Rightarrow> expr_error + jsv"
where
  "evaluateBoolean e sc vo =
     (if length (splitTopLevel e ''||'') > 1 then any_part (splitTopLevel e ''||'') sc vo False
      else if length (splitTopLevel e ''&&'') > 1 then all_parts (splitTopLevel e ''&&'') sc vo True
      else let t = strip e in
        if t \<noteq> [] \<and> hd t = CHR ''!'' then
          bindE (evaluateBoolean (tl t) sc vo) (\<lambda>v. Ok (js_bool (\<not> jsTruthy v)))
        else if t = ''true'' then Ok (js_bool True)
        else if t = ''false'' then Ok (js_bool False)
        else case first_split comparisonOperators t of
          Some (op, l, r) \<Rightarrow>
            bindE (readValue l sc) (\<lambda>lv. bindE (readValue r sc) (\<lambda>rv.
              bindE (apply_operator op lv rv vo) (\<lambda>b. Ok (js_bool b))))
        | None \<Rightarrow> readValue t sc)"
| "any_part [] sc vo result = Ok (js_bool result)"
| "any_part (p # ps) sc vo result =
     bindE (evaluateBoolean p sc vo) (\<lambda>v.
       if jsTruthy v then (if \<not> vo then Ok (js_bool True) else any_part ps sc vo True)
       else any_part ps sc vo result)"
| "all_parts [] sc vo result = Ok (js_bool result)"
| "all_parts (p # ps) sc vo result =
     bindE (evaluateBoolean p sc vo) (\<lambda>v.
       if \<not> jsTruthy v then (if \<not> vo then Ok (js_bool False) else all_parts ps sc vo False)
       else all_parts ps sc vo result)"
  by pat_completeness auto
termination
proof (relation "measures
    [\<lambda>x. case x of Inl (e, _) \<Rightarrow> length e | Inr (Inl (ps, _)) \<Rightarrow> widest ps | Inr (Inr (ps, _)) \<Rightarrow> widest ps,
     \<lambda>x. case x of Inl _ \<Rightarrow> 0 | Inr (Inl (ps, _)) \<Rightarrow> Suc (length ps) | Inr (Inr (ps, _)) \<Rightarrow> Suc (length ps)]",
    goal_cases)
  case (4 e sc vo t)
  then have "length (tl t) < length t" "length t \<le> length e" by (auto simp: length_strip)
  then show ?case by simp
qed (auto simp: widest_splitTopLevel)

declare evaluateBoolean.simps [simp del]

definition evaluateInternal :: "string \<Rightarrow> scope \<Rightarrow> bool \<Rightarrow> expr_error + bool" where
  "evaluateInternal e sc vo = (let t = strip e in
     if t = [] then Err EmptyExpression
     else bindE (evaluateBoolean t sc vo) (\<lambda>v. Ok (jsTruthy v)))"

definition EvaluateExpression :: "string \<Rightarrow> scope \<Rightarrow> expr_error + bool" where
  "EvaluateExpression e sc = evaluateInternal e sc False"

record validation_result =
  vr_Valid :: bool
  vr_Message :: "expr_error option"
  vr_Code :: string
  vr_Token :: string

definition empty_scope :: scope where
  "empty_scope = \<lparr>sc_Context = Val (JObj []), sc_Inputs = Val (JObj [])\<rparr>"

definition ValidateExpression :: "string \<Rightarrow> validation_result" where
  "ValidateExpression e = (case evaluateInternal e empty_scope True of
     Ok _ \<Rightarrow> \<lparr>vr_Valid = True, vr_Message = None, vr_Code = [], vr_Token = []\<rparr>
   | Err m \<Rightarrow> (case m of
       EmptyExpression \<Rightarrow> \<lparr>vr_Valid = False, vr_Message = Some m, vr_Code = ''empty_expression'', vr_Token = []\<rparr>
     | EmptyValue \<Rightarrow> \<lparr>vr_Valid = False, vr_Message = Some m, vr_Code = ''empty_value'', vr_Token = []\<rparr>
     | UnsupportedToken t \<Rightarrow> \<lparr>vr_Valid = False, vr_Message = Some m, vr_Code = ''unsupported_token'', vr_Token = t\<rparr>
     | _ \<Rightarrow> \<lparr>vr_Valid = False, vr_Message = Some m, vr_Code = ''invalid_expression'', vr_Token = []\<rparr>))"

definition DomainValidator :: "string \<Rightarrow> bool \<times> expr_error option" where
  "DomainValidator e = (let r = ValidateExpression e in (vr_Valid r, vr_Message r))"

section \<open>The glob matcher is exact\<close>

text \<open>The meaning of a pattern: a star matches any run of bytes, a question mark any one byte.\<close>

fun glob :: "string \<Rightarrow> string \<Rightarrow> bool" where
  "glob [] v \<longleftrightarrow> v = []"
| "glob (c # p) [] \<longleftrightarrow> c = CHR ''*'' \<and> glob p []"
| "glob (c # p) (d # v) \<longleftrightarrow>
     (if c = CHR ''*'' then glob p (d # v) \<or> glob (c # p) v
      else (c = CHR ''?'' \<or> c = d) \<and> glob p v)"

definition fits :: "string \<Rightarrow> string \<Rightarrow> bool" where
  "fits a w \<longleftrightarrow> list_all2 (\<lambda>c d. c \<noteq> CHR ''*'' \<and> (c = CHR ''?'' \<or> c = d)) a w"

lemma ex_le_Suc: "(\<exists>n\<le>Suc m. Q n) \<longleftrightarrow> Q 0 \<or> (\<exists>n\<le>m. Q (Suc n))"
  by (metis Suc_le_mono le0 not0_implies_Suc)

lemma glob_star: "glob (CHR ''*'' # p) v \<longleftrightarrow> (\<exists>n\<le>length v. glob p (drop n v))"
proof (induction v)
  case (Cons d v)
  then show ?case by (simp add: ex_le_Suc del: drop_eq_Nil)
qed simp

lemma glob_stars: "glob p [] \<longleftrightarrow> list_all (\<lambda>c. c = CHR ''*'') p"
  by (induction p) auto

lemma glob_append:
  assumes "\<And>c. c \<in> set a \<Longrightarrow> c \<noteq> CHR ''*''"
  shows "glob (a @ p) v \<longleftrightarrow> length a \<le> length v \<and> fits a (take (length a) v) \<and> glob p (drop (length a) v)"
  using assms
proof (induction a arbitrary: v)
  case (Cons c a)
  then show ?case by (cases v) (auto simp: fits_def)
qed (simp add: fits_def)

lemma fits_no_star: "fits a w \<Longrightarrow> c \<in> set a \<Longrightarrow> c \<noteq> CHR ''*''"
  by (auto simp: fits_def list_all2_conv_all_nth in_set_conv_nth)

lemma fits_length: "fits a w \<Longrightarrow> length a = length w"
  by (auto simp: fits_def dest: list_all2_lengthD)

lemma fits_snoc:
  assumes "k < length P" "k < length V" "fits (take k P) (take k V)"
  shows "fits (take (Suc k) P) (take (Suc k) V) \<longleftrightarrow> P ! k \<noteq> CHR ''*'' \<and> (P ! k = CHR ''?'' \<or> P ! k = V ! k)"
  using assms by (auto simp: fits_def take_Suc_conv_app_nth list_all2_append)

lemma glob_after_prefix:
  assumes "fits (take k P) (take k V)" "k \<le> length P" "k \<le> length V"
  shows "glob P V \<longleftrightarrow> glob (drop k P) (drop k V)"
proof -
  have "glob (take k P @ drop k P) V \<longleftrightarrow> glob (drop k P) (drop k V)"
    using assms by (subst glob_append) (auto dest: fits_no_star)
  then show ?thesis by simp
qed

lemma glob_star_from_prefix:
  assumes "fits (take k P) (take k V)" "k \<le> length P" "k \<le> length V"
    and "glob (CHR ''*'' # P) V"
  shows "\<exists>n. k + n \<le> length V \<and> glob (drop k P) (drop (k + n) V)"
proof -
  from assms(4) obtain n where n: "n \<le> length V" "glob P (drop n V)" by (auto simp: glob_star)
  have "glob (take k P @ drop k P) (drop n V)" using n by simp
  then have "k \<le> length (drop n V)" "glob (drop k P) (drop k (drop n V))"
    using assms(1,2) by (subst (asm) glob_append; auto dest: fits_no_star)+
  then show ?thesis using n(1) by (intro exI [of _ n]) (auto simp: add.commute)
qed

definition glob_goal :: "string \<Rightarrow> string \<Rightarrow> nat \<Rightarrow> nat \<Rightarrow> bool \<Rightarrow> bool" where
  "glob_goal v p base sv starred =
     (if starred then glob (CHR ''*'' # drop base p) (drop sv v) else glob (drop base p) (drop sv v))"

lemma glob_goal_exhausted:
  assumes fit: "fits (take k (drop base p)) (take k (drop sv v))" and le: "base + k \<le> length p"
    and fin: "sv + k = length v"
  shows "glob_goal v p base sv starred \<longleftrightarrow> glob (drop (base + k) p) []"
proof -
  let ?P = "drop base p" and ?V = "drop sv v"
  have k: "k \<le> length ?P" "k = length ?V" using le fin by auto
  have plain: "glob ?P ?V \<longleftrightarrow> glob (drop k ?P) []" using glob_after_prefix [OF fit] k by simp
  have "glob (CHR ''*'' # ?P) ?V \<longrightarrow> glob (drop k ?P) []"
    using glob_star_from_prefix [OF fit] k by auto
  moreover have "glob ?P ?V \<longrightarrow> glob (CHR ''*'' # ?P) ?V" by (auto simp: glob_star intro: exI [of _ 0])
  ultimately show ?thesis using plain by (auto simp: glob_goal_def add.commute)
qed

lemma glob_goal_star:
  assumes fit: "fits (take k (drop base p)) (take k (drop sv v))" and le: "base + k < length p"
    and lv: "sv + k \<le> length v" and star: "p ! (base + k) = CHR ''*''"
  shows "glob_goal v p base sv starred \<longleftrightarrow> glob_goal v p (base + k + 1) (sv + k) True"
proof -
  let ?P = "drop base p" and ?V = "drop sv v"
  have k: "k \<le> length ?P" "k \<le> length ?V" using le lv by auto
  have dk: "drop k ?P = CHR ''*'' # drop (base + k + 1) p"
    using le star by (metis Cons_nth_drop_Suc Suc_eq_plus1 drop_drop add.commute)
  have plain: "glob ?P ?V \<longleftrightarrow> glob (CHR ''*'' # drop (base + k + 1) p) (drop (sv + k) v)"
    using glob_after_prefix [OF fit k] dk by (simp add: add.commute)
  have "glob (drop k ?P) (drop k ?V)" if "glob (CHR ''*'' # ?P) ?V"
  proof -
    from glob_star_from_prefix [OF fit k that] obtain n where n: "k + n \<le> length ?V"
      "glob (drop k ?P) (drop n (drop k ?V))" by (auto simp: ac_simps)
    from n(2) obtain m where m: "m \<le> length (drop n (drop k ?V))"
      "glob (drop (base + k + 1) p) (drop m (drop n (drop k ?V)))" unfolding dk glob_star by blast
    with n(1) show ?thesis unfolding dk glob_star
      by (intro exI [of _ "n + m"]) (auto simp: add.commute add.left_commute)
  qed
  moreover have "glob ?P ?V \<Longrightarrow> glob (CHR ''*'' # ?P) ?V" by (auto simp: glob_star intro: exI [of _ 0])
  ultimately show ?thesis using plain dk by (auto simp: glob_goal_def add.commute)
qed

lemma glob_mismatch:
  assumes fit: "fits (take k P) (take k V)" and "k < length V"
    and "\<not> (k < length P \<and> (P ! k = CHR ''?'' \<or> P ! k = V ! k))" "\<not> (k < length P \<and> P ! k = CHR ''*'')"
    and "k \<le> length P"
  shows "\<not> glob P V"
proof -
  have V: "drop k V = V ! k # drop (Suc k) V" using assms(2) by (simp add: Cons_nth_drop_Suc)
  have "\<not> glob (drop k P) (drop k V)"
  proof (cases "k < length P")
    case True
    then have "drop k P = P ! k # drop (Suc k) P" by (simp add: Cons_nth_drop_Suc)
    with True assms(3,4) V show ?thesis by auto
  qed (use V assms(5) in auto)
  then show ?thesis using glob_after_prefix [OF fit] assms(2,5) by simp
qed

lemma glob_goal_shift:
  assumes "sv < length v" "\<not> glob (drop base p) (drop sv v)"
  shows "glob_goal v p base sv True \<longleftrightarrow> glob_goal v p base (sv + 1) True"
proof -
  have "drop sv v = v ! sv # drop (Suc sv) v" using assms(1) by (simp add: Cons_nth_drop_Suc)
  with assms(2) show ?thesis by (simp add: glob_goal_def)
qed

lemma glob_loop_cases:
  "sv + k \<ge> length v \<Longrightarrow> glob_loop v p base sv k starred \<longleftrightarrow> list_all (\<lambda>c. c = CHR ''*'') (drop (base + k) p)"
  "sv + k < length v \<Longrightarrow> base + k < length p \<Longrightarrow> p ! (base + k) = CHR ''?'' \<or> p ! (base + k) = v ! (sv + k) \<Longrightarrow>
     glob_loop v p base sv k starred \<longleftrightarrow> glob_loop v p base sv (k + 1) starred"
  "sv + k < length v \<Longrightarrow> base + k < length p \<Longrightarrow> \<not> (p ! (base + k) = CHR ''?'' \<or> p ! (base + k) = v ! (sv + k)) \<Longrightarrow>
     p ! (base + k) = CHR ''*'' \<Longrightarrow>
     glob_loop v p base sv k starred \<longleftrightarrow> glob_loop v p (base + k + 1) (sv + k) 0 True"
  "sv + k < length v \<Longrightarrow> \<not> (base + k < length p \<and> (p ! (base + k) = CHR ''?'' \<or> p ! (base + k) = v ! (sv + k))) \<Longrightarrow>
     \<not> (base + k < length p \<and> p ! (base + k) = CHR ''*'') \<Longrightarrow>
     glob_loop v p base sv k starred \<longleftrightarrow> starred \<and> glob_loop v p base (sv + 1) 0 starred"
  by (subst glob_loop.simps; auto; fail)+

lemma glob_loop_correct:
  assumes "CHR ''*'' \<notin> set v"
    and "fits (take k (drop base p)) (take k (drop sv v))" and "base + k \<le> length p" and "sv + k \<le> length v"
  shows "glob_loop v p base sv k starred \<longleftrightarrow> glob_goal v p base sv starred"
  using assms
proof (induction v p base sv k starred rule: glob_loop.induct [case_names step])
  case (step v p base sv k starred)
  let ?c = "p ! (base + k)" and ?d = "v ! (sv + k)"
  note fit = step.prems(2) and bp = step.prems(3) and bv = step.prems(4)
  consider (stop) "sv + k \<ge> length v"
    | (eat) "sv + k < length v" "base + k < length p" "?c = CHR ''?'' \<or> ?c = ?d"
    | (star) "sv + k < length v" "base + k < length p" "\<not> (?c = CHR ''?'' \<or> ?c = ?d)" "?c = CHR ''*''"
    | (miss) "sv + k < length v" "\<not> (base + k < length p \<and> (?c = CHR ''?'' \<or> ?c = ?d))"
        "\<not> (base + k < length p \<and> ?c = CHR ''*'')"
    by force
  then show ?case
  proof cases
    case stop
    with bv have "sv + k = length v" by simp
    from glob_goal_exhausted [OF fit bp this] stop show ?thesis
      by (simp add: glob_loop_cases(1) glob_stars)
  next
    case eat
    have "?d \<noteq> CHR ''*''" using step.prems(1) eat(1) by (metis nth_mem)
    with eat have "?c \<noteq> CHR ''*''" by auto
    with eat have "fits (take (Suc k) (drop base p)) (take (Suc k) (drop sv v))"
      by (subst fits_snoc [OF _ _ fit]) auto
    with step.IH(1) eat step.prems(1) show ?thesis by (simp add: glob_loop_cases(2))
  next
    case star
    have "fits (take 0 (drop (base + k + 1) p)) (take 0 (drop (sv + k) v))" by (simp add: fits_def)
    with step.IH(2) star step.prems(1)
    have "glob_loop v p (base + k + 1) (sv + k) 0 True = glob_goal v p (base + k + 1) (sv + k) True" by auto
    with glob_goal_star [OF fit star(2) bv star(4)] star show ?thesis by (simp add: glob_loop_cases(3))
  next
    case miss
    have no: "\<not> glob (drop base p) (drop sv v)"
      by (rule glob_mismatch [OF fit]) (use miss bp in auto)
    have "fits (take 0 (drop base p)) (take 0 (drop (sv + 1) v))" by (simp add: fits_def)
    with step.IH(3) miss step.prems(1) bp
    have "starred \<Longrightarrow> glob_loop v p base (sv + 1) 0 True = glob_goal v p base (sv + 1) True" by auto
    moreover have "sv < length v" using miss(1) by simp
    ultimately show ?thesis using glob_goal_shift [OF _ no] no miss
      by (cases starred) (auto simp: glob_loop_cases(4) glob_goal_def)
  qed
qed

text \<open>
  The glob matcher is exact on values without a literal star. Within the length bounds
  \<^verbatim>\<open>matchesGlob\<close> decides whether the whole value matches the pattern, where a star stands for any run
  of bytes and a question mark for any one byte; past the bounds it reports which one was exceeded.
\<close>

theorem matchesGlob_exact:
  assumes "CHR ''*'' \<notin> set v"
  shows "matchesGlob v p =
    (if length p > 256 then Err GlobPatternTooLong
     else if length v > 16384 then Err GlobValueTooLong
     else Ok (glob p v))"
proof -
  have "glob_loop v p 0 0 0 False = glob p v"
    using glob_loop_correct [OF assms, of 0 0 p 0 False] by (simp add: fits_def glob_goal_def)
  then show ?thesis
    by (simp add: matchesGlob_def maxGlobPatternChars_def maxGlobValueChars_def)
qed

text \<open>
  On a value that contains a star the matcher is not exact. The test for a literal match comes
  before the test for a star in the pattern, so the star of the pattern is used up by the star of the
  value: the pattern that matches everything rejects the value \<open>*a\<close>.
\<close>

lemma matchesGlob_literal_star: "matchesGlob ''*a'' ''*'' = Ok False \<and> glob ''*'' ''*a''"
  by code_simp

section \<open>Validation covers evaluation\<close>

text \<open>The only errors an evaluation of a validated expression may still report.\<close>

definition size_errors_only :: "expr_error + 'a \<Rightarrow> bool" where
  "size_errors_only r \<longleftrightarrow> (\<forall>m. r = Err m \<longrightarrow> m = GlobPatternTooLong \<or> m = GlobValueTooLong)"

lemma size_errors_only_Ok [simp]: "size_errors_only (Inr a)"
  by (simp add: size_errors_only_def)

lemma size_errors_only_bindE:
  "size_errors_only r \<Longrightarrow> (\<And>a. r = Inr a \<Longrightarrow> size_errors_only (k a)) \<Longrightarrow> size_errors_only (bindE r k)"
  by (cases r) (auto simp: size_errors_only_def)

lemma is_ok_size_errors: "is_ok r \<Longrightarrow> size_errors_only r"
  by (cases r) auto

lemma readValue_scope: "is_ok (readValue t sc) \<longleftrightarrow> is_ok (readValue t sc')"
  by (auto simp: readValue_def Let_def bindE_def split: option.splits sum.splits)

lemma apply_operator_runtime: "size_errors_only (apply_operator op l r False)"
proof -
  have "size_errors_only (matchesValue l r False)"
    by (auto simp: matchesValue_def matchesGlob_def size_errors_only_def known_side_def
        split: jsv.splits json.splits if_splits)
  moreover have "is_ok (compareOrdered l r op False)" "is_ok (containsValue l r False)"
    "is_ok (startsWithValue l r False)" "is_ok (isValueIn l r False)"
    by (auto simp: compareOrdered_def containsValue_def startsWithValue_def isValueIn_def Let_def
        split: jsv.splits json.splits)
  ultimately show ?thesis unfolding apply_operator_def by (simp add: is_ok_size_errors)
qed

lemma readValue_validated: "is_ok (readValue t sc) \<Longrightarrow> size_errors_only (readValue t sc')"
  using readValue_scope [of t sc sc'] by (cases "readValue t sc'") auto

lemma is_ok_bindE: "is_ok (bindE r k) \<longleftrightarrow> (\<exists>a. r = Inr a \<and> is_ok (k a))"
  by (cases r) auto

text \<open>The four shapes of an expression: a disjunction, a conjunction, a negation or a leaf.\<close>

definition leaf_value :: "string \<Rightarrow> scope \<Rightarrow> bool \<Rightarrow> expr_error + jsv" where
  "leaf_value t sc vo =
     (if t = ''true'' then Ok (js_bool True)
      else if t = ''false'' then Ok (js_bool False)
      else case first_split comparisonOperators t of
        Some (op, l, r) \<Rightarrow>
          bindE (readValue l sc) (\<lambda>lv. bindE (readValue r sc) (\<lambda>rv.
            bindE (apply_operator op lv rv vo) (\<lambda>b. Ok (js_bool b))))
      | None \<Rightarrow> readValue t sc)"

lemma evaluateBoolean_shapes:
  "length (splitTopLevel e ''||'') > 1 \<Longrightarrow>
     evaluateBoolean e sc vo = any_part (splitTopLevel e ''||'') sc vo False"
  "\<not> length (splitTopLevel e ''||'') > 1 \<Longrightarrow> length (splitTopLevel e ''&&'') > 1 \<Longrightarrow>
     evaluateBoolean e sc vo = all_parts (splitTopLevel e ''&&'') sc vo True"
  "\<not> length (splitTopLevel e ''||'') > 1 \<Longrightarrow> \<not> length (splitTopLevel e ''&&'') > 1 \<Longrightarrow>
     strip e \<noteq> [] \<and> hd (strip e) = CHR ''!'' \<Longrightarrow>
     evaluateBoolean e sc vo = bindE (evaluateBoolean (tl (strip e)) sc vo) (\<lambda>v. Ok (js_bool (\<not> jsTruthy v)))"
  "\<not> length (splitTopLevel e ''||'') > 1 \<Longrightarrow> \<not> length (splitTopLevel e ''&&'') > 1 \<Longrightarrow>
     \<not> (strip e \<noteq> [] \<and> hd (strip e) = CHR ''!'') \<Longrightarrow> evaluateBoolean e sc vo = leaf_value (strip e) sc vo"
     apply (subst evaluateBoolean.simps, simp)
    apply (subst evaluateBoolean.simps, simp)
   apply (subst evaluateBoolean.simps, simp add: Let_def)
  apply (subst evaluateBoolean.simps)
  apply (simp only: Let_def if_False leaf_value_def)
  done

lemma leaf_validated:
  assumes "is_ok (leaf_value t sc True)" shows "size_errors_only (leaf_value t sc' False)"
proof (cases "first_split comparisonOperators t")
  case None
  with assms show ?thesis by (auto simp: leaf_value_def intro: readValue_validated)
next
  case (Some x)
  obtain op l r where x: "x = (op, l, r)" by (cases x)
  show ?thesis
  proof (cases "t = ''true'' \<or> t = ''false''")
    case False
    with assms Some x have "is_ok (readValue l sc)" "is_ok (readValue r sc)"
      by (auto simp: leaf_value_def is_ok_bindE)
    then have "size_errors_only (readValue l sc')" "size_errors_only (readValue r sc')"
      by (auto intro: readValue_validated)
    with False Some x show ?thesis
      by (auto simp: leaf_value_def intro!: size_errors_only_bindE apply_operator_runtime)
  qed (auto simp: leaf_value_def)
qed

lemma validated_runtime:
  "vo \<Longrightarrow> is_ok (evaluateBoolean e sc vo) \<Longrightarrow> size_errors_only (evaluateBoolean e sc' False)"
  "vo \<Longrightarrow> is_ok (any_part ps sc vo res) \<Longrightarrow> size_errors_only (any_part ps sc' False res')"
  "vo \<Longrightarrow> is_ok (all_parts ps sc vo res) \<Longrightarrow> size_errors_only (all_parts ps sc' False res')"
proof (induction e sc vo and ps sc vo res and ps sc vo res arbitrary: and res' and res'
    rule: evaluateBoolean_any_part_all_parts.induct)
  case (1 e sc vo)
  consider (disj) "length (splitTopLevel e ''||'') > 1"
    | (conj) "\<not> length (splitTopLevel e ''||'') > 1" "length (splitTopLevel e ''&&'') > 1"
    | (neg) "\<not> length (splitTopLevel e ''||'') > 1" "\<not> length (splitTopLevel e ''&&'') > 1"
        "strip e \<noteq> [] \<and> hd (strip e) = CHR ''!''"
    | (leaf) "\<not> length (splitTopLevel e ''||'') > 1" "\<not> length (splitTopLevel e ''&&'') > 1"
        "\<not> (strip e \<noteq> [] \<and> hd (strip e) = CHR ''!'')"
    by blast
  then show ?case
  proof cases
    case disj
    with 1(1) [OF disj 1(4)] 1(5) show ?thesis by (simp add: evaluateBoolean_shapes(1))
  next
    case conj
    with 1(2) [OF conj 1(4)] 1(5) show ?thesis by (simp add: evaluateBoolean_shapes(2))
  next
    case neg
    from 1(5) have "is_ok (evaluateBoolean (tl (strip e)) sc vo)"
      unfolding evaluateBoolean_shapes(3) [OF neg] is_ok_bindE by auto
    from 1(3) [OF neg(1,2) refl neg(3) 1(4) this] show ?thesis
      by (simp only: evaluateBoolean_shapes(3) [OF neg]) (rule size_errors_only_bindE, simp_all)
  next
    case leaf
    with 1(4,5) show ?thesis by (simp add: evaluateBoolean_shapes(4) leaf_validated)
  qed
next
  case (3 p ps sc vo res)
  then obtain v where v: "evaluateBoolean p sc vo = Inr v" by (auto simp: is_ok_bindE)
  have rest: "size_errors_only (any_part ps sc' False r)" for r
    using 3 v by (cases "jsTruthy v") auto
  have "size_errors_only (evaluateBoolean p sc' False)" using 3 v by simp
  then show ?case by (auto intro!: size_errors_only_bindE rest)
next
  case (5 p ps sc vo res)
  then obtain v where v: "evaluateBoolean p sc vo = Inr v" by (auto simp: is_ok_bindE)
  have rest: "size_errors_only (all_parts ps sc' False r)" for r
    using 5 v by (cases "jsTruthy v") auto
  have "size_errors_only (evaluateBoolean p sc' False)" using 5 v by simp
  then show ?case by (auto intro!: size_errors_only_bindE rest)
qed auto

lemma validated_runs:
  assumes "vr_Valid (ValidateExpression e)"
  shows "size_errors_only (EvaluateExpression e sc)"
proof -
  have "is_ok (evaluateInternal e empty_scope True)"
    using assms by (auto simp: ValidateExpression_def split: sum.splits expr_error.splits)
  then show ?thesis
    using validated_runtime(1) [of True "strip e" empty_scope sc]
    by (auto simp: evaluateInternal_def EvaluateExpression_def Let_def is_ok_bindE
        intro: size_errors_only_bindE split: if_splits)
qed

text \<open>
  C22: what the authoring validator accepts never fails on its grammar at run time. If an expression
  passes \<^verbatim>\<open>ValidateExpression\<close>, then in every scope \<^verbatim>\<open>EvaluateExpression\<close> returns a boolean or reports
  that a glob operand taken from the data exceeds its length bound; no unsupported token, empty value
  or operand error can appear, whichever branches short-circuiting visits.
\<close>

theorem validated_expression_runs:
  assumes "vr_Valid (ValidateExpression e)"
  shows "(\<exists>b. EvaluateExpression e sc = Ok b) \<or>
    EvaluateExpression e sc = Err GlobPatternTooLong \<or> EvaluateExpression e sc = Err GlobValueTooLong"
  using validated_runs [OF assms, of sc] by (cases "EvaluateExpression e sc") (auto simp: size_errors_only_def)

theorem validated_expression_runs_witness:
  "vr_Valid (ValidateExpression ''!inputs.ok'') \<and>
   ((\<exists>b. EvaluateExpression ''!inputs.ok'' empty_scope = Ok b) \<or>
    EvaluateExpression ''!inputs.ok'' empty_scope = Err GlobPatternTooLong \<or>
    EvaluateExpression ''!inputs.ok'' empty_scope = Err GlobValueTooLong)"
proof (rule conjI)
  show valid: "vr_Valid (ValidateExpression ''!inputs.ok'')" by code_simp
  show "(\<exists>b. EvaluateExpression ''!inputs.ok'' empty_scope = Ok b) \<or>
    EvaluateExpression ''!inputs.ok'' empty_scope = Err GlobPatternTooLong \<or>
    EvaluateExpression ''!inputs.ok'' empty_scope = Err GlobValueTooLong"
    by (rule validated_expression_runs [OF valid])
qed

text \<open>
  Parentheses do not group boolean operators below the top level. The outer parentheses of a part
  are stripped after the splits at \<open>||\<close> and \<open>&&\<close>, so a parenthesised disjunction inside a
  conjunction is read as one operand and rejected, although the same disjunction is accepted alone.
\<close>

lemma nested_boolean_rejected:
  "EvaluateExpression ''(true || false) && true'' empty_scope = Err (UnsupportedToken ''true || false'') \<and>
   EvaluateExpression ''(true || false)'' empty_scope = Ok True"
  by code_simp

end
