(* ===== verification/Schedule.thy ===== *)
theory Schedule
  imports RunState Graph Expression
begin

text \<open>
  The readiness scan and the settling of a run (\<^verbatim>\<open>internal/engine/readiness.go\<close>, \<^verbatim>\<open>downstream.go\<close>):
  which pending nodes may run, which are skipped, and when the run as a whole becomes terminal.
\<close>

section \<open>Readiness\<close>

definition openNodeStatuses :: "node_status set" where
  "openNodeStatuses = {NPending, NQueued, NRunning, NWaiting}"

definition depsSatisfied :: "workflow \<Rightarrow> string \<Rightarrow> statuses \<Rightarrow> bool" where
  "depsSatisfied w v st = list_all (\<lambda>e.
     e_To e \<noteq> v \<or>
     (if e_OnError e then st (e_From e) = Some NFailed
      else st (e_From e) = Some NSucceeded \<or> st (e_From e) = Some NSkipped)) (wf_Edges w)"

definition depsDoomed :: "workflow \<Rightarrow> string \<Rightarrow> statuses \<Rightarrow> bool" where
  "depsDoomed w v st = list_ex (\<lambda>e.
     e_To e = v \<and>
     (if e_OnError e then st (e_From e) = Some NSucceeded \<or> st (e_From e) = Some NSkipped
      else st (e_From e) = Some NFailed)) (wf_Edges w)"

definition nodeFailureHandled :: "workflow \<Rightarrow> string \<Rightarrow> bool" where
  "nodeFailureHandled w v = list_ex (\<lambda>e. e_OnError e \<and> e_From e = v) (wf_Edges w)"

section \<open>The context edge conditions read\<close>

fun status_text :: "node_status \<Rightarrow> string" where
  "status_text NPending = ''pending''"
| "status_text NQueued = ''queued''"
| "status_text NRunning = ''running''"
| "status_text NWaiting = ''waiting''"
| "status_text NSucceeded = ''succeeded''"
| "status_text NFailed = ''failed''"
| "status_text NSkipped = ''skipped''"
| "status_text NCancelled = ''cancelled''"

text \<open>
  A state that is not an object reads as the empty object, an absent or null output as the empty
  object.
\<close>

definition node_entry :: "run_node \<Rightarrow> json" where
  "node_entry r = (let state = (case rn_State r of JObj m \<Rightarrow> m | _ \<Rightarrow> []);
       output = (case map_of state ''output'' of None \<Rightarrow> JObj [] | Some JNull \<Rightarrow> JObj [] | Some v \<Rightarrow> v) in
     JObj [(''status'', JStr (status_text (rn_Status r))), (''attempts'', JNum (Fin (of_int (rn_Attempts r)))),
           (''state'', JObj state), (''output'', output), (''error'', rn_Error r)])"

definition runContextFromRows :: "run_node list \<Rightarrow> jmap" where
  "runContextFromRows rows = rev (map (\<lambda>r. (rn_NodeID r, node_entry r)) rows)"

definition condition_holds :: "jmap option \<Rightarrow> string \<Rightarrow> bool" where
  "condition_holds ctx c =
     (EvaluateExpression c \<lparr>sc_Context = Val (JObj (case ctx of Some m \<Rightarrow> m | None \<Rightarrow> [])), sc_Inputs = Val (JObj [])\<rparr>
      = Ok True)"

definition edgeAllowsRun :: "workflow \<Rightarrow> string \<Rightarrow> jmap option \<Rightarrow> bool" where
  "edgeAllowsRun w v ctx =
     (list_ex (\<lambda>e. e_To e = v \<and> (e_Condition e = [] \<or> condition_holds ctx (e_Condition e))) (wf_Edges w) \<or>
      \<not> list_ex (\<lambda>e. e_To e = v) (wf_Edges w))"

section \<open>The scan\<close>

record scan =
  sn_Status :: statuses
  sn_Ctx :: "jmap option"
  sn_Db :: run_db
  sn_Queued :: nat

definition skip_state :: "bool \<Rightarrow> json" where
  "skip_state doomed = JObj [(''skipped'', JObj [(''reason'',
     JStr (if doomed then ''Branch not taken'' else ''Condition not met''))])]"

definition skipped_entry :: "bool \<Rightarrow> json" where
  "skipped_entry doomed = JObj [(''status'', JStr ''skipped''), (''attempts'', JNum (Fin 0)),
     (''state'', skip_state doomed), (''output'', JObj []), (''error'', JNull)]"

definition skip_node :: "bool \<Rightarrow> string \<Rightarrow> scan \<Rightarrow> scan" where
  "skip_node doomed v s =
     (let (tm, db1) = eventNow (sn_Db s);
          (rows, db2) = SkipRunNode v (skip_state doomed) tm db1;
          db3 = (if rows > 0 then add_event v ''node.skipped'' tm db2 else db2) in
      s\<lparr>sn_Status := (sn_Status s)(v \<mapsto> NSkipped),
        sn_Ctx := map_option (\<lambda>m. (v, skipped_entry doomed) # m) (sn_Ctx s), sn_Db := db3\<rparr>)"

definition queue_node :: "string \<Rightarrow> scan \<Rightarrow> scan \<times> bool" where
  "queue_node v s =
     (let (tq, db0) = eventNow (sn_Db s);
          (rows, db1) = QueueRunNode v tq db0 in
      if rows = 0 then (s\<lparr>sn_Db := db1\<rparr>, False)
      else let (tm, db2) = eventNow db1 in
        (s\<lparr>sn_Status := (sn_Status s)(v \<mapsto> NQueued), sn_Db := add_event v ''node.queued'' tm db2,
           sn_Queued := sn_Queued s + 1\<rparr>, True))"

definition ready :: "workflow \<Rightarrow> string \<Rightarrow> statuses \<Rightarrow> bool" where
  "ready w v st \<longleftrightarrow> st v = Some NPending \<and> (depsDoomed w v st \<or> depsSatisfied w v st)"

text \<open>One iteration of the inner loop; the flag says that the node changed.\<close>

definition scan_node :: "workflow \<Rightarrow> string \<Rightarrow> scan \<Rightarrow> scan \<times> bool" where
  "scan_node w v s =
     (if sn_Status s v \<noteq> Some NPending then (s, False)
      else let doomed = depsDoomed w v (sn_Status s) in
        if \<not> doomed \<and> \<not> depsSatisfied w v (sn_Status s) then (s, False)
        else if doomed \<or> \<not> edgeAllowsRun w v (sn_Ctx s) then (skip_node doomed v s, True)
        else queue_node v s)"

fun scan_pass :: "workflow \<Rightarrow> string list \<Rightarrow> scan \<Rightarrow> scan \<times> bool" where
  "scan_pass w [] s = (s, False)"
| "scan_pass w (v # vs) s =
     (let (s1, c1) = scan_node w v s; (s2, c2) = scan_pass w vs s1 in (s2, c1 \<or> c2))"

definition pending_count :: "workflow \<Rightarrow> scan \<Rightarrow> nat" where
  "pending_count w s = length (filter (\<lambda>v. sn_Status s v = Some NPending) (node_ids (wf_Nodes w)))"

text \<open>A step touches no other node, and a step that changes something settles its node.\<close>

lemma skip_node_status [simp]: "sn_Status (skip_node d v s) = (sn_Status s)(v \<mapsto> NSkipped)"
  by (simp add: skip_node_def split: prod.split)

lemma queue_node_status:
  "sn_Status (fst (queue_node v s)) = (if snd (queue_node v s) then (sn_Status s)(v \<mapsto> NQueued) else sn_Status s)"
  by (simp add: queue_node_def split: prod.split)

definition advances :: "statuses \<Rightarrow> statuses \<Rightarrow> bool" where
  "advances st st' \<longleftrightarrow>
     (\<forall>u. st' u = st u \<or> st u = Some NPending \<and> (st' u = Some NSkipped \<or> st' u = Some NQueued))"

lemma advances_refl [simp]: "advances st st"
  by (simp add: advances_def)

lemma advances_trans: "advances a b \<Longrightarrow> advances b c \<Longrightarrow> advances a c"
  unfolding advances_def by (metis node_status.distinct(1,11) option.inject)

lemma advances_settled: "advances st st' \<Longrightarrow> st u \<noteq> Some NPending \<Longrightarrow> st' u = st u"
  by (auto simp: advances_def)

lemma advances_leaves: "advances a b \<Longrightarrow> a u \<noteq> Some NPending \<Longrightarrow> b u \<noteq> Some NPending"
  by (metis advances_settled)

lemma scan_node_status:
  assumes "scan_node w v s = (s', c)"
  shows "advances (sn_Status s) (sn_Status s')" "\<not> c \<Longrightarrow> sn_Status s' = sn_Status s"
    "c \<Longrightarrow> sn_Status s v = Some NPending \<and> sn_Status s' v \<noteq> Some NPending"
  using assms queue_node_status [of v s]
  by (auto simp: scan_node_def advances_def Let_def split: if_splits)

lemma scan_pass_status:
  assumes "scan_pass w vs s = (s', c)"
  shows "advances (sn_Status s) (sn_Status s') \<and> (\<not> c \<longrightarrow> sn_Status s' = sn_Status s) \<and>
    (c \<longrightarrow> (\<exists>v\<in>set vs. sn_Status s v = Some NPending \<and> sn_Status s' v \<noteq> Some NPending))"
  using assms
proof (induction vs arbitrary: s s' c)
  case (Cons v vs)
  obtain s1 c1 where one: "scan_node w v s = (s1, c1)" by fastforce
  obtain s2 c2 where rest: "scan_pass w vs s1 = (s2, c2)" by fastforce
  from Cons.prems one rest have res: "s' = s2" "c = (c1 \<or> c2)" by auto
  note a = scan_node_status [OF one] and b = Cons.IH [OF rest]
  have "\<exists>v\<in>set (v # vs). sn_Status s v = Some NPending \<and> sn_Status s2 v \<noteq> Some NPending" if "c1 \<or> c2"
    using that a b by (cases c1) (auto dest: advances_leaves)
  with a b show ?case unfolding res by (auto intro: advances_trans)
qed auto

lemma scan_pass_decreases:
  assumes "scan_pass w (node_ids (wf_Nodes w)) s = (s', True)"
  shows "pending_count w s' < pending_count w s"
proof -
  from scan_pass_status [OF assms] obtain v where v: "v \<in> set (node_ids (wf_Nodes w))"
    "sn_Status s v = Some NPending" "sn_Status s' v \<noteq> Some NPending"
    and adv: "advances (sn_Status s) (sn_Status s')" by auto
  show ?thesis unfolding pending_count_def
    by (rule count_pending_decreases [of v]) (use v advances_leaves [OF adv] in auto)
qed

text \<open>The outer loop: passes until one changes nothing. It ends because a pass that changes something settles a pending node.\<close>

function scan_loop :: "workflow \<Rightarrow> scan \<Rightarrow> scan" where
  "scan_loop w s = (case scan_pass w (node_ids (wf_Nodes w)) s of
     (s', changed) \<Rightarrow> if changed then scan_loop w s' else s')"
  by pat_completeness auto
termination
  by (relation "measure (\<lambda>(w, s). pending_count w s)") (auto dest!: scan_pass_decreases [OF sym] )

declare scan_loop.simps [simp del]

section \<open>Settling the run\<close>

definition flipRunTerminal :: "run_status \<Rightarrow> int \<Rightarrow> run_db \<Rightarrow> run_db" where
  "flipRunTerminal st causeAt db = (let (flipped, db1) = MarkRunTerminalFromRunning st db in
     if flipped = 0 then db1
     else let db2 = (if st = RFailed then snd (DemoteQueuedRunNodes db1) else db1);
              db3 = log_call (RecordPlaybookValidationOutcome st) db2;
              tm = causeAt + 1;
              db4 = add_event [] (if st = RFailed then ''run.failed'' else ''run.succeeded'') tm db3 in
       log_call (FinalizeSemanticMonitoring st tm) db4)"

definition appendStatusChecked :: "int \<Rightarrow> run_db \<Rightarrow> run_db" where
  "appendStatusChecked causeAt db = add_event [] ''run.status_checked'' (causeAt + 2) db"

text \<open>The node ids a status map is known for, in row order.\<close>

definition status_keys :: "run_db \<Rightarrow> string list" where
  "status_keys db = remdups (map rn_NodeID (r_Nodes db))"

definition anyUnhandledFailed :: "workflow \<Rightarrow> string list \<Rightarrow> statuses \<Rightarrow> bool" where
  "anyUnhandledFailed w ks st = list_ex (\<lambda>v. st v = Some NFailed \<and> \<not> nodeFailureHandled w v) ks"

definition anyOpen :: "string list \<Rightarrow> statuses \<Rightarrow> bool" where
  "anyOpen ks st = list_ex (\<lambda>v. \<exists>s\<in>openNodeStatuses. st v = Some s) ks"

definition needFull :: "workflow \<Rightarrow> bool" where
  "needFull w \<longleftrightarrow> wf_Outputs w \<noteq> [] \<or> list_ex (\<lambda>e. e_Condition e \<noteq> []) (wf_Edges w)"

definition start_scan :: "run_db \<Rightarrow> scan" where
  "start_scan db = \<lparr>sn_Status = nodeStatuses db,
     sn_Ctx = (if needFull (r_Workflow db) then Some (runContextFromRows (r_Nodes db)) else None),
     sn_Db = db, sn_Queued = 0\<rparr>"

definition rollup :: "scan \<Rightarrow> int \<Rightarrow> bool \<times> run_db" where
  "rollup s completedAt =
     (let db = sn_Db s; w = r_Workflow db; ks = status_keys db; st = sn_Status s in
      if anyUnhandledFailed w ks st
      then (True, appendStatusChecked completedAt (flipRunTerminal RFailed completedAt db))
      else if ks \<noteq> [] \<and> \<not> anyOpen ks st
      then (True, appendStatusChecked completedAt (flipRunTerminal RSucceeded completedAt
             (if wf_Outputs w \<noteq> [] then log_call ProjectOutputs db else db)))
      else (False, appendStatusChecked completedAt db))"

definition scheduleDownstream :: "int \<Rightarrow> run_db \<Rightarrow> bool \<times> run_db" where
  "scheduleDownstream completedAt db =
     (if r_Status db \<noteq> RRunning then (False, db)
      else let s = scan_loop (r_Workflow db) (start_scan db) in
        if sn_Queued s > 0 then (False, log_call (NotifyWake (sn_Queued s)) (sn_Db s))
        else rollup s completedAt)"

section \<open>The scan keeps its local statuses in step with the rows\<close>

named_theorems db_simps \<open>fields an operation leaves alone\<close>

lemma db_fields [simp, db_simps]:
  "r_Nodes (add_event v ty tm db) = r_Nodes db" "r_Status (add_event v ty tm db) = r_Status db"
  "r_Workflow (add_event v ty tm db) = r_Workflow db" "r_DeadLetters (add_event v ty tm db) = r_DeadLetters db"
  "r_Nodes (log_call c db) = r_Nodes db" "r_Status (log_call c db) = r_Status db"
  "r_Workflow (log_call c db) = r_Workflow db" "r_DeadLetters (log_call c db) = r_DeadLetters db"
  "r_Nodes (snd (eventNow db)) = r_Nodes db" "r_Status (snd (eventNow db)) = r_Status db"
  "r_Workflow (snd (eventNow db)) = r_Workflow db" "r_DeadLetters (snd (eventNow db)) = r_DeadLetters db"
  "r_Status (snd (cas P f db)) = r_Status db" "r_Workflow (snd (cas P f db)) = r_Workflow db"
  "r_DeadLetters (snd (cas P f db)) = r_DeadLetters db"
  by (simp_all add: add_event_def log_call_def eventNow_def cas_def)

lemma nodeStatuses_cong: "r_Nodes a = r_Nodes b \<Longrightarrow> nodeStatuses a = nodeStatuses b"
  by (simp add: nodeStatuses_def)

lemma one_row_each_cong: "r_Nodes a = r_Nodes b \<Longrightarrow> one_row_each a = one_row_each b"
  by (simp add: one_row_each_def)

definition same_run :: "run_db \<Rightarrow> run_db \<Rightarrow> bool" where
  "same_run a b \<longleftrightarrow> r_Status b = r_Status a \<and> r_Workflow b = r_Workflow a \<and> r_DeadLetters b = r_DeadLetters a \<and>
     map rn_NodeID (r_Nodes b) = map rn_NodeID (r_Nodes a)"

lemma same_run_refl [simp]: "same_run a a"
  by (simp add: same_run_def)

lemma same_run_trans: "same_run a b \<Longrightarrow> same_run b c \<Longrightarrow> same_run a c"
  by (simp add: same_run_def)

definition agree :: "scan \<Rightarrow> bool" where
  "agree s \<longleftrightarrow> one_row_each (sn_Db s) \<and> nodeStatuses (sn_Db s) = sn_Status s"

lemma skip_node_db:
  "sn_Db (skip_node d v s) = (let (tm, db1) = eventNow (sn_Db s); (rows, db2) = SkipRunNode v (skip_state d) tm db1 in
     if rows > 0 then add_event v ''node.skipped'' tm db2 else db2)"
  by (simp add: skip_node_def Let_def split: prod.split)

lemma skip_node_agree:
  assumes "agree s" "sn_Status s v = Some NPending"
  shows "agree (skip_node d v s)" "same_run (sn_Db s) (sn_Db (skip_node d v s))"
proof -
  let ?db1 = "snd (eventNow (sn_Db s))"
  let ?db2 = "snd (SkipRunNode v (skip_state d) (fst (eventNow (sn_Db s))) ?db1)"
  have nodes: "r_Nodes (sn_Db (skip_node d v s)) = r_Nodes ?db2"
    by (simp add: skip_node_db Let_def split: prod.split)
  have one: "one_row_each ?db1" using assms(1) by (simp add: agree_def one_row_each_def)
  have st1: "nodeStatuses ?db1 = sn_Status s" using assms(1) by (simp add: agree_def nodeStatuses_def)
  have "nodeStatuses ?db2 = (sn_Status s)(v \<mapsto> NSkipped)" "one_row_each ?db2"
    using one st1 assms(2) by (simp_all add: SkipRunNode_def nodeStatuses_cas one_row_each_cas)
  with nodes show "agree (skip_node d v s)"
    by (simp add: agree_def nodeStatuses_cong [OF nodes] one_row_each_cong [OF nodes])
  show "same_run (sn_Db s) (sn_Db (skip_node d v s))"
    by (auto simp: same_run_def skip_node_db SkipRunNode_def split: prod.split)
      (simp_all add: cas_def eventNow_def)
qed

lemma queue_node_agree:
  assumes "agree s" "sn_Status s v = Some NPending" and run: "queue_node v s = (s', c)"
  shows "c" "agree s'" "same_run (sn_Db s) (sn_Db s')" "sn_Status s' = (sn_Status s)(v \<mapsto> NQueued)"
    "sn_Queued s' = sn_Queued s + 1"
proof -
  let ?db1 = "snd (eventNow (sn_Db s))"
  let ?q = "QueueRunNode v (fst (eventNow (sn_Db s))) ?db1"
  have one: "one_row_each ?db1" using assms(1) by (simp add: agree_def one_row_each_def)
  have st1: "nodeStatuses ?db1 = sn_Status s" using assms(1) by (simp add: agree_def nodeStatuses_def)
  have hit: "fst ?q \<noteq> 0" using one st1 assms(2) by (simp add: QueueRunNode_def cas_hits_node)
  have db2: "nodeStatuses (snd ?q) = (sn_Status s)(v \<mapsto> NQueued)" "one_row_each (snd ?q)"
    using one st1 assms(2) by (simp_all add: QueueRunNode_def nodeStatuses_cas one_row_each_cas)
  have s': "s' = s\<lparr>sn_Status := (sn_Status s)(v \<mapsto> NQueued),
      sn_Db := add_event v ''node.queued'' (fst (eventNow (snd ?q))) (snd (eventNow (snd ?q))),
      sn_Queued := sn_Queued s + 1\<rparr>" and c: "c"
    using run hit by (simp_all add: queue_node_def Let_def split: prod.splits)
  have nodes: "r_Nodes (sn_Db s') = r_Nodes (snd ?q)" by (simp add: s')
  show "c" by (rule c)
  have st': "sn_Status s' = (sn_Status s)(v \<mapsto> NQueued)" by (simp add: s')
  show "agree s'" using db2 by (simp add: agree_def nodeStatuses_cong [OF nodes] one_row_each_cong [OF nodes] st')
  show "same_run (sn_Db s) (sn_Db s')" by (simp add: same_run_def s' QueueRunNode_def)
  show "sn_Status s' = (sn_Status s)(v \<mapsto> NQueued)" "sn_Queued s' = sn_Queued s + 1" by (simp_all add: s')
qed

text \<open>What a scan establishes, step by step; every clause is closed under composition.\<close>

definition scan_ok :: "workflow \<Rightarrow> scan \<Rightarrow> scan \<Rightarrow> bool" where
  "scan_ok w s s' \<longleftrightarrow> agree s' \<and> same_run (sn_Db s) (sn_Db s') \<and> advances (sn_Status s) (sn_Status s') \<and>
     (\<forall>v. sn_Status s v = Some NPending \<and> sn_Status s' v = Some NQueued \<longrightarrow>
        depsSatisfied w v (sn_Status s') \<and> \<not> depsDoomed w v (sn_Status s')) \<and>
     (sn_Queued s' = sn_Queued s \<longrightarrow> (\<forall>v. sn_Status s' v = Some NQueued \<longrightarrow> sn_Status s v = Some NQueued)) \<and>
     sn_Queued s \<le> sn_Queued s' \<and>
     (sn_Queued s < sn_Queued s' \<longrightarrow> (\<exists>v. sn_Status s v = Some NPending \<and> sn_Status s' v = Some NQueued))"

lemma depsSatisfied_mono: "advances st st' \<Longrightarrow> depsSatisfied w v st \<Longrightarrow> depsSatisfied w v st'"
  unfolding depsSatisfied_def list_all_iff
  by (metis advances_settled node_status.distinct(7,9,11) option.inject)

lemma satisfied_not_doomed: "depsSatisfied w v st \<Longrightarrow> \<not> depsDoomed w v st"
  by (fastforce simp: depsSatisfied_def depsDoomed_def list_all_iff list_ex_iff split: if_splits)

lemma scan_ok_refl: "agree s \<Longrightarrow> scan_ok w s s"
  by (auto simp: scan_ok_def)

lemma scan_ok_trans:
  assumes "scan_ok w a b" "scan_ok w b c"
  shows "scan_ok w a c"
proof -
  have adv: "advances (sn_Status a) (sn_Status b)" "advances (sn_Status b) (sn_Status c)"
    using assms by (auto simp: scan_ok_def)
  have "depsSatisfied w v (sn_Status c)" if "sn_Status a v = Some NPending" "sn_Status c v = Some NQueued" for v
    using assms that adv depsSatisfied_mono [OF adv(2)] unfolding scan_ok_def advances_def by metis
  moreover have "\<exists>v. sn_Status a v = Some NPending \<and> sn_Status c v = Some NQueued" if "sn_Queued a < sn_Queued c"
    using assms that adv unfolding scan_ok_def advances_def
    by (metis le_neq_implies_less node_status.distinct(1) option.inject order_antisym_conv)
  moreover have "\<forall>v. sn_Status c v = Some NQueued \<longrightarrow> sn_Status a v = Some NQueued" if "sn_Queued c = sn_Queued a"
    using assms that unfolding scan_ok_def by (metis order_antisym)
  ultimately show ?thesis
    using assms adv unfolding scan_ok_def
    by (auto intro: advances_trans same_run_trans dest: satisfied_not_doomed)
qed

lemma scan_node_ok:
  assumes "agree s" "scan_node w v s = (s', c)"
  shows "scan_ok w s s'" "\<not> c \<Longrightarrow> s' = s \<and> \<not> ready w v (sn_Status s)"
proof -
  consider (idle) "\<not> ready w v (sn_Status s)" "s' = s" "\<not> c"
    | (skip) d where "sn_Status s v = Some NPending" "s' = skip_node d v s" "c"
    | (queue) "sn_Status s v = Some NPending" "depsSatisfied w v (sn_Status s)" "queue_node v s = (s', c)"
    using assms(2) by (auto simp: scan_node_def ready_def Let_def split: if_splits)
  then have "scan_ok w s s' \<and> (\<not> c \<longrightarrow> s' = s \<and> \<not> ready w v (sn_Status s))"
  proof cases
    case idle
    then show ?thesis using scan_ok_refl [OF assms(1)] by simp
  next
    case skip
    note ag = skip_node_agree [OF assms(1) skip(1), of d]
    have "sn_Queued s' = sn_Queued s" using skip(2) by (simp add: skip_node_def Let_def split: prod.split)
    with skip ag show ?thesis by (auto simp: scan_ok_def advances_def)
  next
    case queue
    note ag = queue_node_agree [OF assms(1) queue(1) queue(3)]
    have adv: "advances (sn_Status s) (sn_Status s')" using ag(4) queue(1) by (auto simp: advances_def)
    have "depsSatisfied w v (sn_Status s')" by (rule depsSatisfied_mono [OF adv queue(2)])
    with ag adv queue(1) show ?thesis by (auto simp: scan_ok_def dest: satisfied_not_doomed split: if_splits)
  qed
  then show "scan_ok w s s'" "\<not> c \<Longrightarrow> s' = s \<and> \<not> ready w v (sn_Status s)" by auto
qed

lemma scan_pass_ok:
  assumes "agree s" "scan_pass w vs s = (s', c)"
  shows "scan_ok w s s' \<and> (\<not> c \<longrightarrow> s' = s \<and> (\<forall>v\<in>set vs. \<not> ready w v (sn_Status s)))"
  using assms
proof (induction vs arbitrary: s s' c)
  case (Cons v vs)
  obtain s1 c1 where one: "scan_node w v s = (s1, c1)" by fastforce
  obtain s2 c2 where rest: "scan_pass w vs s1 = (s2, c2)" by fastforce
  from Cons.prems one rest have res: "s' = s2" "c = (c1 \<or> c2)" by auto
  note a = scan_node_ok [OF Cons.prems(1) one]
  then have "agree s1" by (simp add: scan_ok_def)
  from Cons.IH [OF this rest] a show ?case unfolding res by (auto intro: scan_ok_trans)
qed (simp add: scan_ok_refl)

lemma scan_loop_ok:
  assumes "agree s"
  shows "scan_ok w s (scan_loop w s) \<and> (\<forall>v\<in>set (node_ids (wf_Nodes w)). \<not> ready w v (sn_Status (scan_loop w s)))"
  using assms
proof (induction w s rule: scan_loop.induct)
  case (1 w s)
  obtain s1 c1 where run: "scan_pass w (node_ids (wf_Nodes w)) s = (s1, c1)" by fastforce
  note a = scan_pass_ok [OF 1(2) run]
  show ?case
  proof (cases c1)
    case True
    from a have "agree s1" by (simp add: scan_ok_def)
    with 1(1) [OF run [symmetric] True] a True run show ?thesis
      by (subst (1 2) scan_loop.simps) (auto intro: scan_ok_trans)
  next
    case False
    with a run show ?thesis by (subst (1 2) scan_loop.simps) auto
  qed
qed

lemma agree_start: "one_row_each db \<Longrightarrow> agree (start_scan db)"
  by (simp add: agree_def start_scan_def)

section \<open>No run gets stuck\<close>

definition valid_graph :: "workflow \<Rightarrow> bool" where
  "valid_graph w \<longleftrightarrow> wf_Nodes w \<noteq> [] \<and> distinct (node_ids (wf_Nodes w)) \<and>
     \<not> hasCycle (wf_Nodes w) (wf_Edges w) \<and>
     (\<forall>e\<in>set (wf_Edges w). e_From e \<in> set (node_ids (wf_Nodes w)) \<and> e_To e \<in> set (node_ids (wf_Nodes w)))"

lemma blocked_predecessor:
  assumes "\<not> ready w v st" "st v = Some NPending"
  shows "\<exists>e\<in>set (wf_Edges w). e_To e = v \<and> st (e_From e) \<notin> Some ` {NSucceeded, NFailed, NSkipped}"
  using assms by (fastforce simp: ready_def depsSatisfied_def depsDoomed_def list_all_iff list_ex_iff split: if_splits)

text \<open>At a fixpoint of the scan, pending nodes need an active node somewhere above them.\<close>

lemma fixpoint_no_pending:
  assumes graph: "acyclic (edge_rel (wf_Nodes w) (wf_Edges w))"
    and ends: "\<forall>e\<in>set (wf_Edges w). e_From e \<in> set (node_ids (wf_Nodes w))"
    and stuck: "\<forall>v\<in>set (node_ids (wf_Nodes w)). \<not> ready w v st"
    and settled: "\<forall>v\<in>set (node_ids (wf_Nodes w)). st v \<in> Some ` {NPending, NSucceeded, NFailed, NSkipped}"
    and v: "v \<in> set (node_ids (wf_Nodes w))"
  shows "st v \<noteq> Some NPending"
proof -
  have "wf (edge_rel (wf_Nodes w) (wf_Edges w))" using graph by (simp add: finite_acyclic_wf)
  then show ?thesis using v
  proof (induction v rule: wf_induct_rule)
    case (less v)
    show ?case
    proof
      assume pend: "st v = Some NPending"
      with stuck less.prems obtain e where e: "e \<in> set (wf_Edges w)" "e_To e = v"
        "st (e_From e) \<notin> Some ` {NSucceeded, NFailed, NSkipped}" using blocked_predecessor by blast
      with ends have "(e_From e, v) \<in> edge_rel (wf_Nodes w) (wf_Edges w)" by (auto simp: edge_rel_def)
      with less.IH ends e have "st (e_From e) \<noteq> Some NPending" by blast
      with settled ends e show False by blast
    qed
  qed
qed

lemma rollup_settles:
  assumes "r_Status (sn_Db s) = RRunning" "status_keys (sn_Db s) \<noteq> []"
    and "\<not> anyOpen (status_keys (sn_Db s)) (sn_Status s)" "rollup s tm = (t, db')"
  shows "t \<and> r_Status db' = (if anyUnhandledFailed (r_Workflow (sn_Db s)) (status_keys (sn_Db s)) (sn_Status s)
     then RFailed else RSucceeded)"
  using assms
  by (auto simp: rollup_def Let_def flipRunTerminal_def appendStatusChecked_def MarkRunTerminalFromRunning_def
      DemoteQueuedRunNodes_def split: if_splits)

text \<open>A scan over an idle run that queues nothing settles every node.\<close>

lemma idle_statuses:
  assumes "one_row_each db" and "map rn_NodeID (r_Nodes db) = vs" and "\<forall>r\<in>set (r_Nodes db). rn_Status r \<in> S" and "v \<in> set vs"
  shows "nodeStatuses db v \<in> Some ` S"
proof -
  from assms(2,4) obtain r where "r \<in> set (r_Nodes db)" "rn_NodeID r = v" by (metis image_iff list.set_map)
  with assms(3) nodeStatuses_row [OF assms(1)] show ?thesis by auto
qed

lemma idle_scan_settles:
  assumes graph: "valid_graph w" and one: "one_row_each db"
    and rows: "map rn_NodeID (r_Nodes db) = node_ids (wf_Nodes w)"
    and idle: "\<forall>r\<in>set (r_Nodes db). rn_Status r \<in> {NPending, NSucceeded, NFailed, NSkipped}"
    and none: "sn_Queued (scan_loop w (start_scan db)) = 0" and v: "v \<in> set (node_ids (wf_Nodes w))"
  shows "sn_Status (scan_loop w (start_scan db)) v \<in> Some ` {NSucceeded, NFailed, NSkipped}"
proof -
  let ?s = "scan_loop w (start_scan db)"
  note ok = scan_loop_ok [OF agree_start [OF one], of w]
  have db: "sn_Status (start_scan db) = nodeStatuses db" "sn_Queued (start_scan db) = 0" by (simp_all add: start_scan_def)
  have adv: "advances (nodeStatuses db) (sn_Status ?s)" using ok by (simp add: scan_ok_def db)
  note init = idle_statuses [OF one rows idle]
  have unq: "sn_Status ?s u \<noteq> Some NQueued" if "u \<in> set (node_ids (wf_Nodes w))" for u
    using ok none init [OF that] by (auto simp: scan_ok_def db)
  have "sn_Status ?s u \<in> Some ` {NPending, NSucceeded, NFailed, NSkipped}" if "u \<in> set (node_ids (wf_Nodes w))" for u
    using adv init [OF that] unq [OF that] unfolding advances_def by (metis image_insert insertI1 insertI2)
  moreover from this have "sn_Status ?s v \<noteq> Some NPending"
    using fixpoint_no_pending [OF _ _ conjunct2 [OF ok] _ v] graph by (auto simp: valid_graph_def hasCycle_iff)
  ultimately show ?thesis using v by auto
qed

lemma schedule_settles:
  assumes running: "r_Status db = RRunning" and graph: "valid_graph (r_Workflow db)"
    and rows: "map rn_NodeID (r_Nodes db) = node_ids (wf_Nodes (r_Workflow db))"
    and idle: "\<forall>r\<in>set (r_Nodes db). rn_Status r \<in> {NPending, NSucceeded, NFailed, NSkipped}"
    and run: "scheduleDownstream tm db = (t, db')"
  shows "(\<exists>r\<in>set (r_Nodes db'). rn_Status r = NQueued) \<and> r_Status db' = RRunning \<or>
    t \<and> r_Status db' = (if \<exists>r\<in>set (r_Nodes db). rn_Status r = NFailed \<and> \<not> nodeFailureHandled (r_Workflow db) (rn_NodeID r)
      then RFailed else RSucceeded)"
proof -
  let ?w = "r_Workflow db" and ?s = "scan_loop (r_Workflow db) (start_scan db)"
  have one: "one_row_each db" using graph rows by (simp add: one_row_each_def valid_graph_def)
  note ok = scan_loop_ok [OF agree_start [OF one], of ?w]
  have db: "sn_Db (start_scan db) = db" "sn_Status (start_scan db) = nodeStatuses db" "sn_Queued (start_scan db) = 0"
    by (simp_all add: start_scan_def)
  have same: "same_run db (sn_Db ?s)" and ag: "agree ?s" and adv: "advances (nodeStatuses db) (sn_Status ?s)"
    using ok by (simp_all add: scan_ok_def db)
  show ?thesis
  proof (cases "sn_Queued ?s > 0")
    case True
    with ok obtain v where "sn_Status ?s v = Some NQueued" by (auto simp: scan_ok_def db)
    then have "nodeStatuses (sn_Db ?s) v = Some NQueued" using ag by (simp add: agree_def)
    then obtain r where "r \<in> set (r_Nodes (sn_Db ?s))" "rn_Status r = NQueued" using nodeStatuses_SomeD by blast
    with True run running same show ?thesis by (auto simp: scheduleDownstream_def Let_def same_run_def)
  next
    case False
    note fin = idle_scan_settles [OF graph one rows idle]
    have keys: "set (status_keys (sn_Db ?s)) = set (node_ids (wf_Nodes ?w))"
      using same rows by (simp add: status_keys_def same_run_def)
    have "\<not> anyOpen (status_keys (sn_Db ?s)) (sn_Status ?s)"
      using fin False by (fastforce simp: anyOpen_def list_ex_iff keys openNodeStatuses_def)
    moreover have "status_keys (sn_Db ?s) \<noteq> []" using keys graph by (auto simp: valid_graph_def node_ids_def)
    moreover have "rollup ?s tm = (t, db')" using run running False by (simp add: scheduleDownstream_def Let_def)
    moreover have "sn_Status ?s v = Some NFailed \<longleftrightarrow> nodeStatuses db v = Some NFailed" for v
      using adv [unfolded advances_def, rule_format, of v] by auto
    then have "anyUnhandledFailed ?w (status_keys (sn_Db ?s)) (sn_Status ?s) \<longleftrightarrow>
        (\<exists>r\<in>set (r_Nodes db). rn_Status r = NFailed \<and> \<not> nodeFailureHandled ?w (rn_NodeID r))"
      using rows by (auto simp: anyUnhandledFailed_def list_ex_iff keys nodeStatuses_iff [OF one] simp flip: rows)
    ultimately show ?thesis
      using rollup_settles [of ?s tm t db'] running same by (auto simp: same_run_def)
  qed
qed

end
