(* ===== verification/Inputs.thy ===== *)
theory Inputs
  imports Workflow
begin

text \<open>
  The declared-input schema subset (\<^verbatim>\<open>internal/domain/inputs.go\<close>) and the resolution of declared
  defaults (\<^verbatim>\<open>defaults.go\<close>). A message of the source is a constructor of \<open>input_error\<close> with the values
  it prints. A null child schema makes the source panic; the shape check rejects it, and the walk of
  the model reports it as \<open>NilSchema\<close>.
\<close>

section \<open>Children of a schema\<close>

definition properties :: "schema \<Rightarrow> (string \<times> schema option) list" where
  "properties s = AList.clearjunk (sc_Properties s)"

definition property :: "schema \<Rightarrow> string \<Rightarrow> schema option" where
  "property s k = (case map_of (sc_Properties s) k of Some (Some c) \<Rightarrow> Some c | _ \<Rightarrow> None)"

lemma size_schema_child: "(k, Some c) \<in> set (sc_Properties s) \<Longrightarrow> size c < size s"
proof (cases s)
  case (Schema ty d props req items en df)
  moreover have "(k, Some c) \<in> set props \<Longrightarrow> size c < Suc (size_list (size_prod (\<lambda>_. 0) (size_option size)) props)" for props
    by (induction props) auto
  ultimately show "(k, Some c) \<in> set (sc_Properties s) \<Longrightarrow> ?thesis" by fastforce
qed

lemma size_property [termination_simp]: "property s k = Some c \<Longrightarrow> size c < size s"
  by (auto simp: property_def split: option.splits dest!: map_of_SomeD intro: size_schema_child)

lemma size_properties [termination_simp]: "(k, Some c) \<in> set (properties s) \<Longrightarrow> size c < size s"
  using set_clearjunk_subset [of "sc_Properties s"] size_schema_child [of k c s]
  by (auto simp: properties_def)

lemma size_items [termination_simp]: "sc_Items s = Some c \<Longrightarrow> size c < size s"
  by (cases s) auto

section \<open>Shape\<close>

definition InputSchemaNodeMax :: nat where "InputSchemaNodeMax = 512"

text \<open>
  The pending list is a stack; the source appends the properties in map order, here in document
  order, which changes neither the verdict nor the count.
\<close>

function shape_loop :: "schema option list \<Rightarrow> nat \<Rightarrow> bool" where
  "shape_loop [] visited = True"
| "shape_loop (None # pending) visited = False"
| "shape_loop (Some s # pending) visited =
     (if visited + 1 > InputSchemaNodeMax then False
      else if sc_Type s \<in> {''string'', ''number'', ''boolean''} then shape_loop pending (visited + 1)
      else if sc_Type s = ''object'' then shape_loop (rev (map snd (properties s)) @ pending) (visited + 1)
      else if sc_Type s = ''array''
      then shape_loop ((case sc_Items s of None \<Rightarrow> [] | Some i \<Rightarrow> [Some i]) @ pending) (visited + 1)
      else False)"
  by pat_completeness auto
termination
  by (relation "measures [\<lambda>(pending, visited). InputSchemaNodeMax - visited,
      \<lambda>(pending, visited). length pending]") auto

definition validInputSchemaShape :: "schema option \<Rightarrow> bool" where
  "validInputSchemaShape s = shape_loop [s] 0"

text \<open>The specification: the schemas below a schema that the type of each level makes relevant.\<close>

function schema_nodes :: "schema option \<Rightarrow> schema option list" where
  "schema_nodes None = [None]"
| "schema_nodes (Some s) = Some s #
     (if sc_Type s = ''object'' then concat (map (\<lambda>c. schema_nodes c) (map snd (properties s)))
      else if sc_Type s = ''array'' then (case sc_Items s of None \<Rightarrow> [] | Some i \<Rightarrow> schema_nodes (Some i))
      else [])"
  by pat_completeness auto
termination
  by (relation "measure (case_option 0 (\<lambda>s. Suc (size s)))")
    (auto split: option.split dest: size_properties size_items)

definition known_type :: "schema option \<Rightarrow> bool" where
  "known_type s \<longleftrightarrow> (\<exists>c. s = Some c \<and> sc_Type c \<in> {''string'', ''number'', ''boolean'', ''object'', ''array''})"

definition all_nodes :: "schema option list \<Rightarrow> schema option list" where
  "all_nodes pending = concat (map schema_nodes pending)"

lemma all_nodes_simps [simp]:
  "all_nodes [] = []" "all_nodes (s # pending) = schema_nodes s @ all_nodes pending"
  "all_nodes (xs @ ys) = all_nodes xs @ all_nodes ys"
  by (simp_all add: all_nodes_def)

lemma all_nodes_rev:
  "length (all_nodes (rev xs)) = length (all_nodes xs)" "set (all_nodes (rev xs)) = set (all_nodes xs)"
  by (induction xs) auto

lemma schema_nodes_Some:
  "schema_nodes (Some s) = Some s #
     (if sc_Type s = ''object'' then all_nodes (map snd (properties s))
      else if sc_Type s = ''array'' then all_nodes (case sc_Items s of None \<Rightarrow> [] | Some i \<Rightarrow> [Some i])
      else [])"
  by (auto simp: all_nodes_def split: option.split)

declare schema_nodes.simps(2) [simp del]

lemma shape_loop_exact:
  "shape_loop pending visited \<longleftrightarrow>
     (pending \<noteq> [] \<longrightarrow> visited + length (all_nodes pending) \<le> InputSchemaNodeMax) \<and>
     (\<forall>s\<in>set (all_nodes pending). known_type s)"
proof (induction pending visited rule: shape_loop.induct)
  case (3 s pending visited)
  show ?case
  proof (cases "visited + 1 > InputSchemaNodeMax")
    case True
    then show ?thesis by (simp add: schema_nodes_Some)
  next
    case False
    note IH = 3 [OF False]
    consider (scalar) "sc_Type s \<in> {''string'', ''number'', ''boolean''}" | (object) "sc_Type s = ''object''"
      | (array) "sc_Type s = ''array''" | (other) "\<not> known_type (Some s)"
      by (auto simp: known_type_def)
    then show ?thesis
    proof cases
      case scalar
      with IH(1) False show ?thesis
        by (auto simp: schema_nodes_Some known_type_def)
    next
      case object
      with IH(2) False show ?thesis
        by (auto simp: schema_nodes_Some known_type_def all_nodes_rev)
    next
      case array
      with IH(3) False show ?thesis
        by (auto simp: schema_nodes_Some known_type_def split: option.splits)
    next
      case other
      then show ?thesis by (auto simp: schema_nodes_Some known_type_def)
    qed
  qed
qed (auto simp: known_type_def)

text \<open>
  The iterative shape check accepts a schema exactly when it has at most 512 nodes, none of them
  null, all with a known type tag.
\<close>

lemma validInputSchemaShape_exact:
  "validInputSchemaShape s \<longleftrightarrow> length (schema_nodes s) \<le> 512 \<and> (\<forall>n\<in>set (schema_nodes s). known_type n)"
  by (simp add: validInputSchemaShape_def shape_loop_exact InputSchemaNodeMax_def)

section \<open>Validation of a value\<close>

datatype input_error =
    MustBe string string string
  | MustBeOneOf string "json list" json
  | IsRequired string string
  | NilSchema string

fun matchesInputType :: "string \<Rightarrow> json \<Rightarrow> bool" where
  "matchesInputType ty (JStr _) = (ty = ''string'')"
| "matchesInputType ty (JNum _) = (ty = ''number'')"
| "matchesInputType ty (JBool _) = (ty = ''boolean'')"
| "matchesInputType ty (JObj _) = (ty = ''object'')"
| "matchesInputType ty (JArr _) = (ty = ''array'')"
| "matchesInputType ty JNull = False"

fun describeActual :: "json \<Rightarrow> string" where
  "describeActual JNull = ''null''"
| "describeActual (JArr _) = ''array''"
| "describeActual (JObj _) = ''object''"
| "describeActual (JStr _) = ''string''"
| "describeActual (JNum _) = ''number''"
| "describeActual (JBool _) = ''boolean''"

definition obj_of :: "json \<Rightarrow> jmap" where
  "obj_of v = (case v of JObj m \<Rightarrow> m | _ \<Rightarrow> [])"

definition arr_of :: "json \<Rightarrow> json list" where
  "arr_of v = (case v of JArr xs \<Rightarrow> xs | _ \<Rightarrow> [])"

definition enum_errors :: "schema \<Rightarrow> json \<Rightarrow> string \<Rightarrow> input_error list" where
  "enum_errors s v path =
     (if sc_Enum s \<noteq> [] \<and> \<not> list_ex (\<lambda>a. deep_equal a v) (sc_Enum s) then [MustBeOneOf path (sc_Enum s) v] else [])"

definition required_errors :: "schema \<Rightarrow> json \<Rightarrow> string \<Rightarrow> input_error list" where
  "required_errors s v path =
     concat (map (\<lambda>k. if map_of (obj_of v) k = None then [IsRequired path k] else []) (sc_Required s))"

fun walkInput :: "schema \<Rightarrow> json \<Rightarrow> string \<Rightarrow> input_error list" where
  "walkInput s v path =
     (if \<not> matchesInputType (sc_Type s) v then [MustBe path (sc_Type s) (describeActual v)]
      else enum_errors s v path @
        (if sc_Type s = ''object'' then
           required_errors s v path @
           concat (map (\<lambda>k. case map_of (obj_of v) k of
                None \<Rightarrow> []
              | Some pv \<Rightarrow> (case property s k of
                    Some c \<Rightarrow> walkInput c pv (path @ ''.'' @ k)
                  | None \<Rightarrow> [NilSchema (path @ ''.'' @ k)]))
             (sorted_keys (sc_Properties s)))
         else []) @
        (if sc_Type s = ''array'' then
           (case sc_Items s of
              None \<Rightarrow> []
            | Some c \<Rightarrow> concat (map (\<lambda>(i, x). walkInput c x (path @ ''['' @ itoa i @ '']''))
                          (enumerate 0 (arr_of v))))
         else []))"

declare walkInput.simps [simp del]

definition ValidateInputValue :: "schema \<Rightarrow> json \<Rightarrow> string \<Rightarrow> input_error list" where
  "ValidateInputValue s v path = walkInput s v path"

datatype invalid_default = InvalidDefault string "input_error list"

fun invalidInputDefaults :: "schema \<Rightarrow> string \<Rightarrow> invalid_default list" where
  "invalidInputDefaults s path =
     (case sc_Default s of
        None \<Rightarrow> []
      | Some d \<Rightarrow> (let errs = ValidateInputValue s d path in if errs \<noteq> [] then [InvalidDefault path errs] else [])) @
     concat (map (\<lambda>k. case property s k of Some c \<Rightarrow> invalidInputDefaults c (path @ ''.'' @ k) | None \<Rightarrow> [])
       (sorted_keys (sc_Properties s)))"

declare invalidInputDefaults.simps [simp del]

section \<open>Declared defaults\<close>

text \<open>
  \<^verbatim>\<open>applyDefaults\<close>: the pair of a value and its presence is an optional value; a value that is not
  present has no other use in the source.
\<close>

fun applyDefaults :: "schema \<Rightarrow> json option \<Rightarrow> json option" where
  "applyDefaults s v =
     (let base = (case v of None \<Rightarrow> sc_Default s | Some x \<Rightarrow> Some x) in
      if sc_Type s \<noteq> ''object'' then base
      else if (case base of Some (JObj _) \<Rightarrow> False | None \<Rightarrow> False | _ \<Rightarrow> True) then base
      else
        let filled = foldl (\<lambda>filled k. case property s k of
                Some c \<Rightarrow> (case applyDefaults c (map_of filled k) of
                    Some r \<Rightarrow> AList.update k r filled | None \<Rightarrow> filled)
              | None \<Rightarrow> filled)
            (case base of Some b \<Rightarrow> obj_of b | None \<Rightarrow> []) (sorted_keys (sc_Properties s)) in
        if base = None \<and> filled = [] then None else Some (JObj filled))"

declare applyDefaults.simps [simp del]

definition ApplyInputDefaults :: "schema \<Rightarrow> json \<Rightarrow> json" where
  "ApplyInputDefaults s v =
     (case applyDefaults s (if v = JNull then None else Some v) of Some r \<Rightarrow> r | None \<Rightarrow> JNull)"

text \<open>One round of filling, and what the loop over the sorted property names yields for a key.\<close>

definition fill_key :: "schema \<Rightarrow> jmap \<Rightarrow> string \<Rightarrow> jmap" where
  "fill_key s filled k = (case property s k of
     Some c \<Rightarrow> (case applyDefaults c (map_of filled k) of Some r \<Rightarrow> AList.update k r filled | None \<Rightarrow> filled)
   | None \<Rightarrow> filled)"

definition fill :: "schema \<Rightarrow> jmap \<Rightarrow> jmap" where
  "fill s m = foldl (fill_key s) m (sorted_keys (sc_Properties s))"

lemma applyDefaults_leaf:
  "sc_Type s \<noteq> ''object'' \<Longrightarrow> applyDefaults s v = (case v of None \<Rightarrow> sc_Default s | Some x \<Rightarrow> Some x)"
  by (subst applyDefaults.simps) (simp add: Let_def)

lemma applyDefaults_object:
  "sc_Type s = ''object'' \<Longrightarrow> applyDefaults s (Some (JObj m)) = Some (JObj (fill s m))"
  by (subst applyDefaults.simps) (simp add: Let_def fill_def fill_key_def [abs_def] obj_of_def)

lemma applyDefaults_other: "(\<nexists>m. x = JObj m) \<Longrightarrow> applyDefaults s (Some x) = Some x"
  by (subst applyDefaults.simps) (auto simp: Let_def split: json.split)

lemma applyDefaults_absent:
  "sc_Type s = ''object'' \<Longrightarrow> sc_Default s = None \<Longrightarrow>
     applyDefaults s None = (if fill s [] = [] then None else Some (JObj (fill s [])))"
  by (subst applyDefaults.simps) (simp add: Let_def fill_def fill_key_def [abs_def])

lemma applyDefaults_default: "sc_Default s = Some d \<Longrightarrow> applyDefaults s None = applyDefaults s (Some d)"
  by (simp only: applyDefaults.simps [of s None] applyDefaults.simps [of s "Some d"] option.simps)

lemmas applyDefaults_cases =
  applyDefaults_leaf applyDefaults_object applyDefaults_other applyDefaults_absent applyDefaults_default

lemma applyDefaults_total: "\<exists>r. applyDefaults s (Some x) = Some r"
  by (cases "sc_Type s = ''object''"; cases x) (auto simp: applyDefaults_cases)

lemma map_of_fill_key: "k' \<noteq> k \<Longrightarrow> map_of (fill_key s m k) k' = map_of m k'"
  by (auto simp: fill_key_def update_conv' split: option.split)

lemma map_of_fold_other: "k \<notin> set ks \<Longrightarrow> map_of (foldl (fill_key s) m ks) k = map_of m k"
  by (induction ks arbitrary: m) (auto simp: map_of_fill_key)

lemma map_of_fold:
  assumes "distinct ks" "k \<in> set ks" "property s k = Some c"
  shows "map_of (foldl (fill_key s) m ks) k = applyDefaults c (map_of m k)"
  using assms
proof (induction ks arbitrary: m)
  case (Cons a ks)
  show ?case
  proof (cases "a = k")
    case True
    with Cons.prems have "map_of (foldl (fill_key s) m (a # ks)) k = map_of (fill_key s m k) k"
      by (simp add: map_of_fold_other)
    also have "\<dots> = applyDefaults c (map_of m k)"
      using Cons.prems(3) applyDefaults_total [of c]
      by (cases "map_of m k") (auto simp: fill_key_def update_conv' split: option.splits)
    finally show ?thesis .
  next
    case False
    with Cons show ?thesis by (simp add: map_of_fill_key)
  qed
qed simp

lemma property_declared: "property s k = Some c \<Longrightarrow> k \<in> set (sorted_keys (sc_Properties s))"
  by (auto simp: property_def split: option.splits dest!: map_of_SomeD intro: rev_image_eqI)

lemma fold_undeclared:
  "property s k = None \<Longrightarrow> map_of (foldl (fill_key s) m ks) k = map_of m k"
proof (induction ks arbitrary: m)
  case (Cons a ks)
  then show ?case by (cases "a = k") (simp_all add: map_of_fill_key, simp add: fill_key_def)
qed simp

lemma map_of_fill:
  "map_of (fill s m) k = (case property s k of None \<Rightarrow> map_of m k | Some c \<Rightarrow> applyDefaults c (map_of m k))"
  using map_of_fold [OF distinct_sorted_keys property_declared, of s k _ s]
  by (auto simp: fill_def fold_undeclared split: option.split)

lemma fill_fixpoint:
  assumes "\<And>k c v r. property s k = Some c \<Longrightarrow> applyDefaults c v = Some r \<Longrightarrow> applyDefaults c (Some r) = Some r"
  shows "fill s (fill s m) = fill s m"
proof -
  have "fill_key s (fill s m) k = fill s m" for k
  proof (cases "property s k")
    case (Some c)
    then have look: "map_of (fill s m) k = applyDefaults c (map_of m k)" by (simp add: map_of_fill)
    show ?thesis
    proof (cases "applyDefaults c (map_of m k)")
      case None
      then have "map_of m k = None" using applyDefaults_total [of c "the (map_of m k)"]
        by (cases "map_of m k") auto
      with None look Some show ?thesis by (simp add: fill_key_def)
    next
      case (Some r)
      with assms [OF \<open>property s k = Some c\<close>] look \<open>property s k = Some c\<close> show ?thesis
        by (simp add: fill_key_def alist_update_same)
    qed
  qed (simp add: fill_key_def)
  then have "foldl (fill_key s) (fill s m) ks = fill s m" for ks by (induction ks) auto
  then show ?thesis by (simp add: fill_def)
qed

lemma applyDefaults_stable: "applyDefaults s v = Some r \<Longrightarrow> applyDefaults s (Some r) = Some r"
proof (induction s arbitrary: v r rule: measure_induct_rule [of size])
  case (less s)
  have again: "fill s (fill s m) = fill s m" for m
    by (rule fill_fixpoint) (use less.IH size_property in blast)
  have known: "applyDefaults s (Some r) = Some r" if "applyDefaults s (Some x) = Some r" for x
  proof (cases "sc_Type s = ''object'' \<and> (\<exists>m. x = JObj m)")
    case True
    with that again show ?thesis by (auto simp: applyDefaults_cases)
  next
    case False
    then have "applyDefaults s (Some x) = Some x" by (auto simp: applyDefaults_cases)
    with that show ?thesis by simp
  qed
  show ?case
  proof (cases v)
    case (Some x)
    with less.prems known show ?thesis by blast
  next
    case None
    show ?thesis
    proof (cases "sc_Default s")
      case None
      with \<open>v = None\<close> less.prems again show ?thesis
        by (cases "sc_Type s = ''object''") (auto simp: applyDefaults_cases split: if_splits)
    next
      case (Some d)
      with \<open>v = None\<close> less.prems known show ?thesis by (simp add: applyDefaults_cases)
    qed
  qed
qed

text \<open>
  Resolving declared defaults is stable and never overrides what was supplied. Filling twice
  changes nothing, a supplied value of a field that is not an object is kept, and an absent declared
  field takes exactly what its own schema resolves to.
\<close>

theorem ApplyInputDefaults_correct:
  "ApplyInputDefaults s (ApplyInputDefaults s v) = ApplyInputDefaults s v \<and>
   (sc_Type s = ''object'' \<longrightarrow> (\<forall>m. \<exists>filled. ApplyInputDefaults s (JObj m) = JObj filled \<and>
      (\<forall>k. map_of filled k = (case property s k of
         None \<Rightarrow> map_of m k
       | Some c \<Rightarrow> if map_of m k \<noteq> None \<and> sc_Type c \<noteq> ''object'' then map_of m k
                   else applyDefaults c (map_of m k)))))"
proof (intro conjI impI allI)
  show "ApplyInputDefaults s (ApplyInputDefaults s v) = ApplyInputDefaults s v"
  proof (cases "applyDefaults s (if v = JNull then None else Some v)")
    case None
    then have "v = JNull" using applyDefaults_total [of s v] by (auto split: if_splits)
    with None show ?thesis by (simp add: ApplyInputDefaults_def)
  next
    case (Some r)
    then have "applyDefaults s (Some r) = Some r" by (rule applyDefaults_stable)
    moreover have "v = JNull" if "r = JNull"
      using Some that by (cases "sc_Type s = ''object''"; cases v) (auto simp: applyDefaults_cases)
    ultimately show ?thesis using Some by (cases "r = JNull") (auto simp: ApplyInputDefaults_def)
  qed
next
  fix m assume obj: "sc_Type s = ''object''"
  show "\<exists>filled. ApplyInputDefaults s (JObj m) = JObj filled \<and>
      (\<forall>k. map_of filled k = (case property s k of
         None \<Rightarrow> map_of m k
       | Some c \<Rightarrow> if map_of m k \<noteq> None \<and> sc_Type c \<noteq> ''object'' then map_of m k
                   else applyDefaults c (map_of m k)))"
    using obj by (intro exI [of _ "fill s m"])
      (auto simp: ApplyInputDefaults_def applyDefaults_cases map_of_fill split: option.splits)
qed

section \<open>The walk decides conformance\<close>

inductive conforms :: "schema \<Rightarrow> json \<Rightarrow> bool" where
  conformsI: "matchesInputType (sc_Type s) v \<Longrightarrow>
     sc_Enum s = [] \<or> (\<exists>a\<in>set (sc_Enum s). deep_equal a v) \<Longrightarrow>
     (sc_Type s = ''object'' \<Longrightarrow> \<forall>k\<in>set (sc_Required s). map_of (obj_of v) k \<noteq> None) \<Longrightarrow>
     (\<And>k pv. sc_Type s = ''object'' \<Longrightarrow> k \<in> fst ` set (sc_Properties s) \<Longrightarrow> map_of (obj_of v) k = Some pv \<Longrightarrow>
        \<exists>c. property s k = Some c \<and> conforms c pv) \<Longrightarrow>
     (\<And>c x. sc_Type s = ''array'' \<Longrightarrow> sc_Items s = Some c \<Longrightarrow> x \<in> set (arr_of v) \<Longrightarrow> conforms c x) \<Longrightarrow>
     conforms s v"

lemma conforms_iff:
  "conforms s v \<longleftrightarrow> matchesInputType (sc_Type s) v \<and>
     (sc_Enum s = [] \<or> (\<exists>a\<in>set (sc_Enum s). deep_equal a v)) \<and>
     (sc_Type s = ''object'' \<longrightarrow> (\<forall>k\<in>set (sc_Required s). map_of (obj_of v) k \<noteq> None) \<and>
        (\<forall>k\<in>fst ` set (sc_Properties s). \<forall>pv. map_of (obj_of v) k = Some pv \<longrightarrow>
           (\<exists>c. property s k = Some c \<and> conforms c pv))) \<and>
     (sc_Type s = ''array'' \<longrightarrow> (\<forall>c. sc_Items s = Some c \<longrightarrow> (\<forall>x\<in>set (arr_of v). conforms c x)))"
  by (subst conforms.simps) blast

lemma walkInput_Nil_iff:
  "walkInput s v path = [] \<longleftrightarrow> matchesInputType (sc_Type s) v \<and>
     (sc_Enum s = [] \<or> (\<exists>a\<in>set (sc_Enum s). deep_equal a v)) \<and>
     (sc_Type s = ''object'' \<longrightarrow> (\<forall>k\<in>set (sc_Required s). map_of (obj_of v) k \<noteq> None) \<and>
        (\<forall>k\<in>fst ` set (sc_Properties s). \<forall>pv. map_of (obj_of v) k = Some pv \<longrightarrow>
           (\<exists>c. property s k = Some c \<and> walkInput c pv (path @ ''.'' @ k) = []))) \<and>
     (sc_Type s = ''array'' \<longrightarrow> (\<forall>c. sc_Items s = Some c \<longrightarrow>
        (\<forall>(i, x)\<in>set (enumerate 0 (arr_of v)). walkInput c x (path @ ''['' @ itoa i @ '']'') = [])))"
proof -
  have en: "enum_errors s v path = [] \<longleftrightarrow> sc_Enum s = [] \<or> (\<exists>a\<in>set (sc_Enum s). deep_equal a v)"
    by (auto simp: enum_errors_def list_ex_iff)
  have req: "required_errors s v path = [] \<longleftrightarrow> (\<forall>k\<in>set (sc_Required s). map_of (obj_of v) k \<noteq> None)"
    unfolding required_errors_def concat_map_Nil_iff by simp
  have key: "(case map_of (obj_of v) k of None \<Rightarrow> []
      | Some pv \<Rightarrow> (case property s k of Some c \<Rightarrow> walkInput c pv (path @ ''.'' @ k)
          | None \<Rightarrow> [NilSchema (path @ ''.'' @ k)])) = [] \<longleftrightarrow>
      (\<forall>pv. map_of (obj_of v) k = Some pv \<longrightarrow>
         (\<exists>c. property s k = Some c \<and> walkInput c pv (path @ ''.'' @ k) = []))" for k
    by (auto split: option.split)
  show ?thesis
    by (subst walkInput.simps)
      (cases "sc_Items s"; simp only: en req concat_map_Nil_iff key append_is_Nil_conv set_sorted_keys
        if_split [of "\<lambda>x. x = []"] option.simps; auto)
qed

lemma walkInput_conforms: "walkInput s v path = [] \<longleftrightarrow> conforms s v"
proof (induction s arbitrary: v path rule: measure_induct_rule [of size])
  case (less s)
  have props: "property s k = Some c \<and> walkInput c pv p = [] \<longleftrightarrow> property s k = Some c \<and> conforms c pv" for k c pv p
    using less.IH [OF size_property] by blast
  have items: "(\<forall>(i, x)\<in>set (enumerate 0 (arr_of v)). walkInput c x (path @ ''['' @ itoa i @ '']'') = []) \<longleftrightarrow>
      (\<forall>x\<in>set (arr_of v). conforms c x)" if "sc_Items s = Some c" for c
    using less.IH [OF size_items [OF that]] snd_enumerate [of 0 "arr_of v", symmetric] by auto
  show ?case
    unfolding walkInput_Nil_iff [of s] conforms_iff [of s] props using items by auto
qed

text \<open>
  C23: the error-collecting walk decides conformance. \<^verbatim>\<open>ValidateInputValue\<close> returns no message exactly
  when the value conforms to the schema: its type, its enumeration, the required keys, and the
  declared properties and array items, recursively.
\<close>

theorem ValidateInputValue_exact: "ValidateInputValue s v path = [] \<longleftrightarrow> conforms s v"
  by (simp add: ValidateInputValue_def walkInput_conforms)

end
