(* ===== verification/Semantic.thy ===== *)
theory Semantic
  imports Inputs Expression
begin

text \<open>
  Deterministic semantic-outcome evaluation (\<^verbatim>\<open>internal/recovery/semanticoutcomes.go\<close>): the detectors a
  recovery contract attaches to a node, run on the node's output when it completes, and the replay of
  the contract's fixtures with the same evaluator.
\<close>

datatype detail = ExprDetail expr_error | InputDetail input_error

record violation =
  vi_DetectorID :: string
  vi_SourceNodeID :: string
  vi_Kind :: string
  vi_Action :: string
  vi_Message :: string
  vi_Details :: "detail list"

record evaluation =
  ev_SourceNodeID :: string
  ev_Evaluated :: nat
  ev_Violations :: "violation list"
  ev_Quarantined :: bool

definition semanticContract :: "contract option \<Rightarrow> semantic_failure option" where
  "semanticContract c = (case c of
     None \<Rightarrow> None
   | Some k \<Rightarrow> if c_Version k \<noteq> ''2'' then None else Some (c_Semantic k))"

text \<open>The context a detector sees: the given one with the completed output laid over the source node.\<close>

definition overlay :: "jmap \<Rightarrow> string \<Rightarrow> json \<Rightarrow> jmap" where
  "overlay ctx v output =
     (let existing = (case map_of ctx v of Some (JObj m) \<Rightarrow> m | _ \<Rightarrow> []) in
      AList.update v (JObj (AList.update ''output'' output (AList.update ''status'' (JStr ''succeeded'') existing))) ctx)"

definition make_violation :: "detector \<Rightarrow> detail list \<Rightarrow> violation" where
  "make_violation d ds = \<lparr>vi_DetectorID = d_ID d, vi_SourceNodeID = d_SourceNodeID d, vi_Kind = d_Kind d,
     vi_Action = d_Action d, vi_Message = d_Message d, vi_Details = ds\<rparr>"

text \<open>
  A schema detector without a schema would make the source panic; the contract parser rejects it, and
  the model reports it as a null schema.
\<close>

definition run_detector :: "jmap \<Rightarrow> json \<Rightarrow> detector \<Rightarrow> violation list" where
  "run_detector ctx output d =
     (if d_Kind d = ''expression'' then
        (case EvaluateExpression (d_PassWhen d) \<lparr>sc_Context = Val (JObj ctx), sc_Inputs = Val (JObj [])\<rparr> of
           Err e \<Rightarrow> [make_violation d [ExprDetail e]]
         | Ok b \<Rightarrow> if b then [] else [make_violation d []])
      else if d_Kind d = ''schema'' then
        (let problems = (case d_Schema d of Some s \<Rightarrow> ValidateInputValue s output ''$'' | None \<Rightarrow> [NilSchema ''$'']) in
         if problems \<noteq> [] then [make_violation d (map InputDetail (take 50 problems))] else [])
      else [])"

definition EvaluateSemanticOutcome :: "contract option \<Rightarrow> string \<Rightarrow> json \<Rightarrow> jmap \<Rightarrow> evaluation" where
  "EvaluateSemanticOutcome c v output ctx =
     (let detectors = (case semanticContract c of
            None \<Rightarrow> [] | Some sf \<Rightarrow> filter (\<lambda>d. d_SourceNodeID d = v) (sf_Detectors sf));
          violations = concat (map (run_detector (overlay ctx v output) output) detectors) in
      \<lparr>ev_SourceNodeID = v, ev_Evaluated = length detectors, ev_Violations = violations,
       ev_Quarantined = list_ex (\<lambda>x. vi_Action x = ''quarantine'') violations\<rparr>)"

record fixture_result =
  fr_ID :: string
  fr_SourceNodeID :: string
  fr_Expected :: string
  fr_Actual :: string
  fr_Passed :: bool
  fr_Violations :: "violation list"

definition EvaluateSemanticOutcomeFixtures :: "contract option \<Rightarrow> fixture_result list" where
  "EvaluateSemanticOutcomeFixtures c = (case semanticContract c of
     None \<Rightarrow> []
   | Some sf \<Rightarrow> map (\<lambda>f.
       let ev = EvaluateSemanticOutcome c (fx_SourceNodeID f) (fx_Output f) (fx_Context f);
           actual = (if ev_Violations ev \<noteq> [] then ''violation'' else ''pass'') in
       \<lparr>fr_ID = fx_ID f, fr_SourceNodeID = fx_SourceNodeID f, fr_Expected = fx_Expected f, fr_Actual = actual,
        fr_Passed = (actual = fx_Expected f), fr_Violations = ev_Violations ev\<rparr>) (sf_EvaluationFixtures sf))"

text \<open>The neutral outcomes the domain validator replays.\<close>

record fixture_outcome =
  fo_ID :: string
  fo_SourceNodeID :: string
  fo_Expected :: string
  fo_Actual :: string
  fo_Passed :: bool
  fo_ViolationDetectorIDs :: "string list"

definition FixtureOutcomesForValidation :: "contract option \<Rightarrow> fixture_outcome list" where
  "FixtureOutcomesForValidation c = map (\<lambda>r.
     \<lparr>fo_ID = fr_ID r, fo_SourceNodeID = fr_SourceNodeID r, fo_Expected = fr_Expected r, fo_Actual = fr_Actual r,
      fo_Passed = fr_Passed r, fo_ViolationDetectorIDs = map vi_DetectorID (fr_Violations r)\<rparr>)
     (EvaluateSemanticOutcomeFixtures c)"

section \<open>Detectors fail closed\<close>

text \<open>What it means that a detector passes on an output.\<close>

definition detector_passes :: "jmap \<Rightarrow> json \<Rightarrow> detector \<Rightarrow> bool" where
  "detector_passes ctx output d \<longleftrightarrow>
     (d_Kind d = ''expression'' \<longrightarrow>
        EvaluateExpression (d_PassWhen d) \<lparr>sc_Context = Val (JObj ctx), sc_Inputs = Val (JObj [])\<rparr> = Ok True) \<and>
     (d_Kind d = ''schema'' \<longrightarrow> (\<exists>s. d_Schema d = Some s \<and> conforms s output))"

lemma run_detector_cases:
  "run_detector ctx output d = [] \<longleftrightarrow> detector_passes ctx output d"
  "x \<in> set (run_detector ctx output d) \<Longrightarrow> vi_DetectorID x = d_ID d \<and> vi_Action x = d_Action d"
  by (auto simp: run_detector_def detector_passes_def make_violation_def ValidateInputValue_def walkInput_conforms Let_def
      split: sum.splits option.splits if_splits)

lemma quarantined_iff:
  "ev_Quarantined (EvaluateSemanticOutcome c v output ctx) \<longleftrightarrow>
     (\<exists>sf. semanticContract c = Some sf \<and> (\<exists>d\<in>set (sf_Detectors sf).
        d_SourceNodeID d = v \<and> d_Action d = ''quarantine'' \<and> \<not> detector_passes (overlay ctx v output) output d))"
proof -
  have one: "list_ex (\<lambda>x. vi_Action x = ''quarantine'') (run_detector ctx' output d) \<longleftrightarrow>
      d_Action d = ''quarantine'' \<and> \<not> detector_passes ctx' output d" for ctx' d
    using run_detector_cases(1) [of ctx' "output" d] run_detector_cases(2) [of _ ctx' "output" d] by (cases "run_detector ctx' output d") (auto simp: list_ex_iff)
  show ?thesis
    using one by (cases "semanticContract c") (auto simp: EvaluateSemanticOutcome_def Let_def list_ex_iff)
qed

text \<open>
  C24: quarantine fails closed. An outcome is quarantined exactly when the contract is of version 2 and
  some quarantine detector of the node does not pass: its expression is false or cannot be evaluated,
  or the output does not conform to its schema.
\<close>

theorem EvaluateSemanticOutcome_quarantine:
  "ev_Quarantined (EvaluateSemanticOutcome (Some k) v output ctx) \<longleftrightarrow>
     c_Version k = ''2'' \<and> (\<exists>d\<in>set (sf_Detectors (c_Semantic k)).
        d_SourceNodeID d = v \<and> d_Action d = ''quarantine'' \<and> \<not> detector_passes (overlay ctx v output) output d)"
  by (auto simp: quarantined_iff semanticContract_def)

end
