(* ===== verification/Retry.thy ===== *)
theory Retry
  imports Workflow
begin

text \<open>
  Retry policies: the closed grammar of \<^verbatim>\<open>config.retry\<close> (\<^verbatim>\<open>internal/domain/retrypolicy.go\<close>) and the
  evaluator that classifies a serialised error, decides on a retry and computes the delay
  (\<^verbatim>\<open>internal/engine/retry.go\<close>), with the failure patterns of \<^verbatim>\<open>internal/signature\<close> it uses. Delays are
  whole milliseconds far below two to the 53rd, where float64 arithmetic is exact; the jitter product
  is taken exactly.
\<close>

section \<open>The policy grammar\<close>

definition RetryMaxAttempts :: int where "RetryMaxAttempts = 10"
definition RetryMaxDelayMS :: rat where "RetryMaxDelayMS = 3600000"
definition RetryMaxInitialDelayMS :: rat where "RetryMaxInitialDelayMS = 600000"
definition RetryMaxMatchers :: nat where "RetryMaxMatchers = 20"
definition RetryMaxMatcherChars :: nat where "RetryMaxMatcherChars = 64"
definition RetryDefaultDelayMS :: rat where "RetryDefaultDelayMS = 1000"

record retry_policy =
  rp_MaxAttempts :: int
  rp_DelayMs :: rat
  rp_MaxDelayMs :: "rat option"
  rp_Backoff :: string
  rp_Jitter :: bool
  rp_RetryOn :: "string list"
  rp_IgnoreOn :: "string list"

datatype retry_error =
    RetryNotObject
  | RetryAttemptsRequired
  | RetryUnsupportedField string
  | RetryAttemptsRange
  | RetryDelayRange
  | RetryMaxDelayRange
  | RetryBackoffUnknown
  | RetryJitterType
  | RetryMatcherStrings string
  | RetryMatcherArray string
  | RetryMatcherCount string
  | RetryMatcherText string
  | RetryMatcherDuplicate string

definition retryPolicyKeys :: "string list" where
  "retryPolicyKeys = [''maxAttempts'', ''delayMs'', ''maxDelayMs'', ''backoff'', ''jitter'', ''retryOn'', ''ignoreOn'']"

fun validationFiniteNumber :: "json \<Rightarrow> rat option" where
  "validationFiniteNumber (JNum (Fin q)) = Some q"
| "validationFiniteNumber _ = None"

definition boundedWholeNumber :: "json \<Rightarrow> rat \<Rightarrow> rat \<Rightarrow> bool" where
  "boundedWholeNumber v lo hi =
     (case validationFiniteNumber v of None \<Rightarrow> False | Some q \<Rightarrow> whole q \<and> lo \<le> q \<and> q \<le> hi)"

definition mustFiniteNumber :: "json \<Rightarrow> rat" where
  "mustFiniteNumber v = (case validationFiniteNumber v of Some q \<Rightarrow> q | None \<Rightarrow> 0)"

fun matcher_items :: "string \<Rightarrow> json list \<Rightarrow> retry_error + string list" where
  "matcher_items field [] = Ok []"
| "matcher_items field (v # vs) = (case as_str v of
     None \<Rightarrow> Err (RetryMatcherStrings field)
   | Some s \<Rightarrow> bindE (matcher_items field vs) (\<lambda>rest. Ok (s # rest)))"

fun check_matchers :: "string \<Rightarrow> string list \<Rightarrow> string list \<Rightarrow> retry_error + unit" where
  "check_matchers field [] seen = Ok ()"
| "check_matchers field (s # ss) seen =
     (if s = [] \<or> TrimSpace s \<noteq> s \<or> RuneCount s > RetryMaxMatcherChars then Err (RetryMatcherText field)
      else if s \<in> set seen then Err (RetryMatcherDuplicate field)
      else check_matchers field ss (s # seen))"

text \<open>A missing field and an explicit null both read as nil.\<close>

definition resolveRetryMatchers :: "string \<Rightarrow> json option \<Rightarrow> retry_error + string list" where
  "resolveRetryMatchers field v = (case v of
     None \<Rightarrow> Ok []
   | Some JNull \<Rightarrow> Ok []
   | Some (JArr xs) \<Rightarrow>
       bindE (matcher_items field xs) (\<lambda>items.
         if length items > RetryMaxMatchers then Err (RetryMatcherCount field)
         else bindE (check_matchers field items []) (\<lambda>_. Ok items))
   | Some _ \<Rightarrow> Err (RetryMatcherArray field))"

definition optional_field :: "jmap \<Rightarrow> string \<Rightarrow> (json \<Rightarrow> bool) \<Rightarrow> retry_error \<Rightarrow> (json \<Rightarrow> 'a) \<Rightarrow> 'a \<Rightarrow> retry_error + 'a" where
  "optional_field m k ok err conv dflt = (case map_of m k of
     None \<Rightarrow> Ok dflt
   | Some v \<Rightarrow> if ok v then Ok (conv v) else Err err)"

definition ResolveRetryPolicy :: "json \<Rightarrow> retry_error + retry_policy" where
  "ResolveRetryPolicy v = (case v of
     JObj m \<Rightarrow>
       if m = [] then Err RetryAttemptsRequired
       else (case find (\<lambda>k. k \<notin> set retryPolicyKeys) (map fst m) of
         Some k \<Rightarrow> Err (RetryUnsupportedField k)
       | None \<Rightarrow>
         (case map_of m ''maxAttempts'' of
           None \<Rightarrow> Err RetryAttemptsRange
         | Some a \<Rightarrow>
           if \<not> boundedWholeNumber a 1 (of_int RetryMaxAttempts) then Err RetryAttemptsRange
           else bindE (optional_field m ''delayMs'' (\<lambda>x. boundedWholeNumber x 1 RetryMaxInitialDelayMS) RetryDelayRange mustFiniteNumber RetryDefaultDelayMS) (\<lambda>delay.
             bindE (optional_field m ''maxDelayMs'' (\<lambda>x. boundedWholeNumber x 1 RetryMaxDelayMS) RetryMaxDelayRange (\<lambda>x. Some (mustFiniteNumber x)) None) (\<lambda>maxDelay.
             bindE (optional_field m ''backoff'' (\<lambda>x. x = JStr ''fixed'' \<or> x = JStr ''exponential'') RetryBackoffUnknown (\<lambda>x. case x of JStr s \<Rightarrow> s | _ \<Rightarrow> []) []) (\<lambda>backoff.
             bindE (optional_field m ''jitter'' (\<lambda>x. as_bool x \<noteq> None) RetryJitterType (\<lambda>x. x = JBool True) False) (\<lambda>jitter.
             bindE (resolveRetryMatchers ''retryOn'' (map_of m ''retryOn'')) (\<lambda>retryOn.
             bindE (resolveRetryMatchers ''ignoreOn'' (map_of m ''ignoreOn'')) (\<lambda>ignoreOn.
               Ok \<lparr>rp_MaxAttempts = \<lfloor>mustFiniteNumber a\<rfloor>, rp_DelayMs = delay, rp_MaxDelayMs = maxDelay,
                   rp_Backoff = backoff, rp_Jitter = jitter, rp_RetryOn = retryOn, rp_IgnoreOn = ignoreOn\<rparr>))))))))
   | _ \<Rightarrow> Err RetryNotObject)"

definition parseRetryPolicy :: "jmap \<Rightarrow> retry_policy option" where
  "parseRetryPolicy config = (case map_of config ''retry'' of
     None \<Rightarrow> None
   | Some raw \<Rightarrow> (case ResolveRetryPolicy raw of Ok p \<Rightarrow> Some p | Err _ \<Rightarrow> None))"

section \<open>Failure patterns\<close>

text \<open>
  The alternatives of the patterns of \<^verbatim>\<open>signature.go\<close>: literals compared without case on ASCII letters,
  runs of white space and the end of the text, optionally between word boundaries. Every alternative
  with a boundary begins, or ends, with a word character there.
\<close>

datatype rx = Lit string | Sp | Eot

definition rx_space :: "char \<Rightarrow> bool" where
  "rx_space c \<longleftrightarrow> c \<in> {CHR 0x20, CHR 0x09, CHR 0x0A, CHR 0x0C, CHR 0x0D}"

definition rx_word :: "char \<Rightarrow> bool" where
  "rx_word c \<longleftrightarrow> digit c \<or> upper_byte c \<noteq> c \<or> lower_byte c \<noteq> c \<or> c = CHR ''_''"

fun rx_match :: "rx list \<Rightarrow> string \<Rightarrow> string list" where
  "rx_match [] s = [s]"
| "rx_match (Lit l # r) s =
     (if prefix (map lower_byte l) (map lower_byte s) then rx_match r (drop (length l) s) else [])"
| "rx_match (Sp # r) [] = []"
| "rx_match (Sp # r) (c # s) = (if rx_space c then rx_match r s @ rx_match (Sp # r) s else [])"
| "rx_match (Eot # r) s = (if s = [] then rx_match r s else [])"

fun rx_search :: "bool \<Rightarrow> bool \<Rightarrow> rx list \<Rightarrow> bool \<Rightarrow> string \<Rightarrow> bool" where
  "rx_search lb rb items after_word [] \<longleftrightarrow> \<not> (lb \<and> after_word) \<and> rx_match items [] \<noteq> []"
| "rx_search lb rb items after_word (c # s) \<longleftrightarrow>
     \<not> (lb \<and> after_word) \<and>
       list_ex (\<lambda>rest. \<not> rb \<or> (case rest of [] \<Rightarrow> True | d # _ \<Rightarrow> \<not> rx_word d)) (rx_match items (c # s)) \<or>
     rx_search lb rb items (rx_word c) s"

definition words :: "string \<Rightarrow> string \<Rightarrow> rx list" where
  "words a b = [Lit a, Sp, Lit b]"

definition dnsFailurePattern :: "string \<Rightarrow> bool" where
  "dnsFailurePattern t \<longleftrightarrow>
     rx_search True True [Lit ''no'', Sp, Lit ''such'', Sp, Lit ''host''] False t \<or>
     rx_search True True (words ''server'' ''misbehaving'') False t \<or>
     rx_search False False [Lit ''did'', Sp, Lit ''not'', Sp, Lit ''resolve'', Sp, Lit ''to'', Sp, Lit ''any'', Sp, Lit ''address''] False t \<or>
     rx_search True True [Lit ''ENOTFOUND''] False t \<or> rx_search True True [Lit ''EAI_AGAIN''] False t \<or>
     rx_search False False [Lit ''getaddrinfo''] False t \<or> rx_search False False (words ''name'' ''resolution'') False t"

definition timeoutFailurePattern :: "string \<Rightarrow> bool" where
  "timeoutFailurePattern t = list_ex (\<lambda>r. rx_search True True r False t)
     [[Lit ''timeout''], words ''timed'' ''out'', words ''deadline'' ''exceeded'', [Lit ''ETIMEDOUT''],
      [Lit ''UND_ERR_CONNECT_TIMEOUT''], [Lit ''UND_ERR_HEADERS_TIMEOUT''], [Lit ''UND_ERR_BODY_TIMEOUT'']]"

definition connectionFailurePattern :: "string \<Rightarrow> bool" where
  "connectionFailurePattern t \<longleftrightarrow> list_ex (\<lambda>r. rx_search True True r False t)
     [[Lit ''ECONNRESET''], [Lit ''ECONNREFUSED''], [Lit ''ECONNABORTED''], [Lit ''ENETUNREACH''],
      [Lit ''EHOSTUNREACH''], [Lit ''ENETDOWN''], [Lit ''EPIPE''], [Lit ''UND_ERR_SOCKET''],
      words ''dial'' ''tcp'', words ''connection'' ''refused'', words ''connection'' ''reset'',
      words ''broken'' ''pipe'', [Lit ''no'', Sp, Lit ''route'', Sp, Lit ''to'', Sp, Lit ''host''],
      [Lit ''network'', Sp, Lit ''is'', Sp, Lit ''unreachable'']] \<or>
     rx_search False False (words ''fetch'' ''failed'') False t \<or>
     rx_search False False [Lit '':'', Sp, Lit ''EOF'', Eot] False t"

definition IsNetworkFailure :: "string \<Rightarrow> bool" where
  "IsNetworkFailure t \<longleftrightarrow> dnsFailurePattern t \<or> connectionFailurePattern t"

definition IsTimeoutFailure :: "string \<Rightarrow> bool" where
  "IsTimeoutFailure t = timeoutFailurePattern t"

section \<open>Serialised errors\<close>

record exec_error =
  xe_Message :: string
  xe_Name :: string
  xe_Code :: string
  xe_StatusCode :: int
  xe_Details :: "json option"
  xe_WriteSide :: bool

text \<open>
  What \<^verbatim>\<open>errors.As\<close> finds in an executor's error: an \<^verbatim>\<open>ExecError\<close>, an error with the rich identity
  methods, or a plain one.
\<close>

datatype go_error =
    Exec exec_error
  | Rich string string string int "json option"
  | Plain string

text \<open>The keys of the serialised map; an empty code, a zero status and a false mark are absent.\<close>

record serr =
  se_Message :: string
  se_Name :: string
  se_Code :: string
  se_StatusCode :: int
  se_Details :: "json option"
  se_WriteSide :: bool

fun serializeError :: "go_error \<Rightarrow> serr" where
  "serializeError (Exec x) = \<lparr>se_Message = xe_Message x,
     se_Name = (if xe_Name x \<noteq> [] then xe_Name x else ''Error''), se_Code = xe_Code x,
     se_StatusCode = xe_StatusCode x, se_Details = xe_Details x, se_WriteSide = xe_WriteSide x\<rparr>"
| "serializeError (Rich msg name code status details) = \<lparr>se_Message = msg, se_Name = name, se_Code = code,
     se_StatusCode = status, se_Details = details, se_WriteSide = False\<rparr>"
| "serializeError (Plain msg) = \<lparr>se_Message = msg, se_Name = ''Error'', se_Code = [], se_StatusCode = 0,
     se_Details = None, se_WriteSide = False\<rparr>"

section \<open>Classification and decision\<close>

definition itoa_int :: "int \<Rightarrow> string" where
  "itoa_int n = (if n < 0 then CHR ''-'' # itoa (nat (- n)) else itoa (nat n))"

definition add_label :: "string \<Rightarrow> string list \<Rightarrow> string list" where
  "add_label l ls = (if l \<noteq> [] \<and> l \<notin> set ls then ls @ [l] else ls)"

text \<open>Go's integer division truncates.\<close>

definition go_div :: "int \<Rightarrow> int \<Rightarrow> int" where
  "go_div a b = (if a < 0 then - ((- a) div b) else a div b)"

definition classifyError :: "serr \<Rightarrow> string list" where
  "classifyError e =
     (let msg = se_Message e; code = se_Code e; status = se_StatusCode e; lower = ToLower msg;
          l1 = add_label code (add_label (se_Name e) []);
          l2 = (if status \<noteq> 0 then add_label (itoa_int (go_div status 100) @ ''xx'') (add_label (itoa_int status) l1) else l1);
          timeout = (sublist ''timeout'' lower \<or> sublist ''timed out'' lower \<or> IsTimeoutFailure msg \<or>
                     IsTimeoutFailure code \<or> code = ''NODE_TIMEOUT'');
          l3 = (if timeout then add_label ''timeout'' l2 else l2);
          network = (status = 0 \<and> (sublist ''network'' lower \<or> IsNetworkFailure msg)) \<or> IsNetworkFailure code in
      if network then add_label ''network'' l3 else l3)"

definition matchesPattern :: "string \<Rightarrow> string \<Rightarrow> bool" where
  "matchesPattern label pat \<longleftrightarrow> label = pat \<or>
     length pat = 3 \<and> digit (hd pat) \<and> tl pat = ''xx'' \<and> prefix [hd pat] label \<and> length label = 3"

definition shouldRetry :: "serr \<Rightarrow> retry_policy option \<Rightarrow> bool" where
  "shouldRetry e policy = (case policy of
     None \<Rightarrow> False
   | Some p \<Rightarrow>
       if se_WriteSide e \<or> se_Name e = ''ToolApprovalError'' then False
       else let labels = classifyError e;
                matchesAny = (\<lambda>pats. list_ex (\<lambda>q. list_ex (\<lambda>l. matchesPattern l q) labels) pats) in
         if matchesAny (rp_IgnoreOn p) then False
         else if rp_RetryOn p = [] then True
         else matchesAny (rp_RetryOn p))"

text \<open>The sample \<open>rnd\<close> is one value of \<^verbatim>\<open>rand.Float64\<close>, at least zero and below one.\<close>

definition computeRetryDelay :: "int \<Rightarrow> retry_policy option \<Rightarrow> rat \<Rightarrow> rat" where
  "computeRetryDelay attempt policy rnd = (case policy of
     None \<Rightarrow> 0
   | Some p \<Rightarrow>
       let raw = (if rp_Backoff p = ''exponential'' then rp_DelayMs p * 2 ^ nat (attempt - 1) else rp_DelayMs p);
           capped1 = (case rp_MaxDelayMs p of Some d \<Rightarrow> min raw d | None \<Rightarrow> raw);
           capped = min capped1 RetryMaxDelayMS in
       if \<not> rp_Jitter p then capped
       else let low = of_int \<lfloor>capped / 2\<rfloor> in of_int \<lfloor>low + rnd * (capped - low)\<rfloor>)"

section \<open>Bounds\<close>

definition policy_ok :: "retry_policy \<Rightarrow> bool" where
  "policy_ok p \<longleftrightarrow> 1 \<le> rp_MaxAttempts p \<and> rp_MaxAttempts p \<le> 10 \<and>
     whole (rp_DelayMs p) \<and> 1 \<le> rp_DelayMs p \<and> rp_DelayMs p \<le> 600000 \<and>
     (\<forall>d. rp_MaxDelayMs p = Some d \<longrightarrow> whole d \<and> 1 \<le> d \<and> d \<le> 3600000) \<and>
     rp_Backoff p \<in> {[], ''fixed'', ''exponential''} \<and>
     (\<forall>ms\<in>{rp_RetryOn p, rp_IgnoreOn p}. length ms \<le> 20 \<and> distinct ms \<and>
        (\<forall>s\<in>set ms. s \<noteq> [] \<and> TrimSpace s = s \<and> RuneCount s \<le> 64))"

lemma check_matchers_Cons:
  "check_matchers field (s # ss) seen = Ok u \<longleftrightarrow>
     s \<noteq> [] \<and> TrimSpace s = s \<and> RuneCount s \<le> 64 \<and> s \<notin> set seen \<and> check_matchers field ss (s # seen) = Ok u"
  unfolding check_matchers.simps RetryMaxMatcherChars_def by (cases "RuneCount s \<le> 64") auto

lemma check_matchers_Ok:
  "check_matchers field ss seen = Ok u \<Longrightarrow>
     distinct ss \<and> set ss \<inter> set seen = {} \<and> (\<forall>s\<in>set ss. s \<noteq> [] \<and> TrimSpace s = s \<and> RuneCount s \<le> 64)"
proof (induction ss arbitrary: seen)
  case (Cons s ss)
  from Cons.prems have hd: "s \<noteq> []" "TrimSpace s = s" "RuneCount s \<le> 64" "s \<notin> set seen"
    and tl: "check_matchers field ss (s # seen) = Ok u"
    unfolding check_matchers_Cons by blast+
  from Cons.IH [OF tl] hd show ?case by auto
qed simp

lemma resolveRetryMatchers_Ok:
  assumes "resolveRetryMatchers field v = Ok ms"
  shows "length ms \<le> 20 \<and> distinct ms \<and> (\<forall>s\<in>set ms. s \<noteq> [] \<and> TrimSpace s = s \<and> RuneCount s \<le> 64)"
  using assms
  by (auto simp: resolveRetryMatchers_def bindE_Ok_iff RetryMaxMatchers_def
      split: option.splits json.splits if_splits dest: check_matchers_Ok)

lemma boundedWholeNumber_D:
  "boundedWholeNumber v lo hi \<Longrightarrow> whole (mustFiniteNumber v) \<and> lo \<le> mustFiniteNumber v \<and> mustFiniteNumber v \<le> hi"
  by (auto simp: boundedWholeNumber_def mustFiniteNumber_def split: option.splits)

lemma optional_field_Ok:
  "optional_field m k ok err conv dflt = Ok x \<Longrightarrow> x = dflt \<or> (\<exists>v. ok v \<and> x = conv v)"
  by (auto simp: optional_field_def split: option.splits if_splits)

lemma ResolveRetryPolicy_ok:
  assumes "ResolveRetryPolicy v = Ok p"
  shows "policy_ok p"
proof -
  from assms obtain m a delay maxDelay backoff jitter retryOn ignoreOn where
    a: "boundedWholeNumber a 1 (of_int RetryMaxAttempts)" and
    delay: "optional_field m ''delayMs'' (\<lambda>x. boundedWholeNumber x 1 RetryMaxInitialDelayMS) RetryDelayRange mustFiniteNumber RetryDefaultDelayMS = Ok delay" and
    maxDelay: "optional_field m ''maxDelayMs'' (\<lambda>x. boundedWholeNumber x 1 RetryMaxDelayMS) RetryMaxDelayRange (\<lambda>x. Some (mustFiniteNumber x)) None = Ok maxDelay" and
    backoff: "optional_field m ''backoff'' (\<lambda>x. x = JStr ''fixed'' \<or> x = JStr ''exponential'') RetryBackoffUnknown (\<lambda>x. case x of JStr s \<Rightarrow> s | _ \<Rightarrow> []) [] = Ok backoff" and
    ms: "resolveRetryMatchers ''retryOn'' (map_of m ''retryOn'') = Ok retryOn"
      "resolveRetryMatchers ''ignoreOn'' (map_of m ''ignoreOn'') = Ok ignoreOn" and
    p: "p = \<lparr>rp_MaxAttempts = \<lfloor>mustFiniteNumber a\<rfloor>, rp_DelayMs = delay, rp_MaxDelayMs = maxDelay,
      rp_Backoff = backoff, rp_Jitter = jitter, rp_RetryOn = retryOn, rp_IgnoreOn = ignoreOn\<rparr>"
    unfolding ResolveRetryPolicy_def
    by (auto simp: bindE_Ok_iff split: json.splits option.splits if_splits)
  have "1 \<le> \<lfloor>mustFiniteNumber a\<rfloor> \<and> \<lfloor>mustFiniteNumber a\<rfloor> \<le> 10"
    using boundedWholeNumber_D [OF a] by (auto simp: RetryMaxAttempts_def le_floor_iff floor_le_iff)
  moreover have "whole delay \<and> 1 \<le> delay \<and> delay \<le> 600000"
    using optional_field_Ok [OF delay] by (auto simp: RetryDefaultDelayMS_def RetryMaxInitialDelayMS_def dest: boundedWholeNumber_D)
  moreover have "whole d \<and> 1 \<le> d \<and> d \<le> 3600000" if "maxDelay = Some d" for d
    using optional_field_Ok [OF maxDelay] that by (auto simp: RetryMaxDelayMS_def dest: boundedWholeNumber_D)
  moreover have "backoff \<in> {[], ''fixed'', ''exponential''}"
    using optional_field_Ok [OF backoff] by auto
  ultimately show ?thesis
    using ms [THEN resolveRetryMatchers_Ok] by (auto simp: policy_ok_def p)
qed

text \<open>
  The retry grammar is bounded. Every policy \<^verbatim>\<open>ResolveRetryPolicy\<close> accepts allows between one and
  ten attempts, an initial delay of at most ten minutes, a cap of at most an hour, a known backoff, and
  at most twenty distinct trimmed matchers of at most 64 characters on each list.
\<close>

theorem ResolveRetryPolicy_bounds:
  "ResolveRetryPolicy v = Ok p \<Longrightarrow> policy_ok p"
  by (rule ResolveRetryPolicy_ok)

lemma parseRetryPolicy_limit: "parseRetryPolicy config = Some p \<Longrightarrow> 1 \<le> rp_MaxAttempts p \<and> rp_MaxAttempts p \<le> 10"
  by (auto simp: parseRetryPolicy_def policy_ok_def dest!: ResolveRetryPolicy_ok split: option.splits sum.splits)

lemma computeRetryDelay_capped:
  assumes p: "policy_ok p" and rnd: "0 \<le> rnd" "rnd < 1"
  shows "0 \<le> computeRetryDelay n (Some p) rnd \<and> computeRetryDelay n (Some p) rnd \<le> 3600000 \<and>
    (\<forall>d. rp_MaxDelayMs p = Some d \<longrightarrow> computeRetryDelay n (Some p) rnd \<le> d)"
proof -
  define raw where "raw = (if rp_Backoff p = ''exponential'' then rp_DelayMs p * 2 ^ nat (n - 1) else rp_DelayMs p)"
  define c where "c = min (case rp_MaxDelayMs p of Some d \<Rightarrow> min raw d | None \<Rightarrow> raw) 3600000"
  have raw: "0 \<le> raw" using p by (auto simp: raw_def policy_ok_def)
  then have c: "0 \<le> c" "c \<le> 3600000" "\<forall>d. rp_MaxDelayMs p = Some d \<longrightarrow> c \<le> d"
    using p by (auto simp: c_def policy_ok_def min_def split: option.splits)
  have j: "(0::rat) \<le> of_int \<lfloor>low + rnd * (c - low)\<rfloor> \<and> of_int \<lfloor>low + rnd * (c - low)\<rfloor> \<le> c" if "low = of_int \<lfloor>c / 2\<rfloor>" for low :: rat
  proof -
    have low: "0 \<le> low" "low \<le> c" using that c(1) by (auto, linarith)
    have "rnd * (c - low) \<le> c - low" using low(2) rnd by (simp add: mult_left_le_one_le)
    moreover have "0 \<le> rnd * (c - low)" using low(2) rnd(1) by simp
    ultimately have "0 \<le> low + rnd * (c - low)" "low + rnd * (c - low) \<le> c" using low(1) by linarith+
    then show ?thesis using order.trans [OF of_int_floor_le [of "low + rnd * (c - low)"]] by simp
  qed
  have "computeRetryDelay n (Some p) rnd = (if rp_Jitter p then of_int \<lfloor>of_int \<lfloor>c / 2\<rfloor> + rnd * (c - of_int \<lfloor>c / 2\<rfloor>)\<rfloor> else c)"
    unfolding computeRetryDelay_def RetryMaxDelayMS_def Let_def c_def raw_def option.simps by simp
  with c j [OF refl] show ?thesis by auto
qed

text \<open>
  A scheduled retry delay is never negative, never longer than an hour, never longer than the
  policy's own cap, and without jitter it never shrinks from one attempt to the next.
\<close>

theorem computeRetryDelay_bounds:
  assumes "ResolveRetryPolicy v = Ok p" "0 \<le> rnd" "rnd < 1" "n \<le> k"
  shows "0 \<le> computeRetryDelay n (Some p) rnd \<and> computeRetryDelay n (Some p) rnd \<le> 3600000 \<and>
    (\<forall>d. rp_MaxDelayMs p = Some d \<longrightarrow> computeRetryDelay n (Some p) rnd \<le> d) \<and>
    (\<not> rp_Jitter p \<longrightarrow> computeRetryDelay n (Some p) rnd \<le> computeRetryDelay k (Some p) rnd)"
proof -
  note p = ResolveRetryPolicy_ok [OF assms(1)]
  have "(2::rat) ^ nat (n - 1) \<le> 2 ^ nat (k - 1)" using assms(4) by (intro power_increasing) auto
  then have "rp_DelayMs p * 2 ^ nat (n - 1) \<le> rp_DelayMs p * 2 ^ nat (k - 1)"
    using p by (intro mult_left_mono) (auto simp: policy_ok_def)
  then have "\<not> rp_Jitter p \<longrightarrow> computeRetryDelay n (Some p) rnd \<le> computeRetryDelay k (Some p) rnd"
    by (auto simp: computeRetryDelay_def Let_def min_def split: option.splits)
  then show ?thesis using computeRetryDelay_capped [OF p assms(2,3)] by blast
qed

text \<open>
  What must never be repeated is never retried. An error marked as raised after external effects
  may have happened, and an approver's refusal, are not retried under any policy; nor is anything
  without a policy, nor an error one of whose labels the policy ignores.
\<close>

theorem shouldRetry_refuses:
  assumes "se_WriteSide e \<or> se_Name e = ''ToolApprovalError'' \<or> policy = None \<or>
    (\<exists>p q l. policy = Some p \<and> q \<in> set (rp_IgnoreOn p) \<and> l \<in> set (classifyError e) \<and> matchesPattern l q)"
  shows "\<not> shouldRetry e policy"
  using assms by (auto simp: shouldRetry_def Let_def list_ex_iff split: option.splits)

end
