(* ===== verification/Calendar.thy ===== *)
theory Calendar
  imports Prelude
begin

text \<open>
  What the sources use of Go's \<^verbatim>\<open>time\<close> package in UTC: the proleptic Gregorian calendar on day numbers
  that count from 1 January of year 1, the conversion of a Unix time to its civil fields and back,
  \<^verbatim>\<open>AddDate\<close>, weekdays, and fixed-width decimal numbers. Unix times are in nanoseconds, without the
  range limit of \<^verbatim>\<open>time.Time\<close>.
\<close>

section \<open>Years and months\<close>

definition leap :: "int \<Rightarrow> bool" where
  "leap y \<longleftrightarrow> y mod 4 = 0 \<and> (y mod 100 \<noteq> 0 \<or> y mod 400 = 0)"

definition days_in_month :: "int \<Rightarrow> int \<Rightarrow> int" where
  "days_in_month y m =
     (if m = 2 then if leap y then 29 else 28
      else if m = 4 \<or> m = 6 \<or> m = 9 \<or> m = 11 then 30 else 31)"

text \<open>Days before 1 January of a year, and days of a year before the first of a month.\<close>

definition before_year :: "int \<Rightarrow> int" where
  "before_year y = 365 * (y - 1) + (y - 1) div 4 - (y - 1) div 100 + (y - 1) div 400"

definition before_month :: "int \<Rightarrow> int \<Rightarrow> int" where
  "before_month y m =
     [0, 31, 59, 90, 120, 151, 181, 212, 243, 273, 304, 334] ! nat (m - 1) + (if leap y \<and> m > 2 then 1 else 0)"

definition year_days :: "int \<Rightarrow> int" where
  "year_days y = (if leap y then 366 else 365)"

lemma div_bounds:
  fixes x k :: int
  assumes "0 < k"
  shows "k * (x div k) \<le> x" "x \<le> k * (x div k) + (k - 1)"
proof -
  have "x = k * (x div k) + x mod k" by simp
  with pos_mod_sign [OF assms, of x] pos_mod_bound [OF assms, of x]
  show "k * (x div k) \<le> x" "x \<le> k * (x div k) + (k - 1)" by linarith+
qed

lemma div_step:
  fixes y k :: int
  assumes k: "0 < k"
  shows "y div k = (y - 1) div k + (if y mod k = 0 then 1 else 0)"
proof -
  define q r where "q = y div k" and "r = y mod k"
  have y: "y = k * q + r" and r: "0 \<le> r" "r < k" using k by (simp_all add: q_def r_def)
  have "(y - 1) div k = (if r = 0 then q - 1 else q)"
  proof (cases "r = 0")
    case True
    have "k * (q - 1) = k * q - k" by (simp add: right_diff_distrib)
    with y True have "y - 1 = k * (q - 1) + (k - 1)" by linarith
    then have "(y - 1) div k = q - 1" by (rule int_div_pos_eq) (use k in simp_all)
    with True show ?thesis by simp
  next
    case False
    from y have "y - 1 = k * q + (r - 1)" by linarith
    then have "(y - 1) div k = q" by (rule int_div_pos_eq) (use r False in simp_all)
    with False show ?thesis by simp
  qed
  then show ?thesis by (simp add: q_def r_def)
qed

lemma leap_count:
  fixes a b c a' b' c' z :: int
  assumes "r \<Longrightarrow> q" "q \<Longrightarrow> p" "a' = a + (if p then 1 else 0)" "b' = b + (if q then 1 else 0)" "c' = c + (if r then 1 else 0)"
  shows "365 * z + a' - b' + c' = 365 * (z - 1) + a - b + c + (if p \<and> (\<not> q \<or> r) then 366 else 365)"
  unfolding assms(3-5) using assms(1,2) by (cases p; cases q; cases r) simp_all

lemma before_year_Suc: "before_year (y + 1) = before_year y + year_days y"
proof -
  have "(100 :: int) dvd 400" "(4 :: int) dvd 100" by simp_all
  then have imp: "y mod 400 = 0 \<Longrightarrow> y mod 100 = 0" "y mod 100 = 0 \<Longrightarrow> y mod 4 = 0"
    unfolding mod_eq_0_iff_dvd by (blast intro: dvd_trans)+
  show ?thesis
    unfolding before_year_def year_days_def leap_def add_diff_cancel_right'
    by (rule leap_count; (rule imp, assumption | rule div_step, simp))
qed

lemma before_year_bounds:
  "400 * before_year y \<le> 146097 * (y - 1) + 396" "146097 * (y - 1) - 699 \<le> 400 * before_year y"
proof -
  define a b c where "a = (y - 1) div 4" and "b = (y - 1) div 100" and "c = (y - 1) div 400"
  have "4 * a \<le> y - 1" "y - 1 \<le> 4 * a + 3" "100 * b \<le> y - 1" "y - 1 \<le> 100 * b + 99"
    "400 * c \<le> y - 1" "y - 1 \<le> 400 * c + 399"
    unfolding a_def b_def c_def
    using div_bounds [of 4 "y - 1"] div_bounds [of 100 "y - 1"] div_bounds [of 400 "y - 1"] by simp_all
  moreover have "before_year y = 365 * (y - 1) + a - b + c" by (simp add: before_year_def a_def b_def c_def)
  ultimately show "400 * before_year y \<le> 146097 * (y - 1) + 396" "146097 * (y - 1) - 699 \<le> 400 * before_year y"
    by (simp_all add: algebra_simps)
qed

lemma year_days_ge: "365 \<le> year_days y" by (simp add: year_days_def)

lemma before_year_mono: "x \<le> y \<Longrightarrow> before_year x + 365 * (y - x) \<le> before_year y"
proof (induction "nat (y - x)" arbitrary: y)
  case (Suc n)
  then have "before_year x + 365 * (y - 1 - x) \<le> before_year (y - 1)" by (intro Suc.hyps) auto
  with before_year_Suc [of "y - 1"] year_days_ge [of "y - 1"] show ?case by (simp add: algebra_simps)
qed simp

section \<open>Dates\<close>

record date =
  d_Year :: int
  d_Month :: int
  d_Day :: int

definition valid_date :: "date \<Rightarrow> bool" where
  "valid_date d \<longleftrightarrow> 1 \<le> d_Month d \<and> d_Month d \<le> 12 \<and> 1 \<le> d_Day d \<and> d_Day d \<le> days_in_month (d_Year d) (d_Month d)"

definition day_number :: "date \<Rightarrow> int" where
  "day_number d = before_year (d_Year d) + before_month (d_Year d) (d_Month d) + d_Day d - 1"

definition year_of :: "int \<Rightarrow> int" where
  "year_of n = (let y = 400 * n div 146097 + 1 in if before_year (y + 1) \<le> n then y + 1 else y)"

definition month_of :: "int \<Rightarrow> int \<Rightarrow> int" where
  "month_of y k = (if k < before_month y 2 then 1 else if k < before_month y 3 then 2
     else if k < before_month y 4 then 3 else if k < before_month y 5 then 4
     else if k < before_month y 6 then 5 else if k < before_month y 7 then 6
     else if k < before_month y 8 then 7 else if k < before_month y 9 then 8
     else if k < before_month y 10 then 9 else if k < before_month y 11 then 10
     else if k < before_month y 12 then 11 else 12)"

definition date_of :: "int \<Rightarrow> date" where
  "date_of n = (let y = year_of n; k = n - before_year y; m = month_of y k in
     \<lparr>d_Year = y, d_Month = m, d_Day = k - before_month y m + 1\<rparr>)"

lemma year_of_exact: "before_year (year_of n) \<le> n" "n < before_year (year_of n + 1)"
proof -
  define y where "y = 400 * n div 146097 + 1"
  have y: "146097 * (y - 1) \<le> 400 * n" "400 * n < 146097 * y" 
    unfolding y_def using div_bounds [of 146097 "400 * n"] by simp_all
  have lo: "before_year y \<le> n" using before_year_bounds(1) [of y] y(1) by linarith
  have up: "n - 1 \<le> before_year (y + 1)" using before_year_bounds(2) [of "y + 1"] y(2) by simp
  have up2: "n < before_year (y + 1 + 1)"
    using up before_year_Suc [of "y + 1"] year_days_ge [of "y + 1"] by linarith
  show "before_year (year_of n) \<le> n" "n < before_year (year_of n + 1)"
    using lo up2 by (auto simp: year_of_def y_def [symmetric] Let_def)
qed

lemma year_of_unique:
  assumes "before_year y \<le> n" "n < before_year (y + 1)"
  shows "year_of n = y"
proof (rule antisym; rule ccontr)
  assume "\<not> year_of n \<le> y"
  then have "before_year (y + 1) \<le> before_year (year_of n)"
    using before_year_mono [of "y + 1" "year_of n"] by auto
  with year_of_exact(1) [of n] assms show False by linarith
next
  assume "\<not> y \<le> year_of n"
  then have "before_year (year_of n + 1) \<le> before_year y"
    using before_year_mono [of "year_of n + 1" y] by auto
  with year_of_exact(2) [of n] assms show False by linarith
qed

lemma before_month_simps [simp]:
  "before_month y 1 = 0" "before_month y 2 = 31"
  "before_month y 3 = (if leap y then 60 else 59)" "before_month y 4 = (if leap y then 91 else 90)"
  "before_month y 5 = (if leap y then 121 else 120)" "before_month y 6 = (if leap y then 152 else 151)"
  "before_month y 7 = (if leap y then 182 else 181)" "before_month y 8 = (if leap y then 213 else 212)"
  "before_month y 9 = (if leap y then 244 else 243)" "before_month y 10 = (if leap y then 274 else 273)"
  "before_month y 11 = (if leap y then 305 else 304)" "before_month y 12 = (if leap y then 335 else 334)"
  by (simp_all add: before_month_def nat_diff_distrib' eval_nat_numeral)

lemma month_cases:
  assumes "1 \<le> m" "m \<le> (12 :: int)"
  obtains "m = 1" | "m = 2" | "m = 3" | "m = 4" | "m = 5" | "m = 6" | "m = 7" | "m = 8" | "m = 9"
    | "m = 10" | "m = 11" | "m = 12"
  using assms by (atomize_elim) presburger

lemma month_of_cases:
  assumes "0 \<le> k" "k < year_days y"
  obtains m where "month_of y k = m" "m \<in> {1..12}" "before_month y m \<le> k" "k < before_month y m + days_in_month y m"
proof (cases "leap y")
  case True
  show thesis
    by (rule that [OF refl]; insert True assms; simp add: month_of_def days_in_month_def year_days_def; linarith?)
next
  case False
  show thesis
    by (rule that [OF refl]; insert False assms; simp add: month_of_def days_in_month_def year_days_def; linarith?)
qed

lemma month_of_unique:
  assumes "1 \<le> m" "m \<le> 12" "before_month y m \<le> k" "k < before_month y m + days_in_month y m"
  shows "month_of y k = m"
  using assms(1,2) by (cases m rule: month_cases; cases "leap y";
    insert assms(3,4); simp add: month_of_def days_in_month_def)
lemma before_month_last:
  assumes "1 \<le> m" "m \<le> 12"
  shows "0 \<le> before_month y m" "before_month y m + days_in_month y m \<le> year_days y"
  using assms by (cases m rule: month_cases; simp add: days_in_month_def year_days_def)+

theorem date_of_valid: "valid_date (date_of n)"
proof -
  let ?y = "year_of n" and ?k = "n - before_year (year_of n)"
  have "0 \<le> ?k" "?k < year_days ?y" using year_of_exact [of n] before_year_Suc [of ?y] by linarith+
  then obtain m where "month_of ?y ?k = m" "m \<in> {1..12}" "before_month ?y m \<le> ?k" "?k < before_month ?y m + days_in_month ?y m"
    by (rule month_of_cases)
  then show ?thesis by (simp add: date_of_def valid_date_def Let_def)
qed

theorem day_number_date_of [simp]: "day_number (date_of n) = n"
  by (simp add: day_number_def date_of_def Let_def)

theorem date_of_day_number:
  assumes "valid_date d"
  shows "date_of (day_number d) = d"
proof -
  let ?y = "d_Year d" and ?m = "d_Month d" and ?k = "before_month (d_Year d) (d_Month d) + d_Day d - 1"
  have m: "1 \<le> ?m" "?m \<le> 12" and d: "1 \<le> d_Day d" "d_Day d \<le> days_in_month ?y ?m"
    using assms by (simp_all add: valid_date_def)
  have k: "0 \<le> ?k" "?k < year_days ?y" using before_month_last [OF m, of ?y] d by linarith+
  have y: "year_of (day_number d) = ?y"
    by (rule year_of_unique) (use k in \<open>simp_all add: day_number_def before_year_Suc\<close>)
  have "month_of ?y ?k = ?m" by (rule month_of_unique [OF m]) (use d in simp_all)
  with y show ?thesis by (simp add: date_of_def Let_def day_number_def algebra_simps)
qed

section \<open>Civil time of a Unix time\<close>

record civil =
  c_Date :: date
  c_Hour :: int
  c_Minute :: int
  c_Second :: int

definition epoch_day :: int where "epoch_day = 719162"

definition unix_of :: "civil \<Rightarrow> int" where
  "unix_of c = (day_number (c_Date c) - epoch_day) * 86400 + c_Hour c * 3600 + c_Minute c * 60 + c_Second c"

definition civil_of :: "int \<Rightarrow> civil" where
  "civil_of s = (let r = s mod 86400 in
     \<lparr>c_Date = date_of (s div 86400 + epoch_day), c_Hour = r div 3600, c_Minute = r mod 3600 div 60, c_Second = r mod 60\<rparr>)"

definition valid_civil :: "civil \<Rightarrow> bool" where
  "valid_civil c \<longleftrightarrow> valid_date (c_Date c) \<and> 0 \<le> c_Hour c \<and> c_Hour c \<le> 23 \<and>
     0 \<le> c_Minute c \<and> c_Minute c \<le> 59 \<and> 0 \<le> c_Second c \<and> c_Second c \<le> 59"

definition weekday :: "int \<Rightarrow> int" where
  "weekday s = (s div 86400 + epoch_day + 1) mod 7"

lemma valid_date_monthD: "valid_date d \<Longrightarrow> 1 \<le> d_Month d \<and> d_Month d \<le> 12 \<and> 1 \<le> d_Day d \<and> d_Day d \<le> 31"
  by (auto simp: valid_date_def days_in_month_def split: if_splits)

lemma seconds_of_day:
  fixes h m s :: int
  assumes "0 \<le> h" "h \<le> 23" "0 \<le> m" "m \<le> 59" "0 \<le> s" "s \<le> 59"
  defines "r \<equiv> h * 3600 + m * 60 + s"
  shows "0 \<le> r" "r < 86400" "r div 3600 = h" "r mod 3600 div 60 = m" "r mod 60 = s"
proof -
  show r: "0 \<le> r" "r < 86400" using assms by simp_all
  have "r = 3600 * h + (m * 60 + s)" by (simp add: r_def)
  then have h: "r div 3600 = h" "r mod 3600 = m * 60 + s"
    by (rule int_div_pos_eq int_mod_pos_eq; use assms in simp)+
  then show "r div 3600 = h" by simp
  have "r = 60 * (h * 60 + m) + s" by (simp add: r_def)
  then show "r mod 60 = s" by (rule int_mod_pos_eq) (use assms in simp_all)
  have "m * 60 + s = 60 * m + s" by simp
  then show "r mod 3600 div 60 = m" unfolding h by (rule int_div_pos_eq) (use assms in simp_all)
qed

lemma day_of_unix:
  fixes n r :: int
  assumes "0 \<le> r" "r < 86400"
  shows "(n * 86400 + r) div 86400 = n" "(n * 86400 + r) mod 86400 = r"
  by (rule int_div_pos_eq [where r = r] int_mod_pos_eq [where q = n]; use assms in simp)+

lemma civil_of_valid: "valid_civil (civil_of s)"
proof -
  define r where "r = s mod 86400"
  have "0 \<le> r" "r < 86400" by (simp_all add: r_def)
  then have "0 \<le> r div 3600" "r div 3600 \<le> 23" by (simp_all add: div_int_pos_iff)
  moreover have "0 \<le> r mod 3600 div 60" "r mod 3600 div 60 \<le> 59"
    using pos_mod_bound [of 3600 r] by (simp_all add: div_int_pos_iff)
  moreover have "0 \<le> r mod 60" "r mod 60 \<le> 59" using pos_mod_bound [of 60 r] by simp_all
  ultimately show ?thesis
    unfolding civil_of_def valid_civil_def Let_def r_def [symmetric] civil.simps
    by (intro conjI date_of_valid)
qed

theorem civil_of_unix_of: "valid_civil c \<Longrightarrow> civil_of (unix_of c) = c"
proof -
  assume c: "valid_civil c"
  let ?r = "c_Hour c * 3600 + c_Minute c * 60 + c_Second c"
  have r: "0 \<le> ?r" "?r < 86400" "?r div 3600 = c_Hour c" "?r mod 3600 div 60 = c_Minute c" "?r mod 60 = c_Second c"
    using c by (intro seconds_of_day; simp add: valid_civil_def)+
  have u: "unix_of c = (day_number (c_Date c) - epoch_day) * 86400 + ?r" by (simp add: unix_of_def)
  show ?thesis
    unfolding civil_of_def u day_of_unix [OF r(1,2)] Let_def r(3-5)
    using c by (simp add: date_of_day_number valid_civil_def)
qed

theorem unix_of_civil_of: "unix_of (civil_of s) = s"
proof -
  define r where "r = s mod 86400"
  have "r mod 3600 = 60 * (r mod 3600 div 60) + r mod 3600 mod 60" by simp
  also have "r mod 3600 mod 60 = r mod 60" by (rule mod_mod_cancel) simp
  finally have r: "r div 3600 * 3600 + r mod 3600 div 60 * 60 + r mod 60 = r"
    using div_mult_mod_eq [of r 3600] by linarith
  have "s div 86400 * 86400 + r = s" by (simp add: r_def)
  with r show ?thesis
    by (simp only: unix_of_def civil_of_def Let_def r_def [symmetric] civil.simps day_number_date_of add_diff_cancel_right' add.assoc)
qed

text \<open>
  \<^verbatim>\<open>AddDate\<close> by years keeps month, day and time of day; a day the month does not have runs over into the
  next month, as it does for 29 February.
\<close>

definition add_years :: "int \<Rightarrow> int \<Rightarrow> int" where
  "add_years k s = (let c = civil_of s in unix_of (c\<lparr>c_Date := (c_Date c)\<lparr>d_Year := d_Year (c_Date c) + k\<rparr>\<rparr>))"

text \<open>Midnight on the first of the month after the given time.\<close>

definition next_month :: "int \<Rightarrow> int" where
  "next_month s = (let d = c_Date (civil_of s) in
     (day_number (if d_Month d = 12 then \<lparr>d_Year = d_Year d + 1, d_Month = 1, d_Day = 1\<rparr>
                  else \<lparr>d_Year = d_Year d, d_Month = d_Month d + 1, d_Day = 1\<rparr>) - epoch_day) * 86400)"


lemma month_after:
  assumes "1 \<le> m" "m \<le> 12"
  shows "day_number (if m = 12 then \<lparr>d_Year = y + 1, d_Month = 1, d_Day = 1\<rparr> else \<lparr>d_Year = y, d_Month = m + 1, d_Day = 1\<rparr>)
    = before_year y + before_month y m + days_in_month y m"
  using assms by (cases m rule: month_cases; cases "leap y";
    simp add: day_number_def before_year_Suc year_days_def days_in_month_def)

lemma date_of_unique:
  assumes "1 \<le> m" "m \<le> 12" "before_year y + before_month y m \<le> n" "n < before_year y + before_month y m + days_in_month y m"
  shows "date_of n = \<lparr>d_Year = y, d_Month = m, d_Day = n - before_year y - before_month y m + 1\<rparr>"
proof -
  have "year_of n = y"
    by (rule year_of_unique) (use assms before_month_last [OF assms(1,2), of y] in \<open>simp_all add: before_year_Suc\<close>)
  moreover have "month_of y (n - before_year y) = m" by (rule month_of_unique) (use assms in simp_all)
  ultimately show ?thesis by (simp add: date_of_def Let_def)
qed

lemma next_month_eq:
  assumes "c_Date (civil_of t) = d"
  shows "next_month t =
    (before_year (d_Year d) + before_month (d_Year d) (d_Month d) + days_in_month (d_Year d) (d_Month d) - epoch_day) * 86400"
proof -
  have "1 \<le> d_Month d" "d_Month d \<le> 12" using assms civil_of_valid [of t] by (auto simp: valid_civil_def valid_date_def)
  from month_after [OF this, of "d_Year d"] show ?thesis unfolding next_month_def assms Let_def by simp
qed

text \<open>Until the first of the next month, the year and the month stay.\<close>

lemma before_next_month:
  assumes "t \<le> u" "u < next_month t"
  shows "d_Year (c_Date (civil_of u)) = d_Year (c_Date (civil_of t))"
    "d_Month (c_Date (civil_of u)) = d_Month (c_Date (civil_of t))"
proof -
  define n n' where "n = t div 86400 + epoch_day" and "n' = u div 86400 + epoch_day"
  define y m where "y = d_Year (date_of n)" and "m = d_Month (date_of n)"
  have m: "1 \<le> m" "m \<le> 12" using date_of_valid [of n] by (simp_all add: valid_date_def m_def)
  define last where "last = before_year y + before_month y m + days_in_month y m"
  have nm: "next_month t = (last - epoch_day) * 86400"
    unfolding last_def y_def m_def by (rule next_month_eq) (simp add: civil_of_def Let_def n_def)
  have "n \<le> n'" using assms(1) by (simp add: n_def n'_def zdiv_mono1)
  have n: "n = before_year y + before_month y m + d_Day (date_of n) - 1"
    using day_number_date_of [of n] by (simp add: day_number_def y_def m_def)
  with date_of_valid [of n] \<open>n \<le> n'\<close> have lo: "before_year y + before_month y m \<le> n'" by (simp add: valid_date_def)
  have "u div 86400 * 86400 \<le> u" using div_bounds(1) [of 86400 u] by simp
  with assms(2) nm have "u div 86400 < last - epoch_day" by simp
  then have "n' < last" by (simp add: n'_def)
  with date_of_unique [OF m lo] have "date_of n' = \<lparr>d_Year = y, d_Month = m, d_Day = n' - before_year y - before_month y m + 1\<rparr>"
    by (simp add: last_def)
  then show "d_Year (c_Date (civil_of u)) = d_Year (c_Date (civil_of t))"
    "d_Month (c_Date (civil_of u)) = d_Month (c_Date (civil_of t))"
    by (simp_all add: civil_of_def Let_def n'_def [symmetric] n_def [symmetric] y_def m_def)
qed

lemma next_month_gt: "t < next_month t"
proof -
  define n where "n = t div 86400 + epoch_day"
  define y m where "y = d_Year (date_of n)" and "m = d_Month (date_of n)"
  have "n < before_year y + before_month y m + days_in_month y m"
    using date_of_valid [of n] day_number_date_of [of n] by (simp add: valid_date_def day_number_def y_def m_def)
  moreover have "next_month t = (before_year y + before_month y m + days_in_month y m - epoch_day) * 86400"
    unfolding y_def m_def by (rule next_month_eq) (simp add: civil_of_def Let_def n_def)
  ultimately have "(t div 86400 + 1) * 86400 \<le> next_month t" by (simp add: n_def)
  then show ?thesis using div_bounds(2) [of 86400 t] by simp
qed

lemma same_day:
  assumes "t div 86400 = u div 86400"
  shows "c_Date (civil_of u) = c_Date (civil_of t)" "weekday u = weekday t"
  using assms by (simp_all add: civil_of_def weekday_def Let_def)

lemma civil_hour: "c_Hour (civil_of t) = t div 3600 mod 24"
proof -
  have "t mod 86400 = 3600 * (t div 3600 mod 24) + t mod 3600" using zmod_zmult2_eq [of 24 t 3600] by simp
  then have "t mod 86400 div 3600 = t div 3600 mod 24" by (rule int_div_pos_eq) simp_all
  then show ?thesis by (simp add: civil_of_def Let_def)
qed


lemma year_le_iff: "year_of n \<le> y \<longleftrightarrow> n < before_year (y + 1)"
proof
  assume "year_of n \<le> y"
  then have "before_year (year_of n + 1) \<le> before_year (y + 1)"
    using before_year_mono [of "year_of n + 1" "y + 1"] by simp
  with year_of_exact(2) [of n] show "n < before_year (y + 1)" by linarith
next
  assume n: "n < before_year (y + 1)"
  show "year_of n \<le> y"
  proof (rule ccontr)
    assume "\<not> year_of n \<le> y"
    then have "before_year (y + 1) \<le> before_year (year_of n)" using before_year_mono [of "y + 1" "year_of n"] by simp
    with year_of_exact(1) [of n] n show False by linarith
  qed
qed

lemma year_of_civil: "d_Year (c_Date (civil_of s)) = year_of (s div 86400 + epoch_day)"
  by (simp add: civil_of_def date_of_def Let_def)

end
