(* ===== verification/Waiting.thy ===== *)
theory Waiting
  imports Calendar JsValue
begin

text \<open>
  The time grammar of waiting nodes: \<^verbatim>\<open>internal/domain/approvalwaiting.go\<close> and the executors of
  \<^verbatim>\<open>internal/executors/waiting.go\<close> for timers and approvals. Instants are Unix times in nanoseconds.
  The two regular expressions are matched by hand: every part is followed by a character that the part
  cannot contain, so the leftmost match is the only one. Float64 arithmetic rounds after every
  operation.
\<close>

section \<open>Decimal numbers of fixed width\<close>

definition digit_char :: "nat \<Rightarrow> char" where
  "digit_char n = char_of (48 + n)"

fun pad :: "nat \<Rightarrow> nat \<Rightarrow> string" where
  "pad 0 n = []"
| "pad (Suc w) n = pad w (n div 10) @ [digit_char (n mod 10)]"

definition take_digits :: "nat \<Rightarrow> string \<Rightarrow> (int \<times> string) option" where
  "take_digits w s =
     (if w \<le> length s \<and> list_all digit (take w s) then Some (int (digits_val (take w s)), drop w s) else None)"

definition lit :: "char \<Rightarrow> string \<Rightarrow> string option" where
  "lit c s = (case s of d # r \<Rightarrow> if d = c then Some r else None | [] \<Rightarrow> None)"

lemma of_char_digit_char [simp]: "n < 10 \<Longrightarrow> of_char (digit_char n) = 48 + n"
  by (simp add: digit_char_def)

lemma digit_digit_char [simp]: "n < 10 \<Longrightarrow> digit (digit_char n)"
  by (simp add: digit_def)

lemma digit_val_digit_char [simp]: "n < 10 \<Longrightarrow> digit_val (digit_char n) = n"
  by (simp add: digit_val_def)

lemma length_pad [simp]: "length (pad w n) = w"
  by (induction w n rule: pad.induct) simp_all

lemma digits_pad [simp]: "list_all digit (pad w n)"
  by (induction w n rule: pad.induct) simp_all

lemma digits_val_snoc [simp]: "digits_val (s @ [c]) = digits_val s * 10 + digit_val c"
  by (simp add: digits_val_def)

lemma digits_val_pad: "n < 10 ^ w \<Longrightarrow> digits_val (pad w n) = n"
proof (induction w n rule: pad.induct)
  case (2 w n)
  then have "n div 10 < 10 ^ w" by (simp add: less_mult_imp_div_less mult.commute)
  with 2 show ?case by simp
qed (simp add: digits_val_def)

lemma take_digits_pad [simp]: "n < 10 ^ w \<Longrightarrow> take_digits w (pad w n @ r) = Some (int n, r)"
  by (simp add: take_digits_def digits_val_pad)

lemma lit_simps [simp]: "lit c (c # r) = Some r" "lit c [] = None"
  by (simp_all add: lit_def)

section \<open>Absolute instants\<close>

datatype zone = Zulu | Offset bool int int

record instant_match =
  im_Year :: int
  im_Month :: int
  im_Day :: int
  im_Hour :: int
  im_Minute :: int
  im_Second :: int
  im_Fraction :: string
  im_Zone :: zone

definition match_zone :: "string \<Rightarrow> zone option" where
  "match_zone s =
     (if s = ''Z'' then Some Zulu
      else case s of
        c # r \<Rightarrow>
          if c = CHR ''+'' \<or> c = CHR ''-'' then
            Option.bind (take_digits 2 r) (\<lambda>(h, r).
            Option.bind (lit CHR '':'' r) (\<lambda>r.
            Option.bind (take_digits 2 r) (\<lambda>(m, r).
            if r = [] then Some (Offset (c = CHR ''-'') h m) else None)))
          else None
      | [] \<Rightarrow> None)"

text \<open>The optional seconds with their optional fraction of one to three digits.\<close>

definition match_seconds :: "string \<Rightarrow> (int \<times> string \<times> string) option" where
  "match_seconds s = (case lit CHR '':'' s of
     None \<Rightarrow> Some (0, [], s)
   | Some r \<Rightarrow> Option.bind (take_digits 2 r) (\<lambda>(sec, r).
       case lit CHR ''.'' r of
         None \<Rightarrow> Some (sec, [], r)
       | Some r \<Rightarrow> let f = takeWhile digit r in
           if 1 \<le> length f \<and> length f \<le> 3 then Some (sec, f, dropWhile digit r) else None))"

definition match_instant :: "string \<Rightarrow> instant_match option" where
  "match_instant s =
     Option.bind (take_digits 4 s) (\<lambda>(y, s). Option.bind (lit CHR ''-'' s) (\<lambda>s.
     Option.bind (take_digits 2 s) (\<lambda>(mo, s). Option.bind (lit CHR ''-'' s) (\<lambda>s.
     Option.bind (take_digits 2 s) (\<lambda>(d, s). Option.bind (lit CHR ''T'' s) (\<lambda>s.
     Option.bind (take_digits 2 s) (\<lambda>(h, s). Option.bind (lit CHR '':'' s) (\<lambda>s.
     Option.bind (take_digits 2 s) (\<lambda>(mi, s).
     Option.bind (match_seconds s) (\<lambda>(sec, f, s).
     Option.bind (match_zone s) (\<lambda>z.
       Some \<lparr>im_Year = y, im_Month = mo, im_Day = d, im_Hour = h, im_Minute = mi, im_Second = sec,
             im_Fraction = f, im_Zone = z\<rparr>)))))))))))"

definition waitingDaysInMonth :: "int \<Rightarrow> int \<Rightarrow> int" where
  "waitingDaysInMonth year month =
     (if month = 2 then if year mod 4 = 0 \<and> (year mod 100 \<noteq> 0 \<or> year mod 400 = 0) then 29 else 28
      else if month = 4 \<or> month = 6 \<or> month = 9 \<or> month = 11 then 30 else 31)"

fun offset_seconds :: "zone \<Rightarrow> int" where
  "offset_seconds Zulu = 0"
| "offset_seconds (Offset neg h m) = (if neg then - 1 else 1) * (h * 3600 + m * 60)"

fun offset_ok :: "zone \<Rightarrow> bool" where
  "offset_ok Zulu = True" | "offset_ok (Offset _ h m) = (h \<le> 23 \<and> m \<le> 59)"

definition fraction_millis :: "string \<Rightarrow> int" where
  "fraction_millis f = int (digits_val (f @ replicate (3 - length f) CHR ''0''))"

definition ParseAbsoluteInstant :: "string \<Rightarrow> int option" where
  "ParseAbsoluteInstant value = (case match_instant (TrimSpace value) of
     None \<Rightarrow> None
   | Some m \<Rightarrow>
       if im_Month m < 1 \<or> im_Month m > 12 \<or> im_Day m < 1 \<or> im_Day m > waitingDaysInMonth (im_Year m) (im_Month m) \<or>
          im_Hour m > 23 \<or> im_Minute m > 59 \<or> im_Second m > 59 \<or> \<not> offset_ok (im_Zone m)
       then None
       else Some ((unix_of \<lparr>c_Date = \<lparr>d_Year = im_Year m, d_Month = im_Month m, d_Day = im_Day m\<rparr>,
                    c_Hour = im_Hour m, c_Minute = im_Minute m, c_Second = im_Second m\<rparr> - offset_seconds (im_Zone m)) * 1000000000
                  + fraction_millis (im_Fraction m) * 1000000))"

text \<open>Go prints a year with at least four digits, after a sign when it is negative.\<close>

definition year_text :: "int \<Rightarrow> string" where
  "year_text y = (let n = nat \<bar>y\<bar>; ds = (if n < 10000 then pad 4 n else itoa n) in if y < 0 then CHR ''-'' # ds else ds)"

definition FormatWaitingInstant :: "int \<Rightarrow> string" where
  "FormatWaitingInstant t = (let c = civil_of (t div 1000000000); d = c_Date c in
     year_text (d_Year d) @ ''-'' @ pad 2 (nat (d_Month d)) @ ''-'' @ pad 2 (nat (d_Day d)) @ ''T'' @
     pad 2 (nat (c_Hour c)) @ '':'' @ pad 2 (nat (c_Minute c)) @ '':'' @ pad 2 (nat (c_Second c)) @ ''.'' @
     pad 3 (nat (t mod 1000000000 div 1000000)) @ ''Z'')"

text \<open>The layout \<^verbatim>\<open>time.RFC3339Nano\<close> in UTC drops trailing zeros of the fraction.\<close>

definition RFC3339Nano :: "int \<Rightarrow> string" where
  "RFC3339Nano t = (let c = civil_of (t div 1000000000); d = c_Date c;
       f = rev (dropWhile (\<lambda>x. x = CHR ''0'') (rev (pad 9 (nat (t mod 1000000000))))) in
     year_text (d_Year d) @ ''-'' @ pad 2 (nat (d_Month d)) @ ''-'' @ pad 2 (nat (d_Day d)) @ ''T'' @
     pad 2 (nat (c_Hour c)) @ '':'' @ pad 2 (nat (c_Minute c)) @ '':'' @ pad 2 (nat (c_Second c)) @
     (if f = [] then [] else CHR ''.'' # f) @ ''Z'')"

section \<open>Durations\<close>

definition f64_mul :: "rat \<Rightarrow> rat \<Rightarrow> f64" where
  "f64_mul a b = round_f64 (a * b)"

definition f64_add :: "rat \<Rightarrow> rat \<Rightarrow> f64" where
  "f64_add a b = round_f64 (a + b)"

text \<open>A component of the pattern: digits, an optional fraction, and the letter of its unit.\<close>

definition match_number :: "string \<Rightarrow> (string \<times> string) option" where
  "match_number s = (let ds = takeWhile digit s; r = dropWhile digit s in
     if ds = [] then None
     else case lit CHR ''.'' r of
         None \<Rightarrow> Some (ds, r)
       | Some r' \<Rightarrow> let fs = takeWhile digit r' in
           if fs = [] then Some (ds, r) else Some (ds @ ''.'' @ fs, dropWhile digit r'))"

definition match_component :: "char \<Rightarrow> string \<Rightarrow> string \<times> string" where
  "match_component u s = (case match_number s of
     None \<Rightarrow> ([], s)
   | Some (n, r) \<Rightarrow> (case lit u r of None \<Rightarrow> ([], s) | Some r' \<Rightarrow> (n, r')))"

definition match_duration :: "string \<Rightarrow> string list option" where
  "match_duration s = (case lit CHR ''P'' s of
     None \<Rightarrow> None
   | Some s \<Rightarrow>
       (let (y, s) = match_component CHR ''Y'' s; (mo, s) = match_component CHR ''M'' s; (d, s) = match_component CHR ''D'' s in
        case lit CHR ''T'' s of
          None \<Rightarrow> if s = [] then Some [y, mo, d, [], [], []] else None
        | Some s \<Rightarrow>
            (let (h, s) = match_component CHR ''H'' s; (mi, s) = match_component CHR ''M'' s; (sec, s) = match_component CHR ''S'' s in
             if s = [] then Some [y, mo, d, h, mi, sec] else None)))"

definition duration_units :: "rat list" where
  "duration_units = [365 * 86400000, 30 * 86400000, 86400000, 3600000, 60000, 1000]"

definition ParseFloat :: "string \<Rightarrow> rat option" where
  "ParseFloat s = (case parse_decimal s of
     None \<Rightarrow> None
   | Some q \<Rightarrow> (case round_f64 q of Fin r \<Rightarrow> Some r | _ \<Rightarrow> None))"

fun add_components :: "(string \<times> rat) list \<Rightarrow> rat \<Rightarrow> rat option" where
  "add_components [] acc = Some acc"
| "add_components ((g, u) # rest) acc =
     (if g = [] then add_components rest acc
      else case ParseFloat g of
          None \<Rightarrow> None
        | Some q \<Rightarrow> (case f64_mul q u of
            Fin p \<Rightarrow> (case f64_add acc p of Fin acc' \<Rightarrow> add_components rest acc' | _ \<Rightarrow> None)
          | _ \<Rightarrow> None))"

definition ParseISODurationMillis :: "string \<Rightarrow> rat option" where
  "ParseISODurationMillis value = (case match_duration value of
     None \<Rightarrow> None
   | Some groups \<Rightarrow> if list_all (\<lambda>g. g = []) groups then None else add_components (zip groups duration_units) 0)"

section \<open>Instants of the engine\<close>

text \<open>The engine's clock counts milliseconds.\<close>

definition UnixMilli :: "int \<Rightarrow> int" where
  "UnixMilli t = t div 1000000"

definition of_millis :: "int \<Rightarrow> int" where
  "of_millis ms = ms * 1000000"

definition parse_millis :: "string \<Rightarrow> int option" where
  "parse_millis s = map_option UnixMilli (ParseAbsoluteInstant s)"

definition format_millis :: "int \<Rightarrow> string" where
  "format_millis ms = FormatWaitingInstant (of_millis ms)"

section \<open>Configuration of waiting nodes\<close>

datatype waiting_error =
    WaitUntilConflict | WaitUntilMissing | WaitUntilDuration | WaitUntilNonPositive | WaitUntilInstant
  | ApprovalConflict | ApprovalPolicy | ApprovalPolicyWithoutDeadline | ApprovalEscalationWithoutPolicy
  | ApprovalTimeout | ApprovalUntil | ApprovalEscalationMissing

definition maxWaitUntilDurationMillis :: rat where
  "maxWaitUntilDurationMillis = 9223372036854"

definition duration_ok :: "rat \<Rightarrow> waiting_error option" where
  "duration_ok delay =
     (if delay \<le> 0 then Some WaitUntilNonPositive
      else if (case f64_mul delay 1000000 of Fin n \<Rightarrow> n < 1 | _ \<Rightarrow> False) \<or> delay > maxWaitUntilDurationMillis
      then Some WaitUntilDuration else None)"

definition ValidateWaitUntilConfig :: "jmap \<Rightarrow> waiting_error option" where
  "ValidateWaitUntilConfig config = (case (map_of config ''duration'', map_of config ''until'') of
     (Some _, Some _) \<Rightarrow> Some WaitUntilConflict
   | (None, None) \<Rightarrow> Some WaitUntilMissing
   | (Some d, None) \<Rightarrow> (case d of
       JStr text \<Rightarrow>
         if TrimSpace text = [] then Some WaitUntilDuration
         else (case ParseISODurationMillis text of None \<Rightarrow> Some WaitUntilDuration | Some delay \<Rightarrow> duration_ok delay)
     | _ \<Rightarrow> Some WaitUntilDuration)
   | (None, Some u) \<Rightarrow>
       (if ParseAbsoluteInstant (case u of JStr s \<Rightarrow> s | _ \<Rightarrow> []) = None then Some WaitUntilInstant else None))"

record approval_config =
  ac_Assignee :: string
  ac_RelativeTimeoutMS :: "int option"
  ac_DeadlineAt :: string
  ac_DelayMS :: int
  ac_OnTimeout :: string
  ac_EscalateTo :: string

definition optionalWaitingLabel :: "json option \<Rightarrow> string" where
  "optionalWaitingLabel v = (case v of Some (JStr s) \<Rightarrow> TrimSpace s | _ \<Rightarrow> [])"

definition safePositiveInteger :: "json option \<Rightarrow> int option" where
  "safePositiveInteger v = (case v of
     Some (JNum (Fin q)) \<Rightarrow> if q \<le> 0 \<or> \<not> whole q \<or> q > 9007199254740991 then None else Some \<lfloor>q\<rfloor>
   | _ \<Rightarrow> None)"

definition maxJSTimestampMillis :: int where
  "maxJSTimestampMillis = 8640000000000000"

definition supported_millis :: "int \<Rightarrow> bool" where
  "supported_millis ms \<longleftrightarrow> - maxJSTimestampMillis \<le> ms \<and> ms \<le> maxJSTimestampMillis"

definition approval_deadline :: "jmap \<Rightarrow> int \<Rightarrow> approval_config \<Rightarrow> waiting_error + approval_config" where
  "approval_deadline config now resolved = (case map_of config ''decisionTimeoutMs'' of
     Some raw \<Rightarrow> (case safePositiveInteger (Some raw) of
         None \<Rightarrow> Err ApprovalTimeout
       | Some timeout \<Rightarrow>
           if \<not> supported_millis (UnixMilli now + timeout) then Err ApprovalTimeout
           else Ok (resolved\<lparr>ac_RelativeTimeoutMS := Some timeout\<rparr>))
   | None \<Rightarrow> (case ParseAbsoluteInstant (case map_of config ''until'' of Some (JStr s) \<Rightarrow> s | _ \<Rightarrow> []) of
         None \<Rightarrow> Err ApprovalUntil
       | Some deadline \<Rightarrow> Ok (resolved\<lparr>ac_DeadlineAt := FormatWaitingInstant deadline,
           ac_DelayMS := max (UnixMilli deadline - UnixMilli now) 0\<rparr>)))"

definition ResolveApprovalWaitingConfig :: "jmap \<Rightarrow> int \<Rightarrow> waiting_error + approval_config" where
  "ResolveApprovalWaitingConfig config now =
     (let assignee = optionalWaitingLabel (map_of config ''assignee'');
          escalateTo = optionalWaitingLabel (map_of config ''escalateTo'');
          hasTimeout = (map_of config ''decisionTimeoutMs'' \<noteq> None);
          hasUntil = (map_of config ''until'' \<noteq> None);
          hasPolicy = (map_of config ''onTimeout'' \<noteq> None);
          policy = str_or_empty config ''onTimeout'';
          base = \<lparr>ac_Assignee = assignee, ac_RelativeTimeoutMS = None, ac_DeadlineAt = [], ac_DelayMS = 0,
                  ac_OnTimeout = [], ac_EscalateTo = []\<rparr> in
      if hasTimeout \<and> hasUntil then Err ApprovalConflict
      else if hasPolicy \<and> policy \<notin> {''fail'', ''auto_reject'', ''escalate''} then Err ApprovalPolicy
      else if \<not> hasTimeout \<and> \<not> hasUntil then
        (if hasPolicy then Err ApprovalPolicyWithoutDeadline
         else if escalateTo \<noteq> [] then Err ApprovalEscalationWithoutPolicy else Ok base)
      else bindE (approval_deadline config now base) (\<lambda>resolved.
        let policy = (if hasPolicy then policy else ''fail'') in
        if policy = ''escalate'' \<and> escalateTo = [] then Err ApprovalEscalationMissing
        else if policy \<noteq> ''escalate'' \<and> escalateTo \<noteq> [] then Err ApprovalEscalationWithoutPolicy
        else Ok (resolved\<lparr>ac_OnTimeout := policy, ac_EscalateTo := escalateTo\<rparr>)))"

definition MaterializeApprovalWaitingMetadata :: "jmap \<Rightarrow> int \<Rightarrow> jmap" where
  "MaterializeApprovalWaitingMetadata metadata checkpoint =
     (if map_of metadata ''kind'' \<noteq> Some (JStr ''approval'') then metadata
      else if map_of metadata ''deadlineAt'' \<noteq> None then metadata
      else case safePositiveInteger (map_of metadata ''decisionTimeoutMs'') of
          None \<Rightarrow> metadata
        | Some timeout \<Rightarrow>
            let deadlineMillis = UnixMilli checkpoint + timeout in
            if \<not> supported_millis deadlineMillis then metadata
            else AList.update ''delayMs'' (JNum (Fin (of_int timeout)))
              (AList.update ''deadlineAt'' (JStr (format_millis deadlineMillis)) metadata))"

section \<open>Executors\<close>

record waiting_result =
  wr_Reason :: string
  wr_Metadata :: jmap
  wr_WakeAt :: "int option"

definition int64 :: "int \<Rightarrow> int" where
  "int64 n = (n + 2 ^ 63) mod 2 ^ 64 - 2 ^ 63"

text \<open>
  Converting a float64 to an integer type cuts the fraction off; outside the range the result depends
  on the machine, taken here as wrapping. \<^verbatim>\<open>Sub\<close> saturates at the ends of \<^verbatim>\<open>time.Duration\<close>.
\<close>

definition duration_of :: "rat \<Rightarrow> int" where
  "duration_of delay = (case f64_mul delay 1000000 of Fin n \<Rightarrow> int64 (if n < 0 then \<lceil>n\<rceil> else \<lfloor>n\<rfloor>) | _ \<Rightarrow> 0)"

definition time_sub :: "int \<Rightarrow> int \<Rightarrow> int" where
  "time_sub a b = max (- (2 ^ 63)) (min (2 ^ 63 - 1) (a - b))"

record wait_schedule =
  ws_DelayMs :: rat
  ws_WakeAt :: int
  ws_Source :: string

definition resolveWaitUntilSchedule :: "jmap \<Rightarrow> int \<Rightarrow> waiting_error + wait_schedule" where
  "resolveWaitUntilSchedule config now = (case ValidateWaitUntilConfig config of
     Some e \<Rightarrow> Err e
   | None \<Rightarrow> (case map_of config ''duration'' of
       Some d \<Rightarrow>
         let delay = (case ParseISODurationMillis (case d of JStr s \<Rightarrow> s | _ \<Rightarrow> []) of Some q \<Rightarrow> q | None \<Rightarrow> 0) in
         Ok \<lparr>ws_DelayMs = delay, ws_WakeAt = now + duration_of delay, ws_Source = ''duration''\<rparr>
     | None \<Rightarrow>
         let i = (case ParseAbsoluteInstant (str_or_empty config ''until'') of Some t \<Rightarrow> t | None \<Rightarrow> 0);
             ns = time_sub i now; ms = (if ns < 0 then - ((- ns) div 1000000) else ns div 1000000) in
         Ok \<lparr>ws_DelayMs = (if ms < 0 then 0 else of_int ms), ws_WakeAt = i, ws_Source = ''until''\<rparr>))"

definition executeWaitUntil :: "jmap \<Rightarrow> int \<Rightarrow> waiting_error + waiting_result" where
  "executeWaitUntil config now = bindE (resolveWaitUntilSchedule config now) (\<lambda>s. Ok
     \<lparr>wr_Reason = ''Waiting for scheduled time'',
      wr_Metadata = [(''kind'', JStr ''timer''), (''wakeAt'', JStr (FormatWaitingInstant (ws_WakeAt s))),
        (''durationMs'', JNum (Fin (ws_DelayMs s))), (''source'', JStr (ws_Source s))],
      wr_WakeAt = Some (ws_WakeAt s)\<rparr>)"

definition trimmedString :: "json option \<Rightarrow> string" where
  "trimmedString v = (case v of Some (JStr s) \<Rightarrow> TrimSpace s | _ \<Rightarrow> [])"

definition approval_title :: "jmap \<Rightarrow> jmap" where
  "approval_title config =
     (if trimmedString (map_of config ''title'') \<noteq> [] then [(''title'', JStr (trimmedString (map_of config ''title'')))]
      else if trimmedString (map_of config ''message'') \<noteq> [] then [(''title'', JStr (trimmedString (map_of config ''message'')))]
      else [])"

definition executeApproval :: "string \<Rightarrow> string \<Rightarrow> jmap \<Rightarrow> int \<Rightarrow> waiting_error + waiting_result" where
  "executeApproval runID nodeID config now = bindE (ResolveApprovalWaitingConfig config now) (\<lambda>r.
     let description = trimmedString (map_of config ''description'');
         (timing, wakeAt) = (case ac_RelativeTimeoutMS r of
             Some timeout \<Rightarrow> ([(''decisionTimeoutMs'', JNum (Fin (of_int timeout))), (''onTimeout'', JStr (ac_OnTimeout r))], None)
           | None \<Rightarrow>
               if ac_DeadlineAt r \<noteq> [] then
                 ([(''deadlineAt'', JStr (ac_DeadlineAt r)), (''delayMs'', JNum (Fin (of_int (ac_DelayMS r)))),
                   (''onTimeout'', JStr (ac_OnTimeout r))], ParseAbsoluteInstant (ac_DeadlineAt r))
               else ([], None)) in
     Ok \<lparr>wr_Reason = ''Waiting for human approval'',
         wr_Metadata = [(''kind'', JStr ''approval''), (''resumeToken'', JStr (runID @ '':'' @ nodeID))] @
           approval_title config @ (if description \<noteq> [] then [(''description'', JStr description)] else []) @
           (if ac_Assignee r \<noteq> [] then [(''assignee'', JStr (ac_Assignee r))] else []) @ timing @
           (if ac_EscalateTo r \<noteq> [] then [(''escalateTo'', JStr (ac_EscalateTo r))] else []),
         wr_WakeAt = wakeAt\<rparr>)"

section \<open>Reading back what was written\<close>

lemma not_space_digit: "digit c \<or> c = CHR ''-'' \<Longrightarrow> c \<notin> hd ` set space_seqs"
  by (auto simp: space_seqs_def digit_def)

lemma hd_year_text: "hd (year_text y) \<notin> hd ` set space_seqs" "year_text y \<noteq> []"
proof -
  have "list_all digit (pad 4 n)" "pad 4 n \<noteq> []" "itoa n \<noteq> []" "list_all digit (itoa n)" for n
    using length_pad [of 4 n] by (auto simp del: length_pad)
  then have d: "digit (hd (pad 4 n))" "digit (hd (itoa n))" "pad 4 n \<noteq> []" for n
    by (metis hd_in_set list.pred_set)+
  show "year_text y \<noteq> []" using d by (auto simp: year_text_def Let_def)
  show "hd (year_text y) \<notin> hd ` set space_seqs"
    using d by (intro not_space_digit) (auto simp: year_text_def Let_def)
qed

lemma trim_format: "TrimSpace (FormatWaitingInstant t) = FormatWaitingInstant t"
proof (rule TrimSpace_id)
  show "FormatWaitingInstant t \<noteq> []" "hd (FormatWaitingInstant t) \<notin> hd ` set space_seqs"
    using hd_year_text by (simp_all add: FormatWaitingInstant_def Let_def del: image_iff)
  have "last (FormatWaitingInstant t) = CHR ''Z''" by (simp add: FormatWaitingInstant_def Let_def)
  then show "last (FormatWaitingInstant t) \<notin> last ` set space_seqs" by (simp add: space_seqs_def)
qed

lemma millis_split: "t div 1000000000 * 1000000000 + t mod 1000000000 div 1000000 * 1000000 = t div 1000000 * 1000000" for t :: int
proof -
  have "t = t mod 1000000000 + t div 1000000000 * 1000 * 1000000" by simp
  then have "t div 1000000 = t mod 1000000000 div 1000000 + t div 1000000000 * 1000"
    by (metis div_mult_self1 add.commute zero_neq_numeral)
  then show ?thesis by simp
qed

lemma match_long_year:
  assumes "10000 \<le> n"
  shows "Option.bind (take_digits 4 (itoa n @ r)) (\<lambda>(y, s). Option.bind (lit CHR ''-'' s) (f y)) = None"
proof -
  have len: "4 < length (itoa n)" using assms by (intro length_itoa) simp
  then have "drop 4 (itoa n) \<noteq> []" by simp
  moreover have "list_all digit (drop 4 (itoa n))" using digits_itoa [of n] by (auto simp: list_all_iff dest: in_set_dropD)
  ultimately obtain c s where cs: "drop 4 (itoa n) = c # s" "digit c" by (cases "drop 4 (itoa n)") auto
  then have "c \<noteq> CHR ''-''" by (auto simp: digit_def)
  with cs len show ?thesis by (auto simp: take_digits_def lit_def)
qed

lemma match_negative_year: "take_digits 4 (CHR ''-'' # r) = None"
  by (simp add: take_digits_def digit_def)

lemma match_instant_format:
  fixes y mo d h mi s ms :: nat
  assumes "mo < 100" "d < 100" "h < 100" "mi < 100" "s < 100" "ms < 1000" "y < 10000"
  shows "match_instant (pad 4 y @ ''-'' @ pad 2 mo @ ''-'' @ pad 2 d @ ''T'' @ pad 2 h @ '':'' @ pad 2 mi @ '':'' @
      pad 2 s @ ''.'' @ pad 3 ms @ ''Z'') =
    Some \<lparr>im_Year = int y, im_Month = int mo, im_Day = int d, im_Hour = int h, im_Minute = int mi, im_Second = int s,
      im_Fraction = pad 3 ms, im_Zone = Zulu\<rparr>"
proof -
  have "takeWhile digit (pad 3 ms @ ''Z'') = pad 3 ms" "dropWhile digit (pad 3 ms @ ''Z'') = ''Z''"
    using digits_pad [of 3 ms] by (simp_all add: takeWhile_append dropWhile_append list_all_iff digit_def)
  then have "match_seconds (CHR '':'' # pad 2 s @ CHR ''.'' # pad 3 ms @ ''Z'') = Some (int s, pad 3 ms, ''Z'')"
    using assms by (simp add: match_seconds_def)
  then show ?thesis using assms by (simp add: match_instant_def match_zone_def)
qed

text \<open>
  C36: the round trip of persisted instants. What \<^verbatim>\<open>FormatWaitingInstant\<close> writes, \<^verbatim>\<open>ParseAbsoluteInstant\<close>
  reads back as the same instant cut to whole milliseconds when the year has four digits, and refuses
  in every other year.
\<close>

theorem instant_round_trip:
  "ParseAbsoluteInstant (FormatWaitingInstant t) =
     (if d_Year (c_Date (civil_of (t div 1000000000))) \<in> {0..9999} then Some (t div 1000000 * 1000000) else None)"
proof -
  define c where "c = civil_of (t div 1000000000)"
  define ms where "ms = t mod 1000000000 div 1000000"
  define y where "y = d_Year (c_Date c)"
  have c: "valid_civil c" by (simp add: c_def civil_of_valid)
  then have m: "1 \<le> d_Month (c_Date c)" "d_Month (c_Date c) \<le> 12" "1 \<le> d_Day (c_Date c)" "d_Day (c_Date c) \<le> 31"
    using valid_date_monthD by (auto simp: valid_civil_def)
  have ms: "0 \<le> ms" "ms < 1000" by (simp_all add: ms_def div_int_pos_iff)
  let ?rest = "''-'' @ pad 2 (nat (d_Month (c_Date c))) @ ''-'' @ pad 2 (nat (d_Day (c_Date c))) @ ''T'' @
     pad 2 (nat (c_Hour c)) @ '':'' @ pad 2 (nat (c_Minute c)) @ '':'' @ pad 2 (nat (c_Second c)) @ ''.'' @ pad 3 (nat ms) @ ''Z''"
  have f: "FormatWaitingInstant t = year_text y @ ?rest"
    by (simp add: FormatWaitingInstant_def c_def ms_def y_def Let_def)
  consider "y < 0" | "y \<in> {0..9999}" | "y > 9999" by fastforce
  then show ?thesis
  proof cases
    case 1
    then have "match_instant (FormatWaitingInstant t) = None"
      by (simp add: f year_text_def Let_def match_instant_def match_negative_year)
    with 1 show ?thesis by (simp add: ParseAbsoluteInstant_def trim_format y_def c_def)
  next
    case 2
    then have yt: "year_text y = pad 4 (nat y)" by (simp add: year_text_def Let_def nat_less_iff)
    have "match_instant (FormatWaitingInstant t) = Some \<lparr>im_Year = y, im_Month = d_Month (c_Date c), im_Day = d_Day (c_Date c),
        im_Hour = c_Hour c, im_Minute = c_Minute c, im_Second = c_Second c, im_Fraction = pad 3 (nat ms), im_Zone = Zulu\<rparr>"
      unfolding f yt
      using 2 c m ms match_instant_format [of "nat (d_Month (c_Date c))" "nat (d_Day (c_Date c))" "nat (c_Hour c)"
        "nat (c_Minute c)" "nat (c_Second c)" "nat ms" "nat y"]
      by (simp add: valid_civil_def nat_less_iff)
    moreover have "fraction_millis (pad 3 (nat ms)) = ms"
      using ms by (simp add: fraction_millis_def digits_val_pad)
    moreover have "unix_of \<lparr>c_Date = \<lparr>d_Year = y, d_Month = d_Month (c_Date c), d_Day = d_Day (c_Date c)\<rparr>,
        c_Hour = c_Hour c, c_Minute = c_Minute c, c_Second = c_Second c\<rparr> = unix_of c"
      by (simp add: unix_of_def day_number_def y_def)
    moreover have "days_in_month y mo = waitingDaysInMonth y mo" for mo
      by (simp add: days_in_month_def waitingDaysInMonth_def leap_def)
    moreover have "unix_of c * 1000000000 + ms * 1000000 = t div 1000000 * 1000000"
      by (simp add: c_def unix_of_civil_of ms_def millis_split)
    ultimately show ?thesis
      using 2 c m by (simp add: ParseAbsoluteInstant_def trim_format valid_civil_def valid_date_def y_def [symmetric] c_def [symmetric])
  next
    case 3
    then have yt: "year_text y = itoa (nat y)" by (simp add: year_text_def Let_def nat_less_iff)
    have "match_instant (FormatWaitingInstant t) = None"
      unfolding f yt match_instant_def by (rule match_long_year) (use 3 in simp)
    with 3 show ?thesis by (simp add: ParseAbsoluteInstant_def trim_format y_def c_def)
  qed
qed


section \<open>Accepted durations\<close>

lemma accepted_duration:
  assumes "duration_ok delay = None"
  shows "1 \<le> duration_of delay" "duration_of delay < 2 ^ 63"
proof -
  define q where "q = delay * 1000000"
  have q: "0 < q" "q \<le> 9223372036854000000"
    using assms by (auto simp: q_def duration_ok_def maxWaitUntilDurationMillis_def split: if_splits)
  then have "q < 2 ^ 1000" by simp
  with q obtain n where n: "round_f64 q = Fin n" "\<bar>n - q\<bar> \<le> q / 2 ^ 53 + 1 / 2 ^ 1000"
    by (elim round_f64_close [rotated])
  with assms have "1 \<le> n" by (auto simp: q_def duration_ok_def f64_mul_def split: if_splits)
  have "q / 2 ^ 53 \<le> 9223372036854000000 / 2 ^ 53" using q(2) by (rule divide_right_mono) simp
  also have "\<dots> \<le> 1024" by simp
  finally have "q / 2 ^ 53 \<le> 1024" .
  moreover have "1 / 2 ^ 1000 \<le> (1 :: rat)" by simp
  ultimately have "n \<le> 9223372036854000000 + 1025" using n(2) q(2) by linarith
  with \<open>1 \<le> n\<close> have f: "1 \<le> \<lfloor>n\<rfloor>" "\<lfloor>n\<rfloor> < 2 ^ 63" by (simp_all add: le_floor_iff floor_less_iff)
  then have "duration_of delay = \<lfloor>n\<rfloor>"
    using n(1) \<open>1 \<le> n\<close> by (simp add: duration_of_def f64_mul_def int64_def q_def)
  with f show "1 \<le> duration_of delay" "duration_of delay < 2 ^ 63" by simp_all
qed

text \<open>
  C37: a configuration that validation accepts always executes, whenever it runs. The timer of a
  duration lies in the future, and its nanoseconds never wrap around; the timer of an absolute
  instant is that instant.
\<close>

theorem accepted_wait_until_executes:
  assumes "ValidateWaitUntilConfig config = None"
  shows "case resolveWaitUntilSchedule config now of
      Inl _ \<Rightarrow> False
    | Inr s \<Rightarrow>
        if map_of config ''duration'' \<noteq> None then 1 \<le> ws_WakeAt s - now \<and> ws_WakeAt s - now < 2 ^ 63
        else ParseAbsoluteInstant (str_or_empty config ''until'') = Some (ws_WakeAt s)"
proof (cases "map_of config ''duration''")
  case None
  with assms obtain u where "map_of config ''until'' = Some u"
    "ParseAbsoluteInstant (case u of JStr s \<Rightarrow> s | _ \<Rightarrow> []) \<noteq> None"
    by (auto simp: ValidateWaitUntilConfig_def split: option.splits if_splits)
  then have "ParseAbsoluteInstant (str_or_empty config ''until'') \<noteq> None"
    by (cases u) (simp_all add: str_or_empty_def get_str_def)
  with None assms show ?thesis by (auto simp: resolveWaitUntilSchedule_def Let_def)
next
  case (Some d)
  with assms obtain s delay where "d = JStr s" "ParseISODurationMillis s = Some delay" "duration_ok delay = None"
    by (auto simp: ValidateWaitUntilConfig_def split: option.splits json.splits if_splits)
  with Some assms accepted_duration [of delay] show ?thesis by (simp add: resolveWaitUntilSchedule_def)
qed

lemma one_second: "ParseISODurationMillis ''PT1S'' = Some 1000"
proof -
  have "match_duration ''PT1S'' = Some [[], [], [], [], [], ''1'']" by code_simp
  moreover have "parse_decimal ''1'' = Some 1" by code_simp
  ultimately show ?thesis
    by (simp add: ParseISODurationMillis_def duration_units_def ParseFloat_def f64_mul_def f64_add_def round_f64_numeral)
qed

theorem accepted_wait_until_executes_witness:
  "ValidateWaitUntilConfig [(''duration'', JStr ''PT1S'')] = None \<and>
   (case resolveWaitUntilSchedule [(''duration'', JStr ''PT1S'')] 7 of
      Inl _ \<Rightarrow> False | Inr s \<Rightarrow> 1 \<le> ws_WakeAt s - 7 \<and> ws_WakeAt s - 7 < 2 ^ 63)"
proof -
  have "TrimSpace ''PT1S'' = ''PT1S''" by code_simp
  then have "ValidateWaitUntilConfig [(''duration'', JStr ''PT1S'')] = None"
    by (simp add: ValidateWaitUntilConfig_def one_second duration_ok_def f64_mul_def round_f64_numeral
        maxWaitUntilDurationMillis_def)
  with accepted_wait_until_executes [OF this, of 7] show ?thesis by (simp split: sum.splits)
qed

end
