(* ===== verification/Lifecycle.thy ===== *)
theory Lifecycle
  imports Schedule Semantic Retry Waiting
begin

text \<open>
  The operations that move a run: claiming, completing, retrying and failing nodes
  (\<^verbatim>\<open>internal/engine/worker.go\<close>, \<^verbatim>\<open>complete.go\<close>, \<^verbatim>\<open>terminalfailure.go\<close>, \<^verbatim>\<open>reaper.go\<close>), cancellation
  (\<^verbatim>\<open>cancel.go\<close>), waiting, resuming and approval deadlines (\<^verbatim>\<open>waiting.go\<close>), and redrive
  (\<^verbatim>\<open>redrive.go\<close>). Each is one transaction under the run's completion lock, a function on the run's
  state; the operations of concurrent workers are sequences of these steps. Infrastructure faults of
  the database are not modelled: every statement succeeds and touches the rows its condition selects.
\<close>

section \<open>Transactions\<close>

datatype engine_error =
    ErrRunAlreadyTerminal
  | ErrResumeConflict
  | ErrResumeNodeNotFound
  | ErrResumeTokenRequired
  | ErrInvalidResumeToken
  | InputValidationError "input_error list"
  | InvalidDeadline string
  | ErrDeadLetterNotFound
  | ErrRedriveConflict
  | ErrRedriveRerunExists

text \<open>A handler commits with a value and the new state, gives up silently, or fails.\<close>

datatype abort = SkipCommit | Abort engine_error

type_synonym 'a tx = "run_db \<Rightarrow> abort + ('a \<times> run_db)"

definition inCompletionTxCommitted :: "'a tx \<Rightarrow> run_db \<Rightarrow> (engine_error + 'a option) \<times> run_db" where
  "inCompletionTxCommitted handler db = (case handler db of
     Inl SkipCommit \<Rightarrow> (Ok None, db)
   | Inl (Abort e) \<Rightarrow> (Err e, db)
   | Inr (a, db') \<Rightarrow> (Ok (Some a), log_call NotifyRunEvents db'))"

section \<open>Claims\<close>

record claim =
  cl_RowID :: string
  cl_NodeID :: string
  cl_Attempt :: int

definition claim_of :: "run_node \<Rightarrow> claim" where
  "claim_of r = \<lparr>cl_RowID = rn_ID r, cl_NodeID = rn_NodeID r, cl_Attempt = rn_Attempts r\<rparr>"

text \<open>
  \<^verbatim>\<open>claimBatch\<close> for the nodes of this run: lock at most \<open>batch\<close> claimable rows in queue order (the queue clock, then
  the row id; sorting is stable), mark them
  running, and append one event per claimed row.
\<close>

definition queue_order :: "run_db \<Rightarrow> int \<Rightarrow> string list" where
  "queue_order db tm = map rn_ID (sort_key rn_EnqueuedAt (sort_key rn_ID
     (filter (\<lambda>r. rn_ID r \<in> set (LockClaimableRunNodes tm db)) (r_Nodes db))))"

definition claimBatch :: "nat \<Rightarrow> int \<Rightarrow> run_db \<Rightarrow> claim list \<times> run_db" where
  "claimBatch batch tm db =
     (let ids = take batch (queue_order db tm) in
      if ids = [] then ([], db)
      else let rows = filter (\<lambda>r. rn_ID r \<in> set ids \<and> due tm db r) (r_Nodes db);
               db1 = snd (MarkLockedNodesRunning ids tm db) in
        (map claim_of rows,
         foldl (\<lambda>d r. let (t1, d1) = eventNow d in add_event (rn_NodeID r) ''node.running'' t1 d1) db1 rows))"

section \<open>Completion\<close>

definition recordRoutingOutcome :: "claim \<Rightarrow> int \<Rightarrow> bool \<Rightarrow> run_db \<Rightarrow> run_db" where
  "recordRoutingOutcome c reward ok db =
     (if r_ReplayMode db \<noteq> [] \<or> r_OrgID db = [] then db
      else log_call (RecordRoutingOutcome (cl_NodeID c) reward ok) db)"

text \<open>
  The guard of \<^verbatim>\<open>recordRecoveryImpact\<close> and its effect on the dead letter; the impact facts, the
  ownership item and the playbook credit it writes are one logged call.
\<close>

definition recovery_claim :: "claim \<Rightarrow> run_db \<Rightarrow> string option" where
  "recovery_claim c db = (case find (\<lambda>r. rn_NodeID r = cl_NodeID c) (r_Nodes db) of
     Some r \<Rightarrow> (case rn_RecoveryDeadLetter r of Some i \<Rightarrow> if i = [] then None else Some i | None \<Rightarrow> None)
   | None \<Rightarrow> None)"

definition recordRecoveryImpact :: "claim \<Rightarrow> int \<Rightarrow> run_db \<Rightarrow> run_db" where
  "recordRecoveryImpact c recoveredAt db = (case recovery_claim c db of
     None \<Rightarrow> db
   | Some i \<Rightarrow> (case find (\<lambda>d. dl_ID d = i \<and> dl_NodeID d = cl_NodeID c) (r_DeadLetters db) of
       None \<Rightarrow> db
     | Some d \<Rightarrow> if recoveredAt < dl_CreatedAt d then db
         else log_call (RecordRecoveryImpact i (cl_NodeID c) (recoveredAt - dl_CreatedAt d))
                (ConvergeDeadLetterReplayed i db)))"

definition evaluateSemanticOutcome :: "claim \<Rightarrow> json \<Rightarrow> run_db \<Rightarrow> violation list" where
  "evaluateSemanticOutcome c out db =
     (if r_ReplayMode db \<noteq> [] then []
      else case wf_Contract (r_Workflow db) of
        None \<Rightarrow> []
      | Some k \<Rightarrow>
          if c_Version k \<noteq> ''2'' then []
          else if \<not> list_ex (\<lambda>d. d_SourceNodeID d = cl_NodeID c) (sf_Detectors (c_Semantic k)) then []
          else ev_Violations (EvaluateSemanticOutcome (Some k) (cl_NodeID c) out (runContextFromRows (r_Nodes db))))"

definition persist_violation :: "claim \<Rightarrow> int \<Rightarrow> violation \<Rightarrow> run_db \<Rightarrow> run_db" where
  "persist_violation c finishedAt v db =
     (let quarantine = (vi_Action v = ''quarantine'');
          db1 = InsertRecoveryCase \<lparr>cs_DetectorID = vi_DetectorID v, cs_SourceNodeID = vi_SourceNodeID v,
                  cs_Action = vi_Action v, cs_State = (if quarantine then ''contained'' else ''detected'')\<rparr> db;
          db2 = (if quarantine then log_call (InsertCaseTransition (vi_DetectorID v) ''detected'' ''contained'') db1 else db1) in
      add_event (cl_NodeID c) ''recovery.semantic_violation'' finishedAt db2)"

definition persistSemanticViolations :: "claim \<Rightarrow> violation list \<Rightarrow> int \<Rightarrow> run_db \<Rightarrow> bool \<times> run_db" where
  "persistSemanticViolations c vs finishedAt db =
     (let db1 = foldl (\<lambda>d v. persist_violation c finishedAt v d) db vs;
          quarantined = (OpenQuarantines db1 > 0) in
      (quarantined, SetRunSemanticOutcome quarantined
         (if quarantined then ''semantic_quarantined'' else ''semantic_violation'') (length (r_Cases db1)) db1))"

record completion_options =
  co_beforeSuccess :: "int \<Rightarrow> run_db \<Rightarrow> run_db"
  co_beforeDownstream :: "int \<Rightarrow> run_db \<Rightarrow> run_db"
  co_skipSuccessEvent :: bool

definition completion_tx :: "claim \<Rightarrow> json \<Rightarrow> violation list \<Rightarrow> int \<Rightarrow> completion_options \<Rightarrow> bool tx" where
  "completion_tx c out violations finishedAt opts db =
     (let (completed, db1) = CompleteRunNode (cl_NodeID c) (JObj [(''output'', out)]) finishedAt db in
      if completed = 0 then Err SkipCommit
      else
        let db2 = DeleteWakeup (cl_RowID c) (recordRoutingOutcome c 1 True db1);
            db3 = co_beforeSuccess opts finishedAt db2;
            db4 = (if co_skipSuccessEvent opts then db3 else add_event (cl_NodeID c) ''node.succeeded'' finishedAt db3);
            db5 = recordRecoveryImpact c finishedAt db4;
            (quarantined, db6) = (if violations \<noteq> [] then persistSemanticViolations c violations finishedAt db5 else (False, db5));
            db7 = co_beforeDownstream opts finishedAt db6 in
        if quarantined then Ok (False, db7) else Ok (scheduleDownstream finishedAt db7))"

definition completeNode :: "claim \<Rightarrow> json \<Rightarrow> completion_options \<Rightarrow> run_db \<Rightarrow> (engine_error + unit) \<times> run_db" where
  "completeNode c out0 opts db =
     (let out = (if out0 = JNull then JObj [] else out0);
          violations = evaluateSemanticOutcome c out db;
          (finishedAt, db0) = eventNow db in
      case inCompletionTxCommitted (completion_tx c out violations finishedAt opts) db0 of
        (Err e, db1) \<Rightarrow> (Err e, db1)
      | (Ok committed, db1) \<Rightarrow>
          (Ok (), if committed = Some True then log_call CommitRunSummaryMemory (log_call RecordRolloutOutcome db1) else db1))"

definition CompleteNode :: "claim \<Rightarrow> json \<Rightarrow> run_db \<Rightarrow> (engine_error + unit) \<times> run_db" where
  "CompleteNode c out = completeNode c out
     \<lparr>co_beforeSuccess = \<lambda>_ db. db, co_beforeDownstream = \<lambda>_ db. db, co_skipSuccessEvent = False\<rparr>"

text \<open>
  A router's plan: the chosen node, empty when none was chosen, the candidates in order, and which of
  them are direct successors.
\<close>

record router_execution =
  rt_Decision :: json
  rt_ChosenNodeID :: string
  rt_Candidates :: "string list"
  rt_SuccessorIDs :: "string list"

definition skip_loser :: "int \<Rightarrow> json \<Rightarrow> string \<Rightarrow> run_db \<Rightarrow> run_db" where
  "skip_loser finishedAt state v db = (let (skipped, db1) = SkipRunNode v state finishedAt db in
     if skipped = 0 then db1 else add_event v ''node.skipped'' finishedAt db1)"

definition skip_losers :: "claim \<Rightarrow> router_execution \<Rightarrow> int \<Rightarrow> run_db \<Rightarrow> run_db" where
  "skip_losers c plan finishedAt db =
     (let chosen = rt_ChosenNodeID plan;
          state = JObj [(''skipped'', JObj [(''reason'', JStr (''Router '' @ cl_NodeID c @ '' chose '' @ chosen))])] in
      if chosen = [] then db
      else foldl (\<lambda>d v. if v = chosen \<or> v \<notin> set (rt_SuccessorIDs plan) then d else skip_loser finishedAt state v d)
             db (rt_Candidates plan))"

definition CompleteRouterNode :: "claim \<Rightarrow> router_execution \<Rightarrow> run_db \<Rightarrow> (engine_error + unit) \<times> run_db" where
  "CompleteRouterNode c plan = completeNode c (JObj [(''decision'', rt_Decision plan)])
     \<lparr>co_beforeSuccess = \<lambda>t db. add_event (cl_NodeID c) ''decision.made'' t db,
      co_beforeDownstream = skip_losers c plan, co_skipSuccessEvent = True\<rparr>"

section \<open>Retry and terminal failure\<close>

definition insertDeadLetter :: "claim \<Rightarrow> json \<Rightarrow> run_db \<Rightarrow> run_db" where
  "insertDeadLetter c err db =
     (let (i, db1) = newID db; (tm, db2) = eventNow db1;
          db3 = InsertDeadLetter i (cl_NodeID c) (cl_Attempt c) err tm db2 in
      if r_ReplayMode db3 \<noteq> [] then db3 else log_call (AutoCreateRecoveryItem i) db3)"

text \<open>The serialised error as it is stored in \<^verbatim>\<open>error_json\<close>.\<close>

definition serr_json :: "serr \<Rightarrow> json" where
  "serr_json e = JObj ([(''message'', JStr (se_Message e)), (''name'', JStr (se_Name e))] @
     (if se_Code e \<noteq> [] then [(''code'', JStr (se_Code e))] else []) @
     (if se_StatusCode e \<noteq> 0 then [(''statusCode'', JNum (Fin (of_int (se_StatusCode e))))] else []) @
     (case se_Details e of Some d \<Rightarrow> [(''details'', d)] | None \<Rightarrow> []) @
     (if se_WriteSide e then [(''writeSide'', JBool True)] else []))"

definition fail_tx :: "claim \<Rightarrow> serr \<Rightarrow> int \<Rightarrow> bool tx" where
  "fail_tx c e failedAt db =
     (if r_Status db \<noteq> RRunning \<and> r_Status db \<noteq> RFailed then Err SkipCommit
      else let (failed, db1) = FailRunNode (cl_NodeID c) (serr_json e) failedAt db in
        if failed = 0 then Err SkipCommit
        else
          let db2 = DeleteWakeup (cl_RowID c) (recordRoutingOutcome c (- 1) False db1) in
          if r_Status db = RRunning \<and> nodeFailureHandled (r_Workflow db) (cl_NodeID c)
          then Ok (True, snd (scheduleDownstream failedAt (add_event (cl_NodeID c) ''node.failed'' failedAt db2)))
          else
            let db3 = add_event (cl_NodeID c) ''node.failed'' failedAt (insertDeadLetter c (serr_json e) db2) in
            if r_Status db = RFailed then Ok (False, db3)
            else Ok (False, flipRunTerminal RFailed failedAt db3))"

definition afterTerminalFailure :: "claim \<Rightarrow> run_db \<Rightarrow> run_db" where
  "afterTerminalFailure c db =
     (if r_ReplayMode db \<noteq> [] then db
      else
        let db1 = (if r_ParentLinkKind db \<noteq> ''rerun'' then log_call TripCircuitBreaker db else db);
            db2 = log_call CommitRunSummaryMemory (log_call RecordRolloutOutcome db1) in
        if list_ex (\<lambda>d. dl_NodeID d = cl_NodeID c) (r_DeadLetters db2)
        then log_call (DispatchAlert ''dlq.entry_created'') db2 else db2)"

definition FailNode :: "claim \<Rightarrow> go_error \<Rightarrow> run_db \<Rightarrow> (engine_error + unit) \<times> run_db" where
  "FailNode c err db =
     (let (failedAt, db0) = eventNow db in
      case inCompletionTxCommitted (fail_tx c (serializeError err) failedAt) db0 of
        (Err e, db1) \<Rightarrow> (Err e, db1)
      | (Ok None, db1) \<Rightarrow> (Ok (), db1)
      | (Ok (Some handled), db1) \<Rightarrow>
          (Ok (), if handled then log_call CommitRunSummaryMemory (log_call RecordRolloutOutcome db1)
                  else afterTerminalFailure c db1))"

definition retry_limit :: "retry_policy option \<Rightarrow> int" where
  "retry_limit policy = (case policy of
     Some p \<Rightarrow> if rp_MaxAttempts p > 0 then rp_MaxAttempts p else 1 | None \<Rightarrow> 1)"

definition retry_tx :: "claim \<Rightarrow> int \<Rightarrow> int \<Rightarrow> int \<Rightarrow> unit tx" where
  "retry_tx c nextAttempt wakeAt retriedAt db =
     (let (requeued, db1) = RequeueRunNodeForRetry (cl_NodeID c) nextAttempt wakeAt db in
      if requeued = 0 then Err SkipCommit
      else
        let db2 = log_call (RetireToolApprovals (cl_NodeID c)) db1;
            db3 = UpsertWakeup (cl_RowID c) wakeAt ''retry'' (recordRoutingOutcome c (- 1) False db2) in
        Ok ((), add_event (cl_NodeID c) ''node.retry'' retriedAt db3))"

definition RetryOrFail :: "claim \<Rightarrow> node \<Rightarrow> go_error \<Rightarrow> rat \<Rightarrow> run_db \<Rightarrow> (engine_error + unit) \<times> run_db" where
  "RetryOrFail c n err rnd db =
     (let e = serializeError err; policy = parseRetryPolicy (n_Config n) in
      if cl_Attempt c \<ge> retry_limit policy \<or> \<not> shouldRetry e policy then FailNode c err db
      else
        let nextAttempt = cl_Attempt c + 1;
            delay = computeRetryDelay nextAttempt policy rnd;
            (nw, db0) = eventNow db; wakeAt = nw + \<lfloor>delay\<rfloor>;
            (retriedAt, db1) = eventNow db0 in
        case inCompletionTxCommitted (retry_tx c nextAttempt wakeAt retriedAt) db1 of
          (Err e, db2) \<Rightarrow> (Err e, db2)
        | (Ok _, db2) \<Rightarrow> (Ok (), db2))"

section \<open>The stalled-node reaper\<close>

definition stalled_error :: "string \<Rightarrow> int \<Rightarrow> go_error" where
  "stalled_error since minutes = Exec \<lparr>
     xe_Message = ''Node was left running since '' @ since @ '', past the '' @ itoa (nat minutes) @
       ''-minute stall threshold '' @ [CHR 0xE2, CHR 0x80, CHR 0x94] @
       '' the worker executing it most likely crashed or was evicted mid-node. Failed by the stalled-node reaper so the run reaches a terminal state; replay from the dead-letter queue once the cause is understood (the node may have already run a side effect).'',
     xe_Name = ''WorkerStalledError'', xe_Code = ''worker_stalled'', xe_StatusCode = 0, xe_Details = None, xe_WriteSide = False\<rparr>"

text \<open>The minutes are the threshold rounded to the nearest one.\<close>

definition reapStalledCandidate :: "int \<Rightarrow> run_node \<Rightarrow> run_db \<Rightarrow> run_db" where
  "reapStalledCandidate threshold r db =
     (let since = (case rn_StartedAt r of Some t \<Rightarrow> RFC3339Nano (of_millis t) | None \<Rightarrow> ''unknown'') in
      log_call DeliverParentNotifications
        (snd (FailNode (claim_of r) (stalled_error since ((threshold + 30000) div 60000)) db)))"

definition ReapStalledNodes :: "int \<Rightarrow> int \<Rightarrow> int \<Rightarrow> run_db \<Rightarrow> run_db" where
  "ReapStalledNodes tm threshold batch db =
     foldl (\<lambda>d r. reapStalledCandidate threshold r d) db
       (take (if batch \<le> 0 then 50 else nat batch) (FindStalledRunningNodes tm threshold db))"

section \<open>Cancellation\<close>

definition CancelRun :: "json \<Rightarrow> run_db \<Rightarrow> (engine_error + unit) \<times> run_db" where
  "CancelRun reason db =
     (let (cancelledAt, db0) = eventNow db; (cancelled, db1) = CancelRun_row db0 in
      if cancelled = 0 then (Err ErrRunAlreadyTerminal, db0)
      else
        let db2 = snd (CancelRunNodes (JObj [(''cancelled'', reason)]) cancelledAt db1);
            db3 = log_call (FinalizeSemanticMonitoring RCancelled cancelledAt) db2;
            db4 = log_call NotifyRunEvents (add_event [] ''run.cancelled'' cancelledAt db3) in
        (Ok (), log_call DeliverParentNotifications db4))"

end
