(* ===== verification/Resume.thy ===== *)
theory Resume
  imports Lifecycle
begin

text \<open>
  Waiting, resuming and reviving: the pause checkpoint, manual and timer resumption and approval
  deadlines (\<^verbatim>\<open>internal/engine/waiting.go\<close>), and the redrive of dead letters and failed nodes
  (\<^verbatim>\<open>redrive.go\<close>). Three verdicts of other packages are arguments: whether the signed resume token
  verifies, the schema of a form node, and whether a related rerun already ran the step.
\<close>

section \<open>The pause checkpoint\<close>

text \<open>
  \<^verbatim>\<open>MarkNodeWaiting\<close> from the resume token on: the timer or deadline to arm depends on the
  kind, and an approval with a deadline that cannot be read is refused.
\<close>

definition waiting_wakeup :: "jmap \<Rightarrow> int option \<Rightarrow> engine_error + (int \<times> string) option" where
  "waiting_wakeup metadata wakeAt =
     (let kind = get_str metadata ''kind'' in
      if kind = Some ''timer'' then Ok (map_option (\<lambda>t. (t, ''wait_until'')) wakeAt)
      else if kind = Some ''approval'' then
        (case get_str metadata ''deadlineAt'' of
           None \<Rightarrow> Ok None
         | Some d \<Rightarrow> (case parse_millis d of None \<Rightarrow> Err (InvalidDeadline d) | Some t \<Rightarrow> Ok (Some (t, ''approval_timeout''))))
      else if kind = Some ''tool_approval'' then Ok (map_option (\<lambda>t. (t, ''tool_approval_timeout'')) wakeAt)
      else Ok None)"

definition waiting_tx :: "claim \<Rightarrow> jmap \<Rightarrow> (int \<times> string) option \<Rightarrow> int \<Rightarrow> unit tx" where
  "waiting_tx c metadata wake checkpointAt db =
     (let (marked, db1) = MarkRunNodeWaiting (cl_NodeID c) (JObj [(''waiting'', JObj metadata)]) db in
      if marked = 0 then Err SkipCommit
      else
        let db2 = DeleteWakeup (cl_RowID c) (add_event (cl_NodeID c) ''node.waiting'' checkpointAt db1) in
        Ok ((), case wake of None \<Rightarrow> db2 | Some (t, reason) \<Rightarrow> UpsertWakeup (cl_RowID c) t reason db2))"

definition MarkNodeWaiting :: "claim \<Rightarrow> jmap \<Rightarrow> int option \<Rightarrow> run_db \<Rightarrow> (engine_error + unit) \<times> run_db" where
  "MarkNodeWaiting c metadata0 wakeAt db =
     (let (checkpointAt, db0) = eventNow db;
          metadata = AList.update ''waitingSince'' (JStr (format_millis checkpointAt))
            (MaterializeApprovalWaitingMetadata metadata0 (of_millis checkpointAt)) in
      case waiting_wakeup metadata wakeAt of
        Err e \<Rightarrow> (Err e, db0)
      | Ok wake \<Rightarrow>
          (case inCompletionTxCommitted (waiting_tx c metadata wake checkpointAt) db0 of
             (Err e, db1) \<Rightarrow> (Err e, db1)
           | (Ok _, db1) \<Rightarrow> (Ok (), db1)))"

section \<open>Resumption\<close>

definition find_node :: "workflow \<Rightarrow> string \<Rightarrow> node option" where
  "find_node w v = find (\<lambda>n. n_ID n = v) (wf_Nodes w)"

definition form_errors :: "(jmap \<Rightarrow> schema option) \<Rightarrow> bool \<Rightarrow> node \<Rightarrow> jmap \<Rightarrow> string \<Rightarrow> engine_error option" where
  "form_errors form_schema token_ok n inp token =
     (if n_Type n \<noteq> ''human_form'' then None
      else if token = [] then Some ErrResumeTokenRequired
      else if \<not> token_ok then Some ErrInvalidResumeToken
      else case form_schema (n_Config n) of
        None \<Rightarrow> None
      | Some s \<Rightarrow> (let problems = ValidateInputValue s (JObj inp) ''$'' in
          if problems \<noteq> [] then Some (InputValidationError problems) else None))"

definition resume_tx :: "(jmap \<Rightarrow> schema option) \<Rightarrow> bool \<Rightarrow> string \<Rightarrow> jmap \<Rightarrow> string \<Rightarrow> string \<Rightarrow> int \<Rightarrow> unit tx" where
  "resume_tx form_schema token_ok v inp token actor finishedAt db =
     (case find_node (r_Workflow db) v of
        None \<Rightarrow> Err (Abort ErrResumeNodeNotFound)
      | Some n \<Rightarrow> (case form_errors form_schema token_ok n inp token of
          Some e \<Rightarrow> Err (Abort e)
        | None \<Rightarrow>
            let captures = (n_Type n = ''human_form'' \<or> n_Type n = ''webhook'');
                out = (if captures then inp else []);
                (marked, db1) = MarkWaitingNodeSucceeded v (JObj [(''output'', JObj out)]) finishedAt db in
            if marked = 0 then Err (Abort ErrResumeConflict)
            else
              let row = (case find (\<lambda>r. rn_NodeID r = v) (r_Nodes db) of Some r \<Rightarrow> rn_ID r | None \<Rightarrow> []);
                  db2 = DeleteWakeup row db1;
                  db3 = (if actor \<noteq> [] \<and> (n_Type n = ''human_form'' \<or> inp \<noteq> [])
                         then log_call (RecordRunActor v ''resume'' actor) db2 else db2) in
              Ok ((), snd (scheduleDownstream finishedAt (add_event v ''node.resumed'' finishedAt db3)))))"

definition ResumeRunAs ::
  "(jmap \<Rightarrow> schema option) \<Rightarrow> bool \<Rightarrow> string \<Rightarrow> jmap \<Rightarrow> string \<Rightarrow> string \<Rightarrow> run_db \<Rightarrow> (engine_error + unit) \<times> run_db" where
  "ResumeRunAs form_schema token_ok v inp token actor db =
     (let (finishedAt, db0) = eventNow db in
      case inCompletionTxCommitted (resume_tx form_schema token_ok v inp token actor finishedAt) db0 of
        (Err e, db1) \<Rightarrow> (Err e, db1)
      | (Ok _, db1) \<Rightarrow> (Ok (), log_call DeliverParentNotifications db1))"

section \<open>Approval deadlines\<close>

definition waiting_object :: "run_node \<Rightarrow> jmap" where
  "waiting_object r = (case rn_State r of
     JObj m \<Rightarrow> (case map_of m ''waiting'' of Some (JObj w) \<Rightarrow> w | _ \<Rightarrow> [])
   | _ \<Rightarrow> [])"

definition escalated :: "jmap \<Rightarrow> string \<Rightarrow> int \<Rightarrow> jmap" where
  "escalated waiting escalateTo escalatedAt =
     (let previous = TrimSpace (str_or_empty waiting ''assignee'');
          w1 = AList.update ''assignee'' (JStr escalateTo) waiting;
          w2 = AList.update ''timeoutState'' (JStr ''escalated'') w1;
          w3 = AList.update ''escalatedAt'' (JStr (format_millis escalatedAt)) w2 in
      if previous \<noteq> [] then AList.update ''escalatedFrom'' (JStr previous) w3 else w3)"

definition escalate_tx :: "run_node \<Rightarrow> jmap \<Rightarrow> string \<Rightarrow> string \<Rightarrow> bool tx" where
  "escalate_tx r waiting deadlineAt escalateTo db =
     (let (escalatedAt, db0) = eventNow db;
          state = (case rn_State r of JObj m \<Rightarrow> m | _ \<Rightarrow> []);
          next = JObj (AList.update ''waiting'' (JObj (escalated waiting escalateTo escalatedAt)) state);
          (updated, db1) = EscalateWaitingApprovalDeadline (rn_NodeID r) deadlineAt next db0 in
      if updated = 0 then Err SkipCommit
      else Ok (True, add_event (rn_NodeID r) ''approval.escalated'' escalatedAt (DeleteWakeup (rn_ID r) db1)))"

definition timeout_error :: "bool \<Rightarrow> string \<Rightarrow> json" where
  "timeout_error rejected deadlineAt = JObj
     [(''code'', JStr (if rejected then ''approval_auto_rejected'' else ''approval_timed_out'')),
      (''reason'', JStr (if rejected then ''Approval automatically rejected at deadline'' else ''Approval deadline expired'')),
      (''deadlineAt'', JStr deadlineAt), (''onTimeout'', JStr (if rejected then ''auto_reject'' else ''fail''))]"

definition expire_tx :: "run_node \<Rightarrow> bool \<Rightarrow> string \<Rightarrow> bool tx" where
  "expire_tx r rejected deadlineAt db =
     (let (failedAt, db0) = eventNow db;
          (failed, db1) = FailWaitingApprovalDeadline (rn_NodeID r) deadlineAt (timeout_error rejected deadlineAt) failedAt db0 in
      if failed = 0 then Err SkipCommit
      else
        let db2 = add_event (rn_NodeID r) (if rejected then ''approval.auto_rejected'' else ''approval.timed_out'') failedAt
                    (DeleteWakeup (rn_ID r) db1) in
        Ok (True, flipRunTerminal RFailed failedAt db2))"

definition approval_tx :: "string \<Rightarrow> int \<Rightarrow> bool tx" where
  "approval_tx v expectedWakeAt db =
     (if r_Status db \<noteq> RRunning then Err SkipCommit
      else case find (\<lambda>r. rn_NodeID r = v) (r_Nodes db) of
        None \<Rightarrow> Err SkipCommit
      | Some r \<Rightarrow>
          if rn_Status r \<noteq> NWaiting then Err SkipCommit
          else let waiting = waiting_object r in
            if get_str waiting ''kind'' \<noteq> Some ''approval'' then Ok (False, DeleteWakeup (rn_ID r) db)
            else if map_of waiting ''timeoutState'' \<notin> {None, Some JNull} then Ok (False, DeleteWakeup (rn_ID r) db)
            else let deadlineAt = str_or_empty waiting ''deadlineAt'' in
              case parse_millis deadlineAt of
                None \<Rightarrow> Err (Abort (InvalidDeadline deadlineAt))
              | Some deadline \<Rightarrow>
                  if deadline \<noteq> expectedWakeAt then Ok (False, UpsertWakeup (rn_ID r) deadline ''approval_timeout'' db)
                  else let policy = str_or_empty waiting ''onTimeout'';
                           escalateTo = TrimSpace (str_or_empty waiting ''escalateTo'') in
                    if policy = ''escalate'' \<and> escalateTo \<noteq> [] then escalate_tx r waiting deadlineAt escalateTo db
                    else expire_tx r (policy = ''auto_reject'') deadlineAt db)"

definition processApprovalTimeout :: "string \<Rightarrow> int \<Rightarrow> run_db \<Rightarrow> (engine_error + bool) \<times> run_db" where
  "processApprovalTimeout v expectedWakeAt db =
     (case inCompletionTxCommitted (approval_tx v expectedWakeAt) db of
        (Err e, db1) \<Rightarrow> (Err e, db1)
      | (Ok res, db1) \<Rightarrow>
          (let applied = (res = Some True) in
           (Ok applied, if applied then log_call DeliverParentNotifications db1 else db1)))"

section \<open>Timers whose snapshot cannot be read\<close>

definition timer_tx :: "string \<Rightarrow> serr \<Rightarrow> bool tx" where
  "timer_tx v e db =
     (if r_Status db \<noteq> RRunning then Err SkipCommit
      else case find (\<lambda>r. rn_NodeID r = v) (r_Nodes db) of
        None \<Rightarrow> Err SkipCommit
      | Some r \<Rightarrow>
          let (failedAt, db0) = eventNow db;
              (failed, db1) = FailWaitingTimerNode v (serr_json e) failedAt db0 in
          if failed = 0 then Err SkipCommit
          else
            let db2 = insertDeadLetter (claim_of r) (serr_json e) (DeleteWakeup (rn_ID r) db1) in
            Ok (True, flipRunTerminal RFailed failedAt (add_event v ''node.failed'' failedAt db2)))"

definition failInvalidSnapshotTimer :: "string \<Rightarrow> go_error \<Rightarrow> run_db \<Rightarrow> (engine_error + bool) \<times> run_db" where
  "failInvalidSnapshotTimer v cause db =
     (case inCompletionTxCommitted (timer_tx v (serializeError cause)) db of
        (Err e, db1) \<Rightarrow> (Err e, db1)
      | (Ok res, db1) \<Rightarrow>
          (let applied = (res = Some True) in
           (Ok applied, if applied then log_call DeliverParentNotifications db1 else db1)))"

section \<open>Redrive\<close>

definition recordRedriveForApprovals :: "string \<Rightarrow> string \<Rightarrow> string \<Rightarrow> run_db \<Rightarrow> run_db" where
  "recordRedriveForApprovals v role actor db = log_call (RetireToolApprovals v) (log_call (RecordRunActor v role actor) db)"

record redrive_options =
  ro_Fix :: "workflow option"
  ro_RequestedBy :: string
  ro_Actor :: string

definition redrive_committed :: "dead_letter \<Rightarrow> redrive_options \<Rightarrow> run_db \<Rightarrow> run_db" where
  "redrive_committed d opts db =
     (let v = dl_NodeID d;
          actor = (if ro_Actor opts = [] then ro_RequestedBy opts else ro_Actor opts);
          role = (if ro_Fix opts \<noteq> None then ''fix'' else ''redrive'');
          db1 = StampRedriveRecoveryClaim v (dl_ID d) (recordRedriveForApprovals v role actor db);
          db2 = (case ro_Fix opts of None \<Rightarrow> db1 | Some w \<Rightarrow> log_call UpdateRunWorkflowSnapshot (db1\<lparr>r_Workflow := w\<rparr>));
          db3 = snd (ReviveFailedRun db2);
          db4 = (if r_ReplayMode db3 = [] then log_call (InsertRecoveryItem (dl_ID d)) db3 else db3);
          (redrivenAt, db5) = eventNow db4 in
      log_call NotifyRunEvents (log_call (NotifyWake 1) (add_event v ''node.redriven'' redrivenAt db5)))"

definition RedriveDeadLetterWithOptions ::
  "string \<Rightarrow> bool \<Rightarrow> redrive_options \<Rightarrow> run_db \<Rightarrow> (engine_error + unit) \<times> run_db" where
  "RedriveDeadLetterWithOptions i superseded opts db =
     (case find (\<lambda>d. dl_ID d = i) (r_DeadLetters db) of
        None \<Rightarrow> (Err ErrDeadLetterNotFound, db)
      | Some d \<Rightarrow>
          if superseded then (Err ErrRedriveRerunExists, db)
          else let (claimed, db1) = ClaimDeadLetterReplay i db in
            if claimed = 0 then (Err ErrRedriveConflict, db)
            else let (t0, db2) = eventNow db1; (rows, db3) = RedriveFailedRunNode (dl_NodeID d) t0 db2 in
              if rows = 0 then (Err ErrRedriveConflict, db)
              else let db4 = redrive_committed d opts db3 in
                (Ok (), if r_ReplayMode db4 = [] then log_call (DispatchAlert ''recovery_item.created'') db4 else db4))"

definition RedriveRunNode :: "string \<Rightarrow> bool \<Rightarrow> string \<Rightarrow> run_db \<Rightarrow> (engine_error + unit) \<times> run_db" where
  "RedriveRunNode v superseded actor db =
     (if superseded then (Err ErrRedriveRerunExists, db)
      else let (t0, db1) = eventNow db; (rows, db2) = RedriveFailedRunNode v t0 db1 in
        if rows = 0 then (Err ErrRedriveConflict, db)
        else let db3 = snd (ReviveFailedRun (recordRedriveForApprovals v ''redrive'' actor db2));
                 (redrivenAt, db4) = eventNow db3 in
          (Ok (), log_call NotifyRunEvents (log_call (NotifyWake 1) (add_event v ''node.redriven'' redrivenAt db4))))"

end
