(* ===== verification/Contracts.thy ===== *)
theory Contracts
  imports Resume
begin

text \<open>
  What an operation of the engine may do to a run is decided by the guarded updates it is made of. The
  interfaces of this theory say so: a preorder on states that every single update respects is
  respected by every operation, whatever the order and the number of updates it makes. The laws are
  the provider's side, one per statement of \<^verbatim>\<open>internal/store\<close>; the lemmas are the client's side, one
  per operation of \<^verbatim>\<open>internal/engine\<close>. The theory that follows instantiates the preorder.
\<close>

section \<open>Scheduling\<close>

locale schedule_contract =
  fixes K :: "run_db \<Rightarrow> run_db \<Rightarrow> bool"
  assumes refl: "K db db"
    and trans: "K a b \<Longrightarrow> K b c \<Longrightarrow> K a c"
    and clock: "K db (snd (eventNow db))"
    and event: "K db (add_event v ty tm db)"
    and call: "K db (log_call k db)"
    and skip: "K db (snd (SkipRunNode v st tm db))"
    and queue: "K db (snd (QueueRunNode v tm db))"
    and demote: "K db (snd (DemoteQueuedRunNodes db))"
    and settle: "s \<in> {RSucceeded, RFailed} \<Longrightarrow> K db (snd (MarkRunTerminalFromRunning s db))"
begin

text \<open>The laws as rules that extend a chain of updates on the right.\<close>

lemmas chain0 = trans [OF _ clock] trans [OF _ event] trans [OF _ call] trans [OF _ skip] trans [OF _ queue]
  trans [OF _ demote] trans [OF _ settle]

lemmas expand = Let_def case_prod_beta

lemma foldl_keeps: "(\<And>d x. x \<in> set xs \<Longrightarrow> K d (f d x)) \<Longrightarrow> K a b \<Longrightarrow> K a (foldl f b xs)"
proof (induction xs arbitrary: b)
  case (Cons x xs)
  have "K a (f b x)" using Cons.prems trans by (metis list.set_intros(1))
  with Cons show ?case by simp
qed simp

lemma skip_node_keeps: "K (sn_Db s) (sn_Db (skip_node d v s))"
  by (auto simp: skip_node_def expand intro!: chain0 refl)

lemma queue_node_keeps: "K (sn_Db s) (sn_Db (fst (queue_node v s)))"
  by (auto simp: queue_node_def expand intro!: chain0 refl)

lemma scan_node_keeps: "K (sn_Db s) (sn_Db (fst (scan_node w v s)))"
  by (simp add: scan_node_def Let_def refl skip_node_keeps queue_node_keeps)

lemma scan_pass_keeps: "K (sn_Db s) (sn_Db (fst (scan_pass w vs s)))"
  by (induction vs arbitrary: s) (auto simp: refl expand intro: trans scan_node_keeps)

lemma scan_loop_keeps: "K (sn_Db s) (sn_Db (scan_loop w s))"
proof (induction w s rule: scan_loop.induct)
  case (1 w s)
  obtain s1 c1 where run: "scan_pass w (node_ids (wf_Nodes w)) s = (s1, c1)" by fastforce
  with scan_pass_keeps [of s w "node_ids (wf_Nodes w)"] have "K (sn_Db s) (sn_Db s1)" by simp
  with 1 [OF run [symmetric]] show ?case by (subst scan_loop.simps) (auto simp: run intro: trans)
qed

lemma flipRunTerminal_keeps: "s \<in> {RSucceeded, RFailed} \<Longrightarrow> K db (flipRunTerminal s tm db)"
  by (auto simp: flipRunTerminal_def expand intro!: chain0 refl)

lemma rollup_keeps: "K (sn_Db s) (snd (rollup s tm))"
  by (auto simp: rollup_def Let_def appendStatusChecked_def
      intro!: trans [OF _ event] trans [OF _ flipRunTerminal_keeps] trans [OF _ call] refl)

lemma scheduleDownstream_keeps: "K db (snd (scheduleDownstream tm db))"
proof -
  let ?s = "scan_loop (r_Workflow db) (start_scan db)"
  have "K db (sn_Db ?s)" using scan_loop_keeps [of "start_scan db" "r_Workflow db"] by (simp add: start_scan_def)
  then have "K db (log_call (NotifyWake (sn_Queued ?s)) (sn_Db ?s))" "K db (snd (rollup ?s tm))"
    by (rule trans [OF _ call], rule trans [OF _ rollup_keeps])
  then show ?thesis by (simp add: scheduleDownstream_def Let_def refl)
qed

end

section \<open>The operations of workers, operators and sweepers\<close>

locale engine_contract = schedule_contract +
  assumes wakeup: "K db (UpsertWakeup row t why db)"
    and unwake: "K db (DeleteWakeup row db)"
    and mark: "K db (snd (MarkLockedNodesRunning ids tm db))"
    and complete: "K db (snd (CompleteRunNode v st tm db))"
    and fail: "K db (snd (FailRunNode v err tm db))"
    and requeue: "1 < n \<Longrightarrow> n \<le> 10 \<Longrightarrow> K db (snd (RequeueRunNodeForRetry v n tm db))"
    and wait: "K db (snd (MarkRunNodeWaiting v st db))"
    and cancel: "K db (snd (CancelRunNodes st tm db))"
    and resume: "K db (snd (MarkWaitingNodeSucceeded v st tm db))"
    and expire: "K db (snd (FailWaitingApprovalDeadline v dl err tm db))"
    and escalate: "K db (snd (EscalateWaitingApprovalDeadline v dl st db))"
    and timer: "K db (snd (FailWaitingTimerNode v err tm db))"
    and cancel_run: "K db (snd (CancelRun_row db))"
    and dead_letter: "K db (InsertDeadLetter (fst (newID db)) v n err tm (snd (eventNow (snd (newID db)))))"
    and converge: "K db (ConvergeDeadLetterReplayed i db)"
begin

lemmas chain = chain0 trans [OF _ wakeup] trans [OF _ unwake] trans [OF _ mark] trans [OF _ complete] trans [OF _ fail]
  trans [OF _ requeue] trans [OF _ wait] trans [OF _ cancel] trans [OF _ resume] trans [OF _ expire]
  trans [OF _ escalate] trans [OF _ timer] trans [OF _ cancel_run] trans [OF _ dead_letter] trans [OF _ converge]

lemma tx_keeps:
  assumes "\<And>a db'. handler db = Inr (a, db') \<Longrightarrow> K db db'"
  shows "K db (snd (inCompletionTxCommitted handler db))"
  using assms
  by (auto simp: inCompletionTxCommitted_def refl intro: trans [OF _ call] split: sum.split abort.split)

lemma claimBatch_keeps: "K db (snd (claimBatch b tm db))"
  by (auto simp: claimBatch_def expand intro!: foldl_keeps chain refl)

lemma insertDeadLetter_keeps: "K db (insertDeadLetter c err db)"
  by (auto simp: insertDeadLetter_def expand intro!: chain refl)

lemma routing_keeps: "K db (recordRoutingOutcome c r ok db)"
  by (auto simp: recordRoutingOutcome_def intro!: chain refl)

lemma recordRecoveryImpact_keeps: "K db (recordRecoveryImpact c t db)"
  by (auto simp: recordRecoveryImpact_def intro!: chain refl split: option.split)

lemmas chain2 = chain trans [OF _ routing_keeps] trans [OF _ recordRecoveryImpact_keeps]
  trans [OF _ insertDeadLetter_keeps] trans [OF _ scheduleDownstream_keeps] trans [OF _ flipRunTerminal_keeps]

lemma fail_tx_keeps: "fail_tx c e t db = Inr (a, db') \<Longrightarrow> K db db'"
  by (auto simp: fail_tx_def expand intro!: chain2 refl split: if_splits)

lemma afterTerminalFailure_keeps: "K db (afterTerminalFailure c db)"
  by (auto simp: afterTerminalFailure_def Let_def intro!: chain refl)

lemma FailNode_keeps: "K db (snd (FailNode c err db))"
proof -
  let ?r = "inCompletionTxCommitted (fail_tx c (serializeError err) (fst (eventNow db))) (snd (eventNow db))"
  have "K db (snd ?r)" by (rule trans [OF clock tx_keeps]) (rule fail_tx_keeps)
  then show ?thesis
    by (cases ?r) (auto simp: FailNode_def expand intro!: chain trans [OF _ afterTerminalFailure_keeps]
        split: sum.splits option.splits)
qed

lemma retry_tx_keeps: "retry_tx c a t u db = Inr (x, db') \<Longrightarrow> 1 < a \<Longrightarrow> a \<le> 10 \<Longrightarrow> K db db'"
  by (auto simp: retry_tx_def expand intro!: chain2 refl split: if_splits)

lemma RetryOrFail_keeps:
  assumes "1 \<le> cl_Attempt c"
  shows "K db (snd (RetryOrFail c n err rnd db))"
proof (cases "cl_Attempt c \<ge> retry_limit (parseRetryPolicy (n_Config n)) \<or>
    \<not> shouldRetry (serializeError err) (parseRetryPolicy (n_Config n))")
  case True
  then show ?thesis by (simp add: RetryOrFail_def FailNode_keeps)
next
  case False
  define wakeAt where "wakeAt = fst (eventNow db) + \<lfloor>computeRetryDelay (cl_Attempt c + 1) (parseRetryPolicy (n_Config n)) rnd\<rfloor>"
  let ?db = "snd (eventNow (snd (eventNow db)))"
  let ?r = "inCompletionTxCommitted (retry_tx c (cl_Attempt c + 1) wakeAt (fst (eventNow (snd (eventNow db))))) ?db"
  have "cl_Attempt c + 1 \<le> 10" using False parseRetryPolicy_limit [of "n_Config n"]
    by (auto simp: retry_limit_def split: option.splits if_splits)
  then have "K db (snd ?r)"
    using assms by (intro trans [OF clock trans [OF clock tx_keeps]]) (auto intro: retry_tx_keeps)
  with False show ?thesis
    by (cases ?r) (auto simp: RetryOrFail_def expand wakeAt_def split: sum.splits)
qed

lemma ReapStalledNodes_keeps: "K db (ReapStalledNodes tm th b db)"
  by (auto simp: ReapStalledNodes_def reapStalledCandidate_def Let_def intro!: foldl_keeps refl chain FailNode_keeps)

lemma CancelRun_keeps: "K db (snd (CancelRun reason db))"
  by (auto simp: CancelRun_def expand intro!: chain refl)

lemma MarkNodeWaiting_keeps: "K db (snd (MarkNodeWaiting c meta w db))"
proof -
  have "waiting_tx c m wk t d = Inr (x, d') \<Longrightarrow> K d d'" for m wk t d x d'
    by (auto simp: waiting_tx_def expand intro!: chain refl split: if_splits option.splits)
  then have tx: "K (snd (eventNow db)) (snd (inCompletionTxCommitted (waiting_tx c m wk t) (snd (eventNow db))))" for m wk t
    by (rule tx_keeps)
  show ?thesis
    using trans [OF clock tx]
    by (auto simp: MarkNodeWaiting_def expand clock split: sum.split prod.split)
qed

lemma resume_tx_keeps: "resume_tx fs ok v inp tok actor t db = Inr (x, db') \<Longrightarrow> K db db'"
  by (auto simp: resume_tx_def expand intro!: chain2 refl split: if_splits option.splits)

lemma ResumeRunAs_keeps: "K db (snd (ResumeRunAs fs ok v inp tok actor db))"
proof -
  have "K db (snd (inCompletionTxCommitted (resume_tx fs ok v inp tok actor (fst (eventNow db))) (snd (eventNow db))))"
    by (rule trans [OF clock tx_keeps]) (rule resume_tx_keeps)
  then show ?thesis by (auto simp: ResumeRunAs_def expand intro!: chain split: sum.split prod.split)
qed

lemma approval_tx_keeps: "approval_tx v t db = Inr (x, db') \<Longrightarrow> K db db'"
  by (auto simp: approval_tx_def escalate_tx_def expire_tx_def expand intro!: chain2 refl
      split: if_splits option.splits)

lemma processApprovalTimeout_keeps: "K db (snd (processApprovalTimeout v t db))"
proof -
  have "K db (snd (inCompletionTxCommitted (approval_tx v t) db))" by (rule tx_keeps) (rule approval_tx_keeps)
  then show ?thesis by (auto simp: processApprovalTimeout_def Let_def intro!: chain split: sum.split prod.split)
qed

lemma timer_tx_keeps: "timer_tx v e db = Inr (x, db') \<Longrightarrow> K db db'"
  by (auto simp: timer_tx_def expand intro!: chain2 refl split: if_splits option.splits)

lemma failInvalidSnapshotTimer_keeps: "K db (snd (failInvalidSnapshotTimer v cause db))"
proof -
  have "K db (snd (inCompletionTxCommitted (timer_tx v (serializeError cause)) db))"
    by (rule tx_keeps) (rule timer_tx_keeps)
  then show ?thesis by (auto simp: failInvalidSnapshotTimer_def Let_def intro!: chain split: sum.split prod.split)
qed

text \<open>
  A completion, given that its hooks and the recording of its violations respect the preorder. The
  recording is a hypothesis because it is the one update that may park a run.
\<close>

lemma completion_tx_keeps:
  assumes "\<And>t d. K d (co_beforeSuccess opts t d)" and "\<And>t d. K d (co_beforeDownstream opts t d)"
    and "\<And>d. vs \<noteq> [] \<Longrightarrow> K d (snd (persistSemanticViolations c vs t d))"
    and "completion_tx c out vs t opts db = Inr (x, db')"
  shows "K db db'"
proof -
  define db4 where "db4 = (let db3 = co_beforeSuccess opts t (DeleteWakeup (cl_RowID c) (recordRoutingOutcome c 1 True
      (snd (CompleteRunNode (cl_NodeID c) (JObj [(''output'', out)]) t db)))) in
    if co_skipSuccessEvent opts then db3 else add_event (cl_NodeID c) ''node.succeeded'' t db3)"
  define db6 where "db6 = (let db5 = recordRecoveryImpact c t db4 in
    if vs \<noteq> [] then snd (persistSemanticViolations c vs t db5) else db5)"
  have "K db db4" by (auto simp: db4_def Let_def intro!: chain2 trans [OF _ assms(1)] refl)
  then have "K db (recordRecoveryImpact c t db4)" by (rule trans [OF _ recordRecoveryImpact_keeps])
  then have "K db db6" unfolding db6_def Let_def using assms(3) by (auto intro: trans [rotated])
  then have "K db (co_beforeDownstream opts t db6)" using assms(2) trans by blast
  moreover have "db' = co_beforeDownstream opts t db6 \<or> db' = snd (scheduleDownstream t (co_beforeDownstream opts t db6))"
    using assms(4) unfolding completion_tx_def db6_def db4_def expand
    by (auto split: if_splits)
  ultimately show ?thesis using trans scheduleDownstream_keeps by blast
qed

lemma completeNode_keeps:
  assumes "\<And>t d. K d (co_beforeSuccess opts t d)" and "\<And>t d. K d (co_beforeDownstream opts t d)"
    and "\<And>d vs t. vs \<noteq> [] \<Longrightarrow> vs = evaluateSemanticOutcome c (if out = JNull then JObj [] else out) db \<Longrightarrow>
      K d (snd (persistSemanticViolations c vs t d))"
  shows "K db (snd (completeNode c out opts db))"
proof -
  let ?out = "if out = JNull then JObj [] else out"
  let ?vs = "evaluateSemanticOutcome c ?out db"
  let ?r = "inCompletionTxCommitted (completion_tx c ?out ?vs (fst (eventNow db)) opts) (snd (eventNow db))"
  have "K db (snd ?r)"
    by (rule trans [OF clock tx_keeps], rule completion_tx_keeps [OF assms]) simp_all
  then show ?thesis
    by (cases ?r) (auto simp: completeNode_def expand intro!: chain split: sum.splits)
qed

lemma skip_losers_keeps: "K db (skip_losers c plan t db)"
  by (auto simp: skip_losers_def skip_loser_def expand intro!: foldl_keeps chain refl)

text \<open>Without a recovery contract there is nothing to record.\<close>

lemma CompleteNode_keeps_clean: "wf_Contract (r_Workflow db) = None \<Longrightarrow> K db (snd (CompleteNode c out db))"
  by (auto simp: CompleteNode_def evaluateSemanticOutcome_def intro!: completeNode_keeps refl)

lemma CompleteRouterNode_keeps_clean: "wf_Contract (r_Workflow db) = None \<Longrightarrow> K db (snd (CompleteRouterNode c plan db))"
  by (auto simp: CompleteRouterNode_def evaluateSemanticOutcome_def intro!: completeNode_keeps event skip_losers_keeps)

end

section \<open>Completions that may park the run\<close>

locale completion_contract = engine_contract +
  assumes case_row: "K db (InsertRecoveryCase cs db)"
    and outcome: "K db (SetRunSemanticOutcome q s n db)"
begin

lemma persistSemanticViolations_keeps: "K db (snd (persistSemanticViolations c vs t db))"
  by (auto simp: persistSemanticViolations_def persist_violation_def Let_def
      intro!: trans [OF _ outcome] foldl_keeps refl chain trans [OF _ case_row])

lemma CompleteNode_keeps: "K db (snd (CompleteNode c out db))"
  by (auto simp: CompleteNode_def intro!: completeNode_keeps persistSemanticViolations_keeps refl)

lemma CompleteRouterNode_keeps: "K db (snd (CompleteRouterNode c plan db))"
  by (auto simp: CompleteRouterNode_def intro!: completeNode_keeps persistSemanticViolations_keeps event skip_losers_keeps)

end

section \<open>Redrive\<close>

locale redrive_contract = engine_contract +
  assumes redrive: "K db (snd (RedriveFailedRunNode v tm db))"
    and stamp: "K db (StampRedriveRecoveryClaim v i db)"
    and revive: "K db (snd (ReviveFailedRun db))"
    and claim_replay: "K db (snd (ClaimDeadLetterReplay i db))"
    and snapshot: "K db (db\<lparr>r_Workflow := w\<rparr>)"
begin

lemmas chain3 = chain2 trans [OF _ redrive] trans [OF _ stamp] trans [OF _ revive] trans [OF _ claim_replay]
  trans [OF _ snapshot]

lemma redrive_committed_keeps: "K db (redrive_committed d opts db)"
  by (auto simp: redrive_committed_def recordRedriveForApprovals_def expand intro!: chain3 refl split: option.split)

lemma RedriveDeadLetterWithOptions_keeps: "K db (snd (RedriveDeadLetterWithOptions i late opts db))"
  by (auto simp: RedriveDeadLetterWithOptions_def expand
      intro!: chain3 trans [OF _ redrive_committed_keeps] refl split: option.split)

lemma RedriveRunNode_keeps: "K db (snd (RedriveRunNode v late actor db))"
  by (auto simp: RedriveRunNode_def recordRedriveForApprovals_def expand intro!: chain3 refl)

end

text \<open>Everything the engine does.\<close>

locale full_contract = completion_contract + redrive_contract

end
