(* ===== verification/Start.thy ===== *)
theory Start
  imports Lifecycle
begin

text \<open>
  The start of a run (\<^verbatim>\<open>internal/engine/start.go\<close>): the payload is completed with the declared defaults
  and checked, and one transaction creates the run row, a row per node (the roots queued, the rest
  pending), the first events and the wake-up. A rerun queues one node only and seeds the others from
  its plan; a step test skips what lies outside the step's ancestors. The rows of other runs that a
  start reads, and the claims on the trigger event and the idempotency key, are arguments.
\<close>

section \<open>Relatives of a node\<close>

definition collectRelatives :: "workflow \<Rightarrow> string \<Rightarrow> bool \<Rightarrow> string list" where
  "collectRelatives w v ancestors =
     (let adjacency = (if ancestors then map (\<lambda>e. (e_To e, e_From e)) (wf_Edges w) else map (\<lambda>e. (e_From e, e_To e)) (wf_Edges w)) in
      walk Queue adjacency (nexts adjacency v) [])"

definition edges_of :: "workflow \<Rightarrow> (string \<times> string) set" where
  "edges_of w = (\<lambda>e. (e_From e, e_To e)) ` set (wf_Edges w)"

lemma set_relatives:
  "set (collectRelatives w v ancestors) =
     (if ancestors then {u. (u, v) \<in> (edges_of w)\<^sup>+} else {u. (v, u) \<in> (edges_of w)\<^sup>+})"
proof -
  let ?ps = "if ancestors then map (\<lambda>e. (e_To e, e_From e)) (wf_Edges w) else map (\<lambda>e. (e_From e, e_To e)) (wf_Edges w)"
  have "set (collectRelatives w v ancestors) = (set ?ps)\<^sup>* `` {u. (v, u) \<in> set ?ps}"
    unfolding collectRelatives_def Let_def by (subst set_walk) (simp_all add: set_nexts_eq)
  then have "set (collectRelatives w v ancestors) = {u. (v, u) \<in> (set ?ps)\<^sup>+}" by (simp add: step_image_trancl)
  moreover have "set (map (\<lambda>e. (e_To e, e_From e)) (wf_Edges w)) = (edges_of w)\<inverse>" by (force simp: edges_of_def)
  ultimately show ?thesis by (simp add: edges_of_def trancl_converse)
qed

section \<open>The request\<close>

record node_seed =
  ns_Status :: node_status
  ns_State :: json

record rerun_seed =
  rs_SourceRunID :: string
  rs_NodeID :: string
  rs_Nodes :: "(string \<times> node_seed) list"
  rs_PlannedAttempts :: "int option"
  rs_PlannedFinishedAt :: "int option"

record draft_test =
  dt_StepNodeID :: string

record start_input =
  si_OrgID :: string
  si_Workflow :: workflow
  si_Input :: json
  si_ReplayMode :: string
  si_ServicePrincipal :: string
  si_TriggerEventID :: string
  si_IdempotencyKey :: string
  si_ParentLinkKind :: string
  si_Rerun :: "rerun_seed option"
  si_DraftTest :: "draft_test option"

text \<open>
  What the start transaction reads of other rows: the source run's status and selected row, the run
  that holds the idempotency key, whether the trigger event was still unclaimed; and the process's
  clock and source of identifiers.
\<close>

record start_world =
  sw_SourceStatus :: run_status
  sw_SourceAttempts :: "int option"
  sw_SourceFinishedAt :: "int option"
  sw_IdempotencyHolder :: "string option"
  sw_TriggerClaimed :: bool
  sw_Clock :: "nat \<Rightarrow> int"
  sw_NewID :: "nat \<Rightarrow> string"

datatype start_error =
    StartInputInvalid "input_error list"
  | ErrRerunSourceOpen
  | ErrStartIdempotencyReplay string
  | TriggerEventStartConflict

section \<open>The transaction\<close>

definition rerunRowMoved :: "rerun_seed \<Rightarrow> start_world \<Rightarrow> bool" where
  "rerunRowMoved seed sw \<longleftrightarrow>
     sw_SourceAttempts sw \<noteq> rs_PlannedAttempts seed \<or>
     (sw_SourceFinishedAt sw = None) \<noteq> (rs_PlannedFinishedAt seed = None) \<or>
     (sw_SourceFinishedAt sw \<noteq> None \<and> sw_SourceFinishedAt sw \<noteq> rs_PlannedFinishedAt seed)"

definition draftStepScope :: "start_input \<Rightarrow> string list option" where
  "draftStepScope si = (case si_DraftTest si of
     None \<Rightarrow> None
   | Some d \<Rightarrow> if dt_StepNodeID d = [] then None
               else Some (dt_StepNodeID d # collectRelatives (si_Workflow si) (dt_StepNodeID d) True))"

definition start_roots :: "start_input \<Rightarrow> string list" where
  "start_roots si =
     (let declared = (case si_Rerun si of
            None \<Rightarrow> roots (wf_Nodes (si_Workflow si)) (wf_Edges (si_Workflow si))
          | Some seed \<Rightarrow> [rs_NodeID seed]) in
      case draftStepScope si of None \<Rightarrow> declared | Some scope \<Rightarrow> filter (\<lambda>v. v \<in> set scope) declared)"

definition resolved_input :: "start_input \<Rightarrow> start_error + json" where
  "resolved_input si =
     (let input = (if si_Input si = JNull then JObj [] else si_Input si) in
      case wf_Inputs (si_Workflow si) of
        None \<Rightarrow> Ok input
      | Some s \<Rightarrow> (let filled = ApplyInputDefaults s input; errs = ValidateInputValue s filled ''$'' in
          if errs \<noteq> [] then Err (StartInputInvalid errs) else Ok filled))"

definition initial_row :: "start_input \<Rightarrow> start_world \<Rightarrow> int \<Rightarrow> nat \<times> node \<Rightarrow> run_node" where
  "initial_row si sw published inode =
     (let v = n_ID (snd inode);
          seeded = (case si_Rerun si of None \<Rightarrow> None | Some seed \<Rightarrow> map_of (rs_Nodes seed) v);
          (status, attempts, state) =
            (if v \<in> set (start_roots si) then (NQueued, 1, JObj [])
             else case draftStepScope si of
               Some scope \<Rightarrow>
                 if v \<notin> set scope then (NSkipped, 0, JObj [(''skipped'', JObj [(''reason'', JStr ''outside_draft_step'')])])
                 else (case seeded of Some n \<Rightarrow> (ns_Status n, 0, ns_State n) | None \<Rightarrow> (NPending, 0, JObj []))
             | None \<Rightarrow> (case seeded of Some n \<Rightarrow> (ns_Status n, 0, ns_State n) | None \<Rightarrow> (NPending, 0, JObj []))) in
      \<lparr>rn_ID = sw_NewID sw (fst inode), rn_NodeID = v, rn_Status = status, rn_Attempts = attempts,
       rn_State = state, rn_Error = JNull, rn_EnqueuedAt = (if status = NQueued then published else 0), rn_StartedAt = None,
       rn_FinishedAt = None, rn_RecoveryDeadLetter = None\<rparr>)"

definition start_events :: "start_input \<Rightarrow> int \<Rightarrow> event list" where
  "start_events si startedAt =
     \<lparr>ev_Node = [], ev_Type = ''run.started'', ev_At = startedAt\<rparr> #
     map (\<lambda>(i, n). \<lparr>ev_Node = n_ID n, ev_Type = ''node.queued'', ev_At = startedAt + int i\<rparr>)
       (enumerate 1 (filter (\<lambda>n. n_ID n \<in> set (start_roots si)) (wf_Nodes (si_Workflow si))))"

text \<open>
  The new run's state. Identifier 0 is the run's own; the rows take the next ones in document order.
  The queue clock of the rows is the first reading, the events' start the second.
\<close>

definition new_run :: "start_input \<Rightarrow> start_world \<Rightarrow> run_db" where
  "new_run si sw =
     (let w = si_Workflow si in
      \<lparr>r_Status = RRunning, r_OutcomeStatus = [], r_ViolationCount = 0, r_OrgID = si_OrgID si,
       r_ReplayMode = si_ReplayMode si,
       r_ParentLinkKind = (if si_Rerun si \<noteq> None then ''rerun'' else si_ParentLinkKind si),
       r_Workflow = w,
       r_Nodes = map (initial_row si sw (sw_Clock sw 0)) (enumerate 1 (wf_Nodes w)),
       r_Wakeups = (\<lambda>_. None),
       r_Events = start_events si (sw_Clock sw 1),
       r_DeadLetters = [], r_Cases = [],
       r_Calls = (if si_ServicePrincipal si = [] then [] else [RecordRunActor [] ''service'' (si_ServicePrincipal si)]) @
         [NotifyWake (max (length (remdups (start_roots si))) 1), NotifyRunEvents],
       r_Clock = sw_Clock sw, r_Reads = 2, r_NewID = sw_NewID sw, r_IDs = Suc (length (wf_Nodes w))\<rparr>)"

definition StartRun :: "start_input \<Rightarrow> start_world \<Rightarrow> start_error + run_db" where
  "StartRun si sw =
     bindE (resolved_input si) (\<lambda>_.
       case (case si_Rerun si of
               None \<Rightarrow> False
             | Some seed \<Rightarrow> \<not> terminal (sw_SourceStatus sw) \<or> rerunRowMoved seed sw) of
         True \<Rightarrow> Err ErrRerunSourceOpen
       | False \<Rightarrow>
           (case (if si_IdempotencyKey si = [] then None else sw_IdempotencyHolder sw) of
              Some original \<Rightarrow> Err (ErrStartIdempotencyReplay original)
            | None \<Rightarrow> if si_TriggerEventID si \<noteq> [] \<and> \<not> sw_TriggerClaimed sw then Err TriggerEventStartConflict
                      else Ok (new_run si sw)))"

section \<open>The first state of a run\<close>

lemma StartRun_OkD: "StartRun si sw = Ok db \<Longrightarrow> db = new_run si sw"
  by (auto simp: StartRun_def result_simps split: if_splits option.splits bool.splits)

lemma initial_row_fields [simp]:
  "rn_NodeID (initial_row si sw t x) = n_ID (snd x)" "rn_StartedAt (initial_row si sw t x) = None"
  "rn_ID (initial_row si sw t x) = sw_NewID sw (fst x)"
  by (simp_all add: initial_row_def Let_def split: prod.split)

lemma new_run_rows: "map rn_NodeID (r_Nodes (new_run si sw)) = node_ids (wf_Nodes (si_Workflow si))"
proof -
  have "map (rn_NodeID \<circ> initial_row si sw t) (enumerate 1 ns) = map n_ID (map snd (enumerate 1 ns))" for t ns
    unfolding map_map by (simp add: comp_def)
  then show ?thesis unfolding new_run_def Let_def node_ids_def by simp
qed

text \<open>A plain start: neither a rerun nor a step test.\<close>

definition plain_start :: "start_input \<Rightarrow> bool" where
  "plain_start si \<longleftrightarrow> si_Rerun si = None \<and> draftStepScope si = None"

lemma initial_row_plain:
  "plain_start si \<Longrightarrow> rn_Status (initial_row si sw t x) =
     (if n_ID (snd x) \<in> set (roots (wf_Nodes (si_Workflow si)) (wf_Edges (si_Workflow si))) then NQueued else NPending)"
  by (simp add: initial_row_def Let_def plain_start_def start_roots_def)

end
