(* ===== verification/Invariants.thy ===== *)
theory Invariants
  imports Contracts Start
begin

text \<open>
  The whole engine as a transition system: a run with the claims its workers hold, and one labelled
  step per operation. Claims are never taken back, so late, duplicated and stale deliveries are steps
  too. The contracts of the previous theory are instantiated here, and what they preserve is lifted to
  every reachable state by rule induction.
\<close>

section \<open>Rows\<close>

definition rows_kept :: "(run_node \<Rightarrow> run_node \<Rightarrow> bool) \<Rightarrow> run_db \<Rightarrow> run_db \<Rightarrow> bool" where
  "rows_kept R a b \<longleftrightarrow> list_all2 R (r_Nodes a) (r_Nodes b)"

text \<open>What the guarded updates do to one row; the laws follow the conditions of the statements.\<close>

locale row_contract =
  fixes R :: "run_node \<Rightarrow> run_node \<Rightarrow> bool"
  assumes row_refl: "R r r"
    and row_trans: "R a b \<Longrightarrow> R b c \<Longrightarrow> R a c"
    and row_start: "rn_Status r = NQueued \<Longrightarrow> R r (r\<lparr>rn_Status := NRunning, rn_StartedAt := Some tm\<rparr>)"
    and row_succeed: "rn_Status r \<in> {NRunning, NWaiting} \<Longrightarrow>
      R r (r\<lparr>rn_Status := NSucceeded, rn_State := st, rn_FinishedAt := Some tm\<rparr>)"
    and row_fail: "rn_Status r \<in> {NRunning, NWaiting} \<Longrightarrow>
      R r (r\<lparr>rn_Status := NFailed, rn_Error := st, rn_FinishedAt := Some tm\<rparr>)"
    and row_requeue: "rn_Status r = NRunning \<Longrightarrow> 1 < n \<Longrightarrow> n \<le> 10 \<Longrightarrow>
      R r (r\<lparr>rn_Status := NQueued, rn_Attempts := n, rn_EnqueuedAt := tm\<rparr>)"
    and row_wait: "rn_Status r = NRunning \<Longrightarrow> R r (r\<lparr>rn_Status := NWaiting, rn_State := st\<rparr>)"
    and row_skip: "rn_Status r = NPending \<Longrightarrow>
      R r (r\<lparr>rn_Status := NSkipped, rn_State := st, rn_FinishedAt := Some tm\<rparr>)"
    and row_queue: "rn_Status r = NPending \<Longrightarrow>
      R r (r\<lparr>rn_Status := NQueued, rn_Attempts := 1, rn_EnqueuedAt := tm\<rparr>)"
    and row_demote: "rn_Status r = NQueued \<Longrightarrow> R r (r\<lparr>rn_Status := NPending, rn_Attempts := 0\<rparr>)"
    and row_cancel: "rn_Status r \<in> {NPending, NQueued, NWaiting} \<Longrightarrow>
      R r (r\<lparr>rn_Status := NCancelled, rn_State := st, rn_FinishedAt := Some tm\<rparr>)"
    and row_escalate: "rn_Status r = NWaiting \<Longrightarrow> R r (r\<lparr>rn_State := st\<rparr>)"
begin

lemma cas_rows: "(\<And>r. P r \<Longrightarrow> R r (f r)) \<Longrightarrow> rows_kept R db (snd (cas P f db))"
  by (auto simp: rows_kept_def cas_def list_all2_conv_all_nth row_refl)

lemma rows_same: "r_Nodes b = r_Nodes a \<Longrightarrow> rows_kept R a b"
  by (simp add: rows_kept_def list_all2_same row_refl)

end

lemma untouched_rows [simp]:
  "r_Nodes (snd (newID db)) = r_Nodes db" "r_Nodes (UpsertWakeup row t why db) = r_Nodes db"
  "r_Nodes (DeleteWakeup row db) = r_Nodes db" "r_Nodes (snd (MarkRunTerminalFromRunning s db)) = r_Nodes db"
  "r_Nodes (snd (CancelRun_row db)) = r_Nodes db" "r_Nodes (InsertDeadLetter i v n err tm db) = r_Nodes db"
  "r_Nodes (ConvergeDeadLetterReplayed i db) = r_Nodes db" "r_Nodes (InsertRecoveryCase cs db) = r_Nodes db"
  "r_Nodes (SetRunSemanticOutcome q oc k db) = r_Nodes db" "r_Nodes (snd (ReviveFailedRun db)) = r_Nodes db"
  "r_Nodes (snd (ClaimDeadLetterReplay i db)) = r_Nodes db"
  by (simp_all add: newID_def UpsertWakeup_def DeleteWakeup_def MarkRunTerminalFromRunning_def CancelRun_row_def
      InsertDeadLetter_def ConvergeDeadLetterReplayed_def InsertRecoveryCase_def SetRunSemanticOutcome_def
      ReviveFailedRun_def ClaimDeadLetterReplay_def)

lemmas row_updates = MarkLockedNodesRunning_def CompleteRunNode_def FailRunNode_def RequeueRunNodeForRetry_def
  MarkRunNodeWaiting_def SkipRunNode_def QueueRunNode_def DemoteQueuedRunNodes_def CancelRunNodes_def
  MarkWaitingNodeSucceeded_def FailWaitingApprovalDeadline_def EscalateWaitingApprovalDeadline_def
  FailWaitingTimerNode_def RedriveFailedRunNode_def StampRedriveRecoveryClaim_def

lemmas row_guards = is_node_def approval_generation_def due_def

sublocale row_contract \<subseteq> completion_contract "rows_kept R"
proof
  show "rows_kept R db db" for db by (simp add: rows_same)
  show "rows_kept R a c" if "rows_kept R a b" "rows_kept R b c" for a b c
    using that unfolding rows_kept_def by (rule list_all2_trans [rotated 1]) (rule row_trans)
qed (auto simp: row_updates row_guards
      intro!: rows_same cas_rows row_start row_succeed row_fail row_requeue row_wait row_skip row_queue row_demote
        row_cancel row_escalate)

text \<open>With the two updates of a redrive: a failed row is queued again, and stamped with its dead letter.\<close>

locale redrive_row_contract = row_contract +
  assumes row_redrive: "rn_Status r = NFailed \<Longrightarrow> R r (r\<lparr>rn_Status := NQueued, rn_Attempts := 1, rn_EnqueuedAt := tm\<rparr>)"
    and row_stamp: "R r (r\<lparr>rn_RecoveryDeadLetter := Some i\<rparr>)"

sublocale redrive_row_contract \<subseteq> full_contract "rows_kept R"
  by unfold_locales (auto simp: row_updates row_guards intro!: rows_same cas_rows row_redrive row_stamp)

section \<open>What rows keep\<close>

definition settled :: "run_node \<Rightarrow> bool" where
  "settled r \<longleftrightarrow> rn_Status r \<in> {NSucceeded, NFailed, NSkipped, NCancelled}"

text \<open>Outside a redrive a settled row never changes again.\<close>

definition settled_kept :: "run_node \<Rightarrow> run_node \<Rightarrow> bool" where
  "settled_kept r r' \<longleftrightarrow> rn_ID r' = rn_ID r \<and> rn_NodeID r' = rn_NodeID r \<and> (settled r \<longrightarrow> r' = r)"

interpretation settled: row_contract settled_kept
  by unfold_locales (auto simp: settled_kept_def settled_def)

text \<open>With redrives only failed rows may move; of the others, the recovery stamp alone may change.\<close>

definition final_kept :: "run_node \<Rightarrow> run_node \<Rightarrow> bool" where
  "final_kept r r' \<longleftrightarrow> rn_ID r' = rn_ID r \<and> rn_NodeID r' = rn_NodeID r \<and>
     (rn_Status r \<in> {NSucceeded, NSkipped, NCancelled} \<longrightarrow> r' = r\<lparr>rn_RecoveryDeadLetter := rn_RecoveryDeadLetter r'\<rparr>)"

interpretation final: redrive_row_contract final_kept
proof
  fix a b c :: run_node
  assume "final_kept a b" "final_kept b c"
  then show "final_kept a c"
    unfolding final_kept_def by (metis (no_types, lifting) run_node.select_convs(3) run_node.surjective run_node.update_convs(10))
qed (auto simp: final_kept_def)

text \<open>Attempts stay between 0 and 10, a node in work has made at least one, and a running node has a start time.\<close>

definition row_ok :: "run_node \<Rightarrow> bool" where
  "row_ok r \<longleftrightarrow> 0 \<le> rn_Attempts r \<and> rn_Attempts r \<le> 10 \<and>
     (rn_Status r \<in> {NQueued, NRunning, NWaiting} \<longrightarrow> 1 \<le> rn_Attempts r) \<and>
     (rn_Status r = NRunning \<longrightarrow> rn_StartedAt r \<noteq> None)"

definition ok_kept :: "run_node \<Rightarrow> run_node \<Rightarrow> bool" where
  "ok_kept r r' \<longleftrightarrow> (row_ok r \<longrightarrow> row_ok r')"

interpretation sound: redrive_row_contract ok_kept
  by unfold_locales (auto simp: ok_kept_def row_ok_def)

section \<open>What the run keeps\<close>

text \<open>The timeline only grows at its end.\<close>

definition timeline_kept :: "run_db \<Rightarrow> run_db \<Rightarrow> bool" where
  "timeline_kept a b \<longleftrightarrow> prefix (r_Events a) (r_Events b)"

lemma untouched_events [simp]:
  "r_Events (snd (eventNow db)) = r_Events db" "r_Events (log_call k db) = r_Events db" "r_Events (snd (cas P f db)) = r_Events db"
  "r_Events (snd (newID db)) = r_Events db" "r_Events (UpsertWakeup row t why db) = r_Events db"
  "r_Events (DeleteWakeup row db) = r_Events db" "r_Events (snd (MarkRunTerminalFromRunning s db)) = r_Events db"
  "r_Events (snd (CancelRun_row db)) = r_Events db" "r_Events (InsertDeadLetter i v n err tm db) = r_Events db"
  "r_Events (ConvergeDeadLetterReplayed i db) = r_Events db" "r_Events (InsertRecoveryCase cs db) = r_Events db"
  "r_Events (SetRunSemanticOutcome q oc m db) = r_Events db" "r_Events (snd (ReviveFailedRun db)) = r_Events db"
  "r_Events (snd (ClaimDeadLetterReplay i db)) = r_Events db"
  by (simp_all add: eventNow_def log_call_def cas_def newID_def UpsertWakeup_def DeleteWakeup_def
      MarkRunTerminalFromRunning_def CancelRun_row_def InsertDeadLetter_def ConvergeDeadLetterReplayed_def
      InsertRecoveryCase_def SetRunSemanticOutcome_def ReviveFailedRun_def ClaimDeadLetterReplay_def)

interpretation timeline: full_contract timeline_kept
proof
  show "timeline_kept a b \<Longrightarrow> timeline_kept b c \<Longrightarrow> timeline_kept a c" for a b c
    unfolding timeline_kept_def by (rule prefix_order.order_trans)
qed (simp_all add: timeline_kept_def row_updates add_event_def)

text \<open>Dead letters are never removed or rewritten, and a claimed one stays claimed.\<close>

definition letter_kept :: "dead_letter \<Rightarrow> dead_letter \<Rightarrow> bool" where
  "letter_kept d d' \<longleftrightarrow> (dl_Claimed d \<longrightarrow> dl_Claimed d') \<and> (dl_Replayed d \<longrightarrow> dl_Replayed d') \<and>
     d' = d\<lparr>dl_Claimed := dl_Claimed d', dl_Replayed := dl_Replayed d'\<rparr>"

definition letters_kept :: "run_db \<Rightarrow> run_db \<Rightarrow> bool" where
  "letters_kept a b \<longleftrightarrow> (\<exists>ds new. r_DeadLetters b = ds @ new \<and> list_all2 letter_kept (r_DeadLetters a) ds)"

lemma letter_kept_refl: "letter_kept d d"
  by (simp add: letter_kept_def)

lemma letter_kept_trans: "letter_kept a b \<Longrightarrow> letter_kept b c \<Longrightarrow> letter_kept a c"
  by (cases a; cases b; cases c) (simp add: letter_kept_def)

lemma letters_keptI: "list_all2 letter_kept (r_DeadLetters a) (r_DeadLetters b) \<Longrightarrow> letters_kept a b"
  unfolding letters_kept_def by (metis append_Nil2)

lemma letters_same: "r_DeadLetters b = r_DeadLetters a \<Longrightarrow> letters_kept a b"
  by (rule letters_keptI) (simp add: list_all2_same letter_kept_refl)

lemma letters_map: "(\<And>d. letter_kept d (f d)) \<Longrightarrow> r_DeadLetters b = map f (r_DeadLetters a) \<Longrightarrow> letters_kept a b"
  by (rule letters_keptI) (simp add: list_all2_map2 list_all2_same)

lemma letters_kept_trans:
  assumes "letters_kept a b" "letters_kept b c"
  shows "letters_kept a c"
proof -
  from assms obtain ds new ds' new' where b: "r_DeadLetters b = ds @ new" "list_all2 letter_kept (r_DeadLetters a) ds"
    and c: "r_DeadLetters c = ds' @ new'" "list_all2 letter_kept (r_DeadLetters b) ds'"
    unfolding letters_kept_def by blast
  from c(2) b(1) obtain us vs where us: "ds' = us @ vs" "list_all2 letter_kept ds us"
    by (auto simp: list_all2_append1)
  with b(2) have "list_all2 letter_kept (r_DeadLetters a) us" by (blast intro: list_all2_trans letter_kept_trans)
  with c(1) us(1) show ?thesis unfolding letters_kept_def by force
qed

lemma untouched_letters [simp]:
  "r_DeadLetters (snd (newID db)) = r_DeadLetters db" "r_DeadLetters (UpsertWakeup row t why db) = r_DeadLetters db"
  "r_DeadLetters (DeleteWakeup row db) = r_DeadLetters db"
  "r_DeadLetters (snd (MarkRunTerminalFromRunning s db)) = r_DeadLetters db"
  "r_DeadLetters (snd (CancelRun_row db)) = r_DeadLetters db" "r_DeadLetters (InsertRecoveryCase cs db) = r_DeadLetters db"
  "r_DeadLetters (SetRunSemanticOutcome q oc m db) = r_DeadLetters db" "r_DeadLetters (snd (ReviveFailedRun db)) = r_DeadLetters db"
  by (simp_all add: newID_def UpsertWakeup_def DeleteWakeup_def MarkRunTerminalFromRunning_def CancelRun_row_def
      InsertRecoveryCase_def SetRunSemanticOutcome_def ReviveFailedRun_def)

interpretation letters: full_contract letters_kept
proof
  show "letters_kept db (InsertDeadLetter (fst (newID db)) v n err tm (snd (eventNow (snd (newID db)))))" for v n err tm db
    unfolding letters_kept_def InsertDeadLetter_def by (auto simp: list_all2_same letter_kept_refl)
  show "letters_kept db (ConvergeDeadLetterReplayed i db)" for i db
    by (rule letters_map [of "\<lambda>d. if dl_ID d = i \<and> \<not> dl_Replayed d then d\<lparr>dl_Replayed := True\<rparr> else d"])
      (auto simp: letter_kept_def ConvergeDeadLetterReplayed_def)
  show "letters_kept db (snd (ClaimDeadLetterReplay i db))" for i db
    by (rule letters_map [of "\<lambda>d. if dl_ID d = i \<and> \<not> dl_Claimed d then d\<lparr>dl_Claimed := True, dl_Replayed := True\<rparr> else d"])
      (auto simp: letter_kept_def ClaimDeadLetterReplay_def)
qed (auto simp: row_updates intro: letters_same letters_kept_trans)

text \<open>Scheduling writes no dead letter.\<close>

interpretation no_letter: schedule_contract "\<lambda>a b. r_DeadLetters b = r_DeadLetters a"
  by unfold_locales (auto simp: row_updates)

text \<open>Outside completions that park a run and outside redrives, a terminal run keeps its status.\<close>

definition status_kept :: "run_db \<Rightarrow> run_db \<Rightarrow> bool" where
  "status_kept a b \<longleftrightarrow> (terminal (r_Status a) \<longrightarrow> r_Status b = r_Status a)"

lemma untouched_status [simp]:
  "r_Status (snd (newID db)) = r_Status db" "r_Status (UpsertWakeup row t why db) = r_Status db"
  "r_Status (DeleteWakeup row db) = r_Status db" "r_Status (InsertDeadLetter i v n err tm db) = r_Status db"
  "r_Status (ConvergeDeadLetterReplayed i db) = r_Status db" "r_Status (InsertRecoveryCase cs db) = r_Status db"
  "r_Status (snd (ClaimDeadLetterReplay i db)) = r_Status db"
  by (simp_all add: newID_def UpsertWakeup_def DeleteWakeup_def InsertDeadLetter_def ConvergeDeadLetterReplayed_def
      InsertRecoveryCase_def ClaimDeadLetterReplay_def)

interpretation run_status: engine_contract status_kept
  by unfold_locales
    (auto simp: status_kept_def row_updates MarkRunTerminalFromRunning_def CancelRun_row_def terminal_def)

text \<open>A run that succeeded, was cancelled or timed out keeps its status even under redrives, which revive failed runs only.\<close>

definition closed_kept :: "run_db \<Rightarrow> run_db \<Rightarrow> bool" where
  "closed_kept a b \<longleftrightarrow> (r_Status a \<in> {RSucceeded, RCancelled, RTimedOut} \<longrightarrow> r_Status b = r_Status a)"

interpretation closed: redrive_contract closed_kept
  by unfold_locales
    (auto simp: closed_kept_def row_updates MarkRunTerminalFromRunning_def CancelRun_row_def terminal_def ReviveFailedRun_def)

text \<open>Only a redrive with a fix replaces the workflow a run executes.\<close>

definition workflow_kept :: "run_db \<Rightarrow> run_db \<Rightarrow> bool" where
  "workflow_kept a b \<longleftrightarrow> r_Workflow b = r_Workflow a"

lemma untouched_workflow [simp]:
  "r_Workflow (snd (newID db)) = r_Workflow db" "r_Workflow (UpsertWakeup row t why db) = r_Workflow db"
  "r_Workflow (DeleteWakeup row db) = r_Workflow db" "r_Workflow (InsertDeadLetter i v n err tm db) = r_Workflow db"
  "r_Workflow (ConvergeDeadLetterReplayed i db) = r_Workflow db" "r_Workflow (InsertRecoveryCase cs db) = r_Workflow db"
  "r_Workflow (snd (MarkRunTerminalFromRunning s db)) = r_Workflow db" "r_Workflow (snd (CancelRun_row db)) = r_Workflow db"
  "r_Workflow (SetRunSemanticOutcome q oc m db) = r_Workflow db"
  by (simp_all add: newID_def UpsertWakeup_def DeleteWakeup_def InsertDeadLetter_def ConvergeDeadLetterReplayed_def
      InsertRecoveryCase_def MarkRunTerminalFromRunning_def CancelRun_row_def SetRunSemanticOutcome_def)

interpretation workflow: completion_contract workflow_kept
  by unfold_locales (auto simp: workflow_kept_def row_updates)

text \<open>Once every dead letter of an identifier is claimed it stays so: identifiers are issued once.\<close>

definition spent :: "string \<Rightarrow> run_db \<Rightarrow> bool" where
  "spent i db \<longleftrightarrow> inj (r_NewID db) \<and> (\<exists>k<r_IDs db. i = r_NewID db k) \<and> (\<forall>d\<in>set (r_DeadLetters db). dl_ID d = i \<longrightarrow> dl_Claimed d)"

definition spent_kept :: "string \<Rightarrow> run_db \<Rightarrow> run_db \<Rightarrow> bool" where
  "spent_kept i a b \<longleftrightarrow> (spent i a \<longrightarrow> spent i b)"

lemma untouched_ids [simp]:
  "r_NewID (snd (eventNow db)) = r_NewID db" "r_IDs (snd (eventNow db)) = r_IDs db"
  "r_NewID (add_event v ty tm db) = r_NewID db" "r_IDs (add_event v ty tm db) = r_IDs db"
  "r_NewID (log_call k db) = r_NewID db" "r_IDs (log_call k db) = r_IDs db"
  "r_NewID (snd (cas P f db)) = r_NewID db" "r_IDs (snd (cas P f db)) = r_IDs db"
  "r_NewID (UpsertWakeup row t why db) = r_NewID db" "r_IDs (UpsertWakeup row t why db) = r_IDs db"
  "r_NewID (DeleteWakeup row db) = r_NewID db" "r_IDs (DeleteWakeup row db) = r_IDs db"
  "r_NewID (ConvergeDeadLetterReplayed i db) = r_NewID db" "r_IDs (ConvergeDeadLetterReplayed i db) = r_IDs db"
  "r_NewID (InsertRecoveryCase cs db) = r_NewID db" "r_IDs (InsertRecoveryCase cs db) = r_IDs db"
  "r_NewID (snd (MarkRunTerminalFromRunning s db)) = r_NewID db" "r_IDs (snd (MarkRunTerminalFromRunning s db)) = r_IDs db"
  "r_NewID (snd (CancelRun_row db)) = r_NewID db" "r_IDs (snd (CancelRun_row db)) = r_IDs db"
  "r_NewID (SetRunSemanticOutcome q oc m db) = r_NewID db" "r_IDs (SetRunSemanticOutcome q oc m db) = r_IDs db"
  "r_NewID (snd (ReviveFailedRun db)) = r_NewID db" "r_IDs (snd (ReviveFailedRun db)) = r_IDs db"
  "r_NewID (snd (ClaimDeadLetterReplay i db)) = r_NewID db" "r_IDs (snd (ClaimDeadLetterReplay i db)) = r_IDs db"
  by (simp_all add: eventNow_def add_event_def log_call_def cas_def UpsertWakeup_def DeleteWakeup_def
      ConvergeDeadLetterReplayed_def InsertRecoveryCase_def MarkRunTerminalFromRunning_def CancelRun_row_def
      SetRunSemanticOutcome_def ReviveFailedRun_def ClaimDeadLetterReplay_def)

text \<open>The identifiers of dead letters were issued by the process's source of identifiers.\<close>

definition issued :: "run_db \<Rightarrow> bool" where
  "issued db \<longleftrightarrow> (\<forall>d\<in>set (r_DeadLetters db). \<exists>k<r_IDs db. dl_ID d = r_NewID db k)"

definition issued_kept :: "run_db \<Rightarrow> run_db \<Rightarrow> bool" where
  "issued_kept a b \<longleftrightarrow> r_NewID b = r_NewID a \<and> (issued a \<longrightarrow> issued b)"

lemma issued_same:
  "r_NewID b = r_NewID a \<Longrightarrow> r_IDs b = r_IDs a \<Longrightarrow> r_DeadLetters b = r_DeadLetters a \<Longrightarrow> issued_kept a b"
  by (simp add: issued_kept_def issued_def)

interpretation issued: full_contract issued_kept
proof
  show "issued_kept db (InsertDeadLetter (fst (newID db)) v n err tm (snd (eventNow (snd (newID db)))))" for v n err tm db
    by (auto simp: issued_kept_def issued_def InsertDeadLetter_def newID_def eventNow_def less_Suc_eq)
  show "issued_kept db (ConvergeDeadLetterReplayed j db)" for j db
    by (auto simp: issued_kept_def issued_def) (auto simp: ConvergeDeadLetterReplayed_def split: if_splits)
  show "issued_kept db (snd (ClaimDeadLetterReplay j db))" for j db
    by (auto simp: issued_kept_def issued_def) (auto simp: ClaimDeadLetterReplay_def split: if_splits)
  show "issued_kept a c" if "issued_kept a b" "issued_kept b c" for a b c
    using that by (simp add: issued_kept_def)
qed (auto simp: row_updates intro: issued_same)

lemma spent_same:
  "r_NewID b = r_NewID a \<Longrightarrow> r_IDs b = r_IDs a \<Longrightarrow> r_DeadLetters b = r_DeadLetters a \<Longrightarrow> spent_kept i a b"
  by (simp add: spent_kept_def spent_def)

interpretation spent: full_contract "spent_kept i" for i
proof
  show "spent_kept i db (InsertDeadLetter (fst (newID db)) v n err tm (snd (eventNow (snd (newID db)))))" for v n err tm db
    by (auto simp: spent_kept_def spent_def InsertDeadLetter_def newID_def eventNow_def less_Suc_eq dest: injD)
  show "spent_kept i db (ConvergeDeadLetterReplayed j db)" for j db
    by (auto simp: spent_kept_def spent_def) (auto simp: ConvergeDeadLetterReplayed_def split: if_splits)
  show "spent_kept i db (snd (ClaimDeadLetterReplay j db))" for j db
    by (auto simp: spent_kept_def spent_def) (auto simp: ClaimDeadLetterReplay_def split: if_splits)
  show "spent_kept i a c" if "spent_kept i a b" "spent_kept i b c" for a b c
    using that by (simp add: spent_kept_def)
qed (auto simp: row_updates intro: spent_same)

section \<open>The transition system\<close>

datatype op =
    OpClaim nat int
  | OpComplete claim json
  | OpRoute claim router_execution
  | OpRetryOrFail claim node go_error rat
  | OpFail claim go_error
  | OpWait claim jmap "int option"
  | OpReap int int int
  | OpCancel json
  | OpResume "jmap \<Rightarrow> schema option" bool string jmap string string
  | OpApprovalTimeout string int
  | OpTimerFailure string go_error
  | OpRedriveDeadLetter string bool redrive_options
  | OpRedriveNode string bool string

record system =
  sy_Db :: run_db
  sy_Claims :: "claim list"

definition with_db :: "system \<Rightarrow> run_db \<Rightarrow> system" where
  "with_db s db = s\<lparr>sy_Db := db\<rparr>"

inductive step :: "system \<Rightarrow> op \<Rightarrow> system \<Rightarrow> bool" where
  Claim: "step s (OpClaim b tm) \<lparr>sy_Db = snd (claimBatch b tm (sy_Db s)),
    sy_Claims = sy_Claims s @ fst (claimBatch b tm (sy_Db s))\<rparr>"
| Complete: "c \<in> set (sy_Claims s) \<Longrightarrow> step s (OpComplete c out) (with_db s (snd (CompleteNode c out (sy_Db s))))"
| Route: "c \<in> set (sy_Claims s) \<Longrightarrow> step s (OpRoute c plan) (with_db s (snd (CompleteRouterNode c plan (sy_Db s))))"
| RetryFail: "c \<in> set (sy_Claims s) \<Longrightarrow>
    step s (OpRetryOrFail c n err rnd) (with_db s (snd (RetryOrFail c n err rnd (sy_Db s))))"
| FailStep: "c \<in> set (sy_Claims s) \<Longrightarrow> step s (OpFail c err) (with_db s (snd (FailNode c err (sy_Db s))))"
| Wait: "c \<in> set (sy_Claims s) \<Longrightarrow> step s (OpWait c meta w) (with_db s (snd (MarkNodeWaiting c meta w (sy_Db s))))"
| Reap: "step s (OpReap tm th b) (with_db s (ReapStalledNodes tm th b (sy_Db s)))"
| Cancel: "step s (OpCancel reason) (with_db s (snd (CancelRun reason (sy_Db s))))"
| Resume: "step s (OpResume fs ok v inp tok actor) (with_db s (snd (ResumeRunAs fs ok v inp tok actor (sy_Db s))))"
| ApprovalTimeout: "step s (OpApprovalTimeout v t) (with_db s (snd (processApprovalTimeout v t (sy_Db s))))"
| TimerFailure: "step s (OpTimerFailure v err) (with_db s (snd (failInvalidSnapshotTimer v err (sy_Db s))))"
| RedriveLetter: "step s (OpRedriveDeadLetter i late opts) (with_db s (snd (RedriveDeadLetterWithOptions i late opts (sy_Db s))))"
| RedriveNode: "step s (OpRedriveNode v late actor) (with_db s (snd (RedriveRunNode v late actor (sy_Db s))))"

inductive_cases CompleteE: "step s (OpComplete c out) s'"
inductive_cases RedriveNodeE: "step s (OpRedriveNode v late actor) s'"

inductive steps :: "system \<Rightarrow> op list \<Rightarrow> system \<Rightarrow> bool" where
  Idle: "steps s [] s"
| Next: "steps s ls t \<Longrightarrow> step t l u \<Longrightarrow> steps s (ls @ [l]) u"

definition redrives :: "op \<Rightarrow> bool" where
  "redrives l \<longleftrightarrow> (case l of OpRedriveDeadLetter _ _ _ \<Rightarrow> True | OpRedriveNode _ _ _ \<Rightarrow> True | _ \<Rightarrow> False)"

definition completes :: "op \<Rightarrow> bool" where
  "completes l \<longleftrightarrow> (case l of OpComplete _ _ \<Rightarrow> True | OpRoute _ _ \<Rightarrow> True | _ \<Rightarrow> False)"

lemma with_db_simps [simp]: "sy_Db (with_db s db) = db" "sy_Claims (with_db s db) = sy_Claims s"
  by (simp_all add: with_db_def)

text \<open>Held claims name attempts the retry code can raise; they are read from rows that satisfy the row invariant.\<close>

definition claims_ok :: "system \<Rightarrow> bool" where
  "claims_ok s \<longleftrightarrow> (\<forall>c\<in>set (sy_Claims s). 1 \<le> cl_Attempt c)"

context engine_contract
begin

lemma step_keeps_engine:
  "step s l s' \<Longrightarrow> claims_ok s \<Longrightarrow> \<not> redrives l \<Longrightarrow> \<not> completes l \<Longrightarrow> K (sy_Db s) (sy_Db s')"
  by (induction rule: step.induct)
    (auto simp: redrives_def completes_def claims_ok_def intro: RetryOrFail_keeps FailNode_keeps MarkNodeWaiting_keeps
      ReapStalledNodes_keeps CancelRun_keeps ResumeRunAs_keeps processApprovalTimeout_keeps failInvalidSnapshotTimer_keeps
      claimBatch_keeps)

end

context completion_contract
begin

lemma step_keeps_completion: "step s l s' \<Longrightarrow> claims_ok s \<Longrightarrow> \<not> redrives l \<Longrightarrow> K (sy_Db s) (sy_Db s')"
  using step_keeps_engine
  by (cases "completes l") (auto simp: completes_def elim!: step.cases intro: CompleteNode_keeps CompleteRouterNode_keeps)

end

context redrive_contract
begin

lemma step_keeps_redrive: "step s l s' \<Longrightarrow> claims_ok s \<Longrightarrow> \<not> completes l \<Longrightarrow> K (sy_Db s) (sy_Db s')"
  using step_keeps_engine
  by (cases "redrives l") (auto simp: redrives_def elim!: step.cases
      intro: RedriveDeadLetterWithOptions_keeps RedriveRunNode_keeps)

end

context full_contract
begin

lemma step_keeps: "step s l s' \<Longrightarrow> claims_ok s \<Longrightarrow> K (sy_Db s) (sy_Db s')"
  using step_keeps_completion step_keeps_redrive by (cases "redrives l") (auto simp: redrives_def completes_def split: op.splits)

end

section \<open>The invariant of reachable systems\<close>

text \<open>Every row is sound, and every held claim names a row and an attempt that row has reached.\<close>

definition sys_ok :: "system \<Rightarrow> bool" where
  "sys_ok s \<longleftrightarrow> (\<forall>r\<in>set (r_Nodes (sy_Db s)). row_ok r) \<and> claims_ok s \<and>
     (\<forall>c\<in>set (sy_Claims s). \<exists>r\<in>set (r_Nodes (sy_Db s)). rn_ID r = cl_RowID c \<and> rn_NodeID r = cl_NodeID c)"

lemma rows_keptD: "rows_kept R a b \<Longrightarrow> r' \<in> set (r_Nodes b) \<Longrightarrow> \<exists>r\<in>set (r_Nodes a). R r r'"
  unfolding rows_kept_def by (metis list_all2_conv_all_nth in_set_conv_nth)

lemma rows_keptD2: "rows_kept R a b \<Longrightarrow> r \<in> set (r_Nodes a) \<Longrightarrow> \<exists>r'\<in>set (r_Nodes b). R r r'"
  unfolding rows_kept_def by (metis list_all2_conv_all_nth in_set_conv_nth)

lemma sys_ok_claims: "sys_ok s \<Longrightarrow> claims_ok s"
  by (simp add: sys_ok_def)

lemma claimed_rows: "c \<in> set (fst (claimBatch b tm db)) \<Longrightarrow>
   \<exists>r\<in>set (r_Nodes db). c = claim_of r \<and> due tm db r \<and> rn_ID r \<in> set (LockClaimableRunNodes tm db)"
  by (auto simp: claimBatch_def queue_order_def Let_def split: if_splits dest!: in_set_takeD) metis

lemma step_sys_ok:
  assumes "step s l s'" "sys_ok s"
  shows "sys_ok s'"
proof -
  have ok: "claims_ok s" and rows: "\<forall>r\<in>set (r_Nodes (sy_Db s)). row_ok r" using assms(2) by (simp_all add: sys_ok_def)
  have rows': "\<forall>r\<in>set (r_Nodes (sy_Db s')). row_ok r"
    using rows_keptD [OF sound.step_keeps [OF assms(1) ok]] rows by (auto simp: ok_kept_def)
  have held: "c \<in> set (sy_Claims s) \<or> (\<exists>r\<in>set (r_Nodes (sy_Db s)). c = claim_of r \<and> rn_Status r = NQueued)"
    if "c \<in> set (sy_Claims s')" for c
    using assms(1) that by cases (auto dest: claimed_rows simp: due_def)
  have named: "\<exists>r\<in>set (r_Nodes (sy_Db s)). rn_ID r = cl_RowID c \<and> rn_NodeID r = cl_NodeID c"
    and pos: "1 \<le> cl_Attempt c" if "c \<in> set (sy_Claims s')" for c
    using held [OF that] assms(2) by (auto simp: sys_ok_def claims_ok_def claim_of_def row_ok_def)
  have "\<exists>r\<in>set (r_Nodes (sy_Db s')). rn_ID r = cl_RowID c \<and> rn_NodeID r = cl_NodeID c" if "c \<in> set (sy_Claims s')" for c
    using named [OF that] rows_keptD2 [OF final.step_keeps [OF assms(1) ok]] by (fastforce simp: final_kept_def)
  with rows' pos show ?thesis by (simp add: sys_ok_def claims_ok_def)
qed

lemma steps_sys_ok: "steps s ls s' \<Longrightarrow> sys_ok s \<Longrightarrow> sys_ok s'"
  by (induction rule: steps.induct) (auto intro: step_sys_ok)

context engine_contract
begin

lemma steps_lift:
  assumes "steps s ls s'" "sys_ok s" "\<forall>l\<in>set ls. Q l"
    and "\<And>t l u. step t l u \<Longrightarrow> claims_ok t \<Longrightarrow> Q l \<Longrightarrow> K (sy_Db t) (sy_Db u)"
  shows "K (sy_Db s) (sy_Db s')"
  using assms(1-3)
proof (induction rule: steps.induct)
  case (Next s ls t l u)
  then have "claims_ok t" by (blast intro: sys_ok_claims steps_sys_ok)
  with Next assms(4) have "K (sy_Db t) (sy_Db u)" by simp
  with Next show ?case by (auto intro: trans)
qed (simp add: refl)

lemma steps_keep_engine:
  "steps s ls s' \<Longrightarrow> sys_ok s \<Longrightarrow> \<forall>l\<in>set ls. \<not> redrives l \<and> \<not> completes l \<Longrightarrow> K (sy_Db s) (sy_Db s')"
  by (erule steps_lift [where Q = "\<lambda>l. \<not> redrives l \<and> \<not> completes l"]) (auto intro: step_keeps_engine)

end

context completion_contract
begin

lemma steps_keep_completion:
  "steps s ls s' \<Longrightarrow> sys_ok s \<Longrightarrow> \<forall>l\<in>set ls. \<not> redrives l \<Longrightarrow> K (sy_Db s) (sy_Db s')"
  by (erule steps_lift [where Q = "\<lambda>l. \<not> redrives l"]) (auto intro: step_keeps_completion)

end

context redrive_contract
begin

lemma steps_keep_redrive:
  "steps s ls s' \<Longrightarrow> sys_ok s \<Longrightarrow> \<forall>l\<in>set ls. \<not> completes l \<Longrightarrow> K (sy_Db s) (sy_Db s')"
  by (erule steps_lift [where Q = "\<lambda>l. \<not> completes l"]) (auto intro: step_keeps_redrive)

end

context full_contract
begin

lemma steps_keep: "steps s ls s' \<Longrightarrow> sys_ok s \<Longrightarrow> K (sy_Db s) (sy_Db s')"
  by (erule steps_lift [where Q = "\<lambda>_. True"]) (auto intro: step_keeps)

end

lemma steps_workflow:
  "steps s ls s' \<Longrightarrow> sys_ok s \<Longrightarrow> \<forall>l\<in>set ls. \<not> redrives l \<Longrightarrow> r_Workflow (sy_Db s') = r_Workflow (sy_Db s)"
  using workflow.steps_keep_completion by (simp add: workflow_kept_def)

context engine_contract
begin

lemma step_keeps_clean:
  "step s l s' \<Longrightarrow> claims_ok s \<Longrightarrow> \<not> redrives l \<Longrightarrow> wf_Contract (r_Workflow (sy_Db s)) = None \<Longrightarrow> K (sy_Db s) (sy_Db s')"
  using step_keeps_engine
  by (cases "completes l") (auto simp: completes_def elim!: step.cases intro: CompleteNode_keeps_clean CompleteRouterNode_keeps_clean)

lemma steps_keep_clean:
  assumes "steps s ls s'" "sys_ok s" "\<forall>l\<in>set ls. \<not> redrives l" "wf_Contract (r_Workflow (sy_Db s)) = None"
  shows "K (sy_Db s) (sy_Db s')"
  using assms
proof (induction rule: steps.induct)
  case (Next s ls t l u)
  then have "claims_ok t" "r_Workflow (sy_Db t) = r_Workflow (sy_Db s)"
    by (auto intro: sys_ok_claims steps_sys_ok steps_workflow)
  with Next have "K (sy_Db t) (sy_Db u)" by (intro step_keeps_clean) auto
  with Next show ?case by (auto intro: trans)
qed (simp add: refl)

end

section \<open>From the start of a run\<close>

text \<open>The seeds of a rerun are settled, as its plan makes them.\<close>

definition seeds_settled :: "start_input \<Rightarrow> bool" where
  "seeds_settled si \<longleftrightarrow> (case si_Rerun si of None \<Rightarrow> True
     | Some seed \<Rightarrow> list_all (\<lambda>(v, n). ns_Status n \<in> {NSucceeded, NSkipped}) (rs_Nodes seed))"

definition system_of :: "run_db \<Rightarrow> system" where
  "system_of db = \<lparr>sy_Db = db, sy_Claims = []\<rparr>"

lemma initial_row_ok: "seeds_settled si \<Longrightarrow> row_ok (initial_row si sw t x)"
  by (auto simp: initial_row_def Let_def row_ok_def seeds_settled_def list_all_iff split: option.splits if_splits
      dest!: map_of_SomeD)

lemma start_sys_ok: "StartRun si sw = Ok db \<Longrightarrow> seeds_settled si \<Longrightarrow> sys_ok (system_of db)"
  by (auto dest!: StartRun_OkD simp: sys_ok_def claims_ok_def system_of_def new_run_def Let_def intro: initial_row_ok)

end
