(* ===== verification/Demo.thy ===== *)
theory Demo
  imports Invariants
begin

text \<open>
  A small run on which the guarantees are evaluated: a node \<^verbatim>\<open>a\<close> with an ordinary successor \<^verbatim>\<open>b\<close> and an
  on-error successor \<^verbatim>\<open>c\<close>, and a variant of the document whose recovery contract quarantines the output
  of \<^verbatim>\<open>a\<close>.
\<close>

definition demo_node :: "string \<Rightarrow> string \<Rightarrow> node" where
  "demo_node i ty = \<lparr>n_ID = i, n_Type = ty, n_Label = [], n_Config = []\<rparr>"

definition demo_edge :: "string \<Rightarrow> string \<Rightarrow> bool \<Rightarrow> edge" where
  "demo_edge a b err = \<lparr>e_ID = a @ b, e_From = a, e_To = b, e_Condition = [], e_OnError = err\<rparr>"

definition demo_workflow :: workflow where
  "demo_workflow = \<lparr>wf_DSLVersion = ''1'', wf_ID = ''w'', wf_Name = ''demo'', wf_Inputs = None, wf_Outputs = [],
     wf_TemplatePolicy = [], wf_CircuitBreaker = None, wf_Contract = None,
     wf_Nodes = [demo_node ''a'' ''http'', demo_node ''b'' ''transform'', demo_node ''c'' ''transform''],
     wf_Edges = [demo_edge ''a'' ''b'' False, demo_edge ''a'' ''c'' True]\<rparr>"

definition demo_start :: start_input where
  "demo_start = \<lparr>si_OrgID = ''org'', si_Workflow = demo_workflow, si_Input = JNull, si_ReplayMode = [], si_ServicePrincipal = [],
    si_TriggerEventID = [], si_IdempotencyKey = [], si_ParentLinkKind = [], si_Rerun = None, si_DraftTest = None\<rparr>"

definition demo_world :: start_world where
  "demo_world = \<lparr>sw_SourceStatus = RRunning, sw_SourceAttempts = None, sw_SourceFinishedAt = None, sw_IdempotencyHolder = None,
     sw_TriggerClaimed = False, sw_Clock = \<lambda>n. 1000 * int n, sw_NewID = \<lambda>n. replicate n CHR ''i''\<rparr>"

definition demo_db :: run_db where
  "demo_db = new_run demo_start demo_world"

definition demo_running :: run_db where
  "demo_running = snd (claimBatch 5 1000 demo_db)"

definition demo_claim :: claim where
  "demo_claim = \<lparr>cl_RowID = ''i'', cl_NodeID = ''a'', cl_Attempt = 1\<rparr>"

definition demo_system :: system where
  "demo_system = \<lparr>sy_Db = demo_running, sy_Claims = [demo_claim]\<rparr>"

definition demo_failed :: run_db where
  "demo_failed = snd (FailNode demo_claim (Plain ''boom'') (demo_running\<lparr>r_Workflow := demo_workflow\<lparr>wf_Edges := [demo_edge ''a'' ''b'' False]\<rparr>\<rparr>))"

lemma demo_starts: "StartRun demo_start demo_world = Ok demo_db"
  by (simp add: StartRun_def resolved_input_def demo_start_def demo_workflow_def demo_db_def)

lemma demo_claims: "fst (claimBatch 5 1000 demo_db) = [demo_claim]"
  by code_simp

lemma demo_sys_ok: "sys_ok (system_of demo_db)"
  by (rule start_sys_ok [OF demo_starts]) (simp add: seeds_settled_def demo_start_def)

lemma demo_first_step: "step (system_of demo_db) (OpClaim 5 1000) demo_system"
  using step.Claim [of "system_of demo_db" 5 1000]
  by (simp add: system_of_def demo_claims demo_system_def demo_running_def)

lemma demo_system_ok: "sys_ok demo_system"
  by (rule step_sys_ok [OF demo_first_step demo_sys_ok])

lemma steps_single: "step s l s' \<Longrightarrow> steps s [l] s'"
  using steps.Next [OF steps.Idle] by force

end
