(* ===== verification/Guarantees.thy ===== *)
theory Guarantees
  imports Demo
begin

text \<open>
  What the engine guarantees of a run: the invariants of every reachable state, lifted from the
  contracts, and the exact effect of the operations that decide a run's fate. Every statement is about
  the transactions of \<^verbatim>\<open>internal/engine\<close> as the earlier theories define them.
\<close>

section \<open>Every reachable state\<close>

text \<open>
  C1: every reachable state of a run is sound. From the start of a run, after any sequence of
  operations with any number of late or repeated deliveries, the run has exactly one row per node of
  the document in document order, no node has made more than 10 attempts, a node in work has made at
  least one, every running node has a start time, so the stall reaper can find it, and every claim
  held by a worker names a row of the run.
\<close>

theorem reachable_runs_sound:
  assumes "StartRun si sw = Ok db" and "seeds_settled si" and "steps (system_of db) ls s"
  shows "(\<forall>r\<in>set (r_Nodes (sy_Db s)). row_ok r) \<and>
    map rn_NodeID (r_Nodes (sy_Db s)) = node_ids (wf_Nodes (si_Workflow si)) \<and>
    (\<forall>c\<in>set (sy_Claims s). \<exists>r\<in>set (r_Nodes (sy_Db s)). rn_ID r = cl_RowID c \<and> rn_NodeID r = cl_NodeID c)"
proof -
  have start: "sys_ok (system_of db)" by (rule start_sys_ok [OF assms(1,2)])
  have "rows_kept final_kept db (sy_Db s)" using final.steps_keep [OF assms(3) start] by (simp add: system_of_def)
  then have "map rn_NodeID (r_Nodes (sy_Db s)) = map rn_NodeID (r_Nodes db)"
    by (auto simp: rows_kept_def final_kept_def list_all2_conv_all_nth intro: nth_equalityI)
  with steps_sys_ok [OF assms(3) start] show ?thesis
    using StartRun_OkD [OF assms(1)] by (simp add: sys_ok_def new_run_rows)
qed

theorem reachable_runs_sound_witness:
  "StartRun demo_start demo_world = Ok demo_db \<and> steps (system_of demo_db) [OpClaim 5 1000] demo_system \<and>
   list_all row_ok (r_Nodes demo_running) \<and> map rn_NodeID (r_Nodes demo_running) = [''a'', ''b'', ''c'']"
  using reachable_runs_sound [OF demo_starts _ steps_single [OF demo_first_step]] demo_starts steps_single [OF demo_first_step]
  by (simp add: seeds_settled_def demo_start_def demo_system_def demo_workflow_def node_ids_def demo_node_def list_all_iff)




text \<open>
  Not even a redrive touches a node that succeeded, was skipped or was cancelled: over any
  sequence of operations such a row keeps everything but the stamp of the dead letter it may be
  recovering. Only failed nodes can be run again.
\<close>

theorem final_rows_survive_redrive:
  assumes "sys_ok s" and "steps s ls s'"
  shows "list_all2 (\<lambda>r r'. rn_ID r' = rn_ID r \<and> rn_NodeID r' = rn_NodeID r \<and>
      (rn_Status r \<in> {NSucceeded, NSkipped, NCancelled} \<longrightarrow> r' = r\<lparr>rn_RecoveryDeadLetter := rn_RecoveryDeadLetter r'\<rparr>))
    (r_Nodes (sy_Db s)) (r_Nodes (sy_Db s'))"
  using final.steps_keep [OF assms(2,1)] by (auto simp: rows_kept_def final_kept_def elim: list_all2_mono)



section \<open>Terminal runs and stale deliveries\<close>

lemma claim_needs_running: "r_Status db \<noteq> RRunning \<Longrightarrow> claimBatch b tm db = ([], db)"
  by (simp add: claimBatch_def queue_order_def LockClaimableRunNodes_def)

text \<open>
  A run that succeeded, was cancelled or timed out stays that way under every operation but a
  completion that reports a semantic violation: not even a redrive reopens it, and no worker can claim
  a node of it any more, queued or not.
\<close>

theorem closed_runs_stay_closed:
  assumes "sys_ok s" and "steps s ls s'" and "\<forall>l\<in>set ls. \<not> completes l"
    and "r_Status (sy_Db s) \<in> {RSucceeded, RCancelled, RTimedOut}"
  shows "r_Status (sy_Db s') = r_Status (sy_Db s) \<and> (\<forall>b tm. claimBatch b tm (sy_Db s') = ([], sy_Db s'))"
proof -
  have "r_Status (sy_Db s') = r_Status (sy_Db s)"
    using closed.steps_keep_redrive [OF assms(2,1,3)] assms(4) unfolding closed_kept_def by blast
  with assms(4) show ?thesis by (auto intro: claim_needs_running)
qed

definition demo_cancelled :: system where
  "demo_cancelled = with_db demo_system (snd (CancelRun JNull demo_running))"

lemma demo_cancelled_ok: "sys_ok demo_cancelled"
  by (rule step_sys_ok [OF _ demo_system_ok]) (use step.Cancel [of demo_system JNull] in
    \<open>simp add: demo_cancelled_def demo_system_def\<close>)

text \<open>
  Without a recovery contract a terminal run is final: over any sequence of operations other than
  redrives its status does not change, whatever its nodes still deliver.
\<close>

theorem terminal_runs_final:
  assumes "sys_ok s" and "steps s ls s'" and "\<forall>l\<in>set ls. \<not> redrives l"
    and "wf_Contract (r_Workflow (sy_Db s)) = None" and "terminal (r_Status (sy_Db s))"
  shows "r_Status (sy_Db s') = r_Status (sy_Db s)"
  by (rule run_status.steps_keep_clean [OF assms(2,1,3,4), unfolded status_kept_def, rule_format, OF assms(5)])

text \<open>
  Cancelling an open run settles it: no node stays pending, queued or waiting, the nodes that were
  are cancelled with the reason, the other rows are untouched, and the run is cancelled; a terminal
  run is refused and nothing changes.
\<close>

theorem CancelRun_exact:
  "fst (CancelRun reason db) = (if terminal (r_Status db) then Err ErrRunAlreadyTerminal else Ok ()) \<and>
   r_Status (snd (CancelRun reason db)) = (if terminal (r_Status db) then r_Status db else RCancelled) \<and>
   r_Nodes (snd (CancelRun reason db)) = map (\<lambda>r.
     if \<not> terminal (r_Status db) \<and> rn_Status r \<in> {NPending, NQueued, NWaiting}
     then r\<lparr>rn_Status := NCancelled, rn_State := JObj [(''cancelled'', reason)], rn_FinishedAt := Some (fst (eventNow db))\<rparr>
     else r) (r_Nodes db)"
  by (simp add: CancelRun_def CancelRun_row_def case_prod_beta Let_def CancelRunNodes_def)
    (simp add: cas_def)

lemma stale_cas: "one_row_each db \<Longrightarrow> nodeStatuses db v \<noteq> Some NRunning \<Longrightarrow> fst (cas (is_node v NRunning) f (snd (eventNow db))) = 0"
  by (subst cas_hits_node) (simp_all add: one_row_each_def nodeStatuses_def)

lemma stale_cas2: "one_row_each db \<Longrightarrow> nodeStatuses db v \<noteq> Some NRunning \<Longrightarrow> fst (cas (is_node v NRunning) f (snd (eventNow (snd (eventNow db))))) = 0"
  by (subst cas_hits_node) (simp_all add: one_row_each_def nodeStatuses_def)

lemma stale_fail:
  "one_row_each db \<Longrightarrow> nodeStatuses db (cl_NodeID c) \<noteq> Some NRunning \<Longrightarrow> FailNode c err db = (Ok (), snd (eventNow db))"
  by (simp add: FailNode_def fail_tx_def FailRunNode_def inCompletionTxCommitted_def case_prod_beta Let_def stale_cas)

lemma stale_complete:
  "one_row_each db \<Longrightarrow> nodeStatuses db (cl_NodeID c) \<noteq> Some NRunning \<Longrightarrow> completeNode c out opts db = (Ok (), snd (eventNow db))"
  by (simp add: completeNode_def completion_tx_def CompleteRunNode_def inCompletionTxCommitted_def case_prod_beta Let_def stale_cas)

lemma stale_retry:
  "one_row_each db \<Longrightarrow> nodeStatuses db (cl_NodeID c) \<noteq> Some NRunning \<Longrightarrow>
     RetryOrFail c n err rnd db \<in> {(Ok (), snd (eventNow db)), (Ok (), snd (eventNow (snd (eventNow db))))}"
  by (simp add: RetryOrFail_def stale_fail retry_tx_def RequeueRunNodeForRetry_def inCompletionTxCommitted_def case_prod_beta
      Let_def stale_cas2)

lemma stale_wait:
  "one_row_each db \<Longrightarrow> nodeStatuses db (cl_NodeID c) \<noteq> Some NRunning \<Longrightarrow> snd (MarkNodeWaiting c meta w db) = snd (eventNow db)"
  by (simp add: MarkNodeWaiting_def waiting_tx_def MarkRunNodeWaiting_def inCompletionTxCommitted_def case_prod_beta Let_def
      stale_cas split: sum.split)

text \<open>
  Stale deliveries are harmless. When the node of a claim is not running any more, completing,
  failing, retrying or parking it reports success and changes nothing but the number of clock readings.
\<close>

theorem stale_deliveries_harmless:
  assumes "one_row_each db" and "nodeStatuses db (cl_NodeID c) \<noteq> Some NRunning"
  shows "(\<forall>res \<in> {CompleteNode c out db, CompleteRouterNode c plan db, FailNode c err db, RetryOrFail c n err rnd db}.
      fst res = Ok () \<and> snd res = db\<lparr>r_Reads := r_Reads (snd res)\<rparr>) \<and>
    snd (MarkNodeWaiting c meta w db) = db\<lparr>r_Reads := r_Reads db + 1\<rparr>"
  using stale_complete [OF assms] stale_fail [OF assms] stale_retry [OF assms, of n err rnd] stale_wait [OF assms]
  by (auto simp: CompleteNode_def CompleteRouterNode_def eventNow_def)

section \<open>Failures\<close>

definition letter_of :: "claim \<Rightarrow> json \<Rightarrow> run_db \<Rightarrow> dead_letter" where
  "letter_of c err db = \<lparr>dl_ID = r_NewID db (r_IDs db), dl_NodeID = cl_NodeID c, dl_Attempt = cl_Attempt c, dl_Error = err,
     dl_Replayed = False, dl_Claimed = False, dl_CreatedAt = r_Clock db (Suc (r_Reads db))\<rparr>"

lemma flip_failed:
  "r_Status db = RRunning \<Longrightarrow> r_Status (flipRunTerminal RFailed t db) = RFailed \<and>
     (\<forall>r\<in>set (r_Nodes (flipRunTerminal RFailed t db)). rn_Status r \<noteq> NQueued) \<and>
     r_DeadLetters (flipRunTerminal RFailed t db) = r_DeadLetters db"
  by (simp add: flipRunTerminal_def MarkRunTerminalFromRunning_def Let_def case_prod_beta DemoteQueuedRunNodes_def)
    (auto simp: cas_def)

lemma untouched_reads [simp]:
  "r_Reads (log_call k db) = r_Reads db" "r_Reads (DeleteWakeup row db) = r_Reads db" "r_Reads (snd (cas P f db)) = r_Reads db"
  "r_Clock (log_call k db) = r_Clock db" "r_Clock (DeleteWakeup row db) = r_Clock db" "r_Clock (snd (cas P f db)) = r_Clock db"
  by (simp_all add: log_call_def DeleteWakeup_def cas_def)

lemma routing_fields [simp]:
  "r_Reads (recordRoutingOutcome c x ok db) = r_Reads db" "r_Clock (recordRoutingOutcome c x ok db) = r_Clock db"
  "r_Status (recordRoutingOutcome c x ok db) = r_Status db" "r_DeadLetters (recordRoutingOutcome c x ok db) = r_DeadLetters db"
  "r_NewID (recordRoutingOutcome c x ok db) = r_NewID db" "r_IDs (recordRoutingOutcome c x ok db) = r_IDs db"
  "r_Nodes (recordRoutingOutcome c x ok db) = r_Nodes db" "r_Workflow (recordRoutingOutcome c x ok db) = r_Workflow db"
  by (simp_all add: recordRoutingOutcome_def)

lemma insertDeadLetter_fields:
  "r_Reads db0 = Suc (r_Reads db) \<Longrightarrow> r_Clock db0 = r_Clock db \<Longrightarrow> r_NewID db0 = r_NewID db \<Longrightarrow> r_IDs db0 = r_IDs db \<Longrightarrow>
   r_DeadLetters db0 = r_DeadLetters db \<Longrightarrow>
   r_DeadLetters (insertDeadLetter c err db0) = r_DeadLetters db @ [letter_of c err db] \<and>
   r_Status (insertDeadLetter c err db0) = r_Status db0"
  by (simp add: insertDeadLetter_def Let_def case_prod_beta newID_def eventNow_def InsertDeadLetter_def letter_of_def)

lemma after_failure_fields [simp]:
  "r_DeadLetters (afterTerminalFailure c db) = r_DeadLetters db" "r_Status (afterTerminalFailure c db) = r_Status db"
  "r_Nodes (afterTerminalFailure c db) = r_Nodes db"
  by (simp_all add: afterTerminalFailure_def Let_def)

text \<open>
  C5: the dead-letter queue records exactly the failures nobody handles. When a running node fails for
  good in a running run, then with an on-error edge no dead letter is written and the run goes on
  scheduling; without one, exactly one dead letter with the node, the attempt and the serialised error
  is appended, the run is failed and no node of it stays queued. In a run that already failed the dead
  letter is written all the same and the run stays failed. In any other run nothing is recorded.
\<close>

theorem FailNode_dead_letter_exact:
  assumes "one_row_each db" and "nodeStatuses db (cl_NodeID c) = Some NRunning"
  shows "r_DeadLetters (snd (FailNode c err db)) = r_DeadLetters db @
      (if r_Status db = RFailed \<or> r_Status db = RRunning \<and> \<not> nodeFailureHandled (r_Workflow db) (cl_NodeID c)
       then [letter_of c (serr_json (serializeError err)) db] else []) \<and>
    (r_Status db = RRunning \<and> \<not> nodeFailureHandled (r_Workflow db) (cl_NodeID c) \<longrightarrow>
       r_Status (snd (FailNode c err db)) = RFailed \<and> (\<forall>r\<in>set (r_Nodes (snd (FailNode c err db))). rn_Status r \<noteq> NQueued)) \<and>
    (r_Status db = RFailed \<longrightarrow> r_Status (snd (FailNode c err db)) = RFailed) \<and>
    (r_Status db \<notin> {RRunning, RFailed} \<longrightarrow> snd (FailNode c err db) = snd (eventNow db))"
proof (cases "r_Status db \<in> {RRunning, RFailed}")
  case False
  then show ?thesis by (simp add: FailNode_def fail_tx_def inCompletionTxCommitted_def Let_def case_prod_beta)
next
  case True
  define t where "t = fst (eventNow db)"
  define e where "e = serr_json (serializeError err)"
  define db2 where "db2 = DeleteWakeup (cl_RowID c) (recordRoutingOutcome c (- 1) False (snd (FailRunNode (cl_NodeID c) e t (snd (eventNow db)))))"
  define db3 where "db3 = add_event (cl_NodeID c) ''node.failed'' t (insertDeadLetter c e db2)"
  have f2: "r_DeadLetters db2 = r_DeadLetters db" "r_Status db2 = r_Status db" by (simp_all add: db2_def FailRunNode_def)
  have f3: "r_DeadLetters db3 = r_DeadLetters db @ [letter_of c e db]" "r_Status db3 = r_Status db"
    using insertDeadLetter_fields [of db2 db c e] f2 by (simp_all add: db3_def) (simp_all add: db2_def FailRunNode_def eventNow_def)
  have hit: "fst (FailRunNode (cl_NodeID c) e t (snd (eventNow db))) \<noteq> 0"
    using assms unfolding FailRunNode_def by (subst cas_hits_node) (simp_all add: one_row_each_def nodeStatuses_def)
  have tx: "fail_tx c (serializeError err) t (snd (eventNow db)) = Inr (
      if r_Status db = RRunning \<and> nodeFailureHandled (r_Workflow db) (cl_NodeID c)
      then (True, snd (scheduleDownstream t (add_event (cl_NodeID c) ''node.failed'' t db2)))
      else (False, if r_Status db = RFailed then db3 else flipRunTerminal RFailed t db3))"
    using True hit by (auto simp: fail_tx_def Let_def case_prod_beta e_def db2_def db3_def)
  show ?thesis
    using True tx f2 f3 flip_failed [of db3 t]
    by (auto simp: FailNode_def no_letter.scheduleDownstream_keeps inCompletionTxCommitted_def Let_def case_prod_beta t_def [symmetric] e_def [symmetric])
qed

theorem FailNode_dead_letter_exact_witness:
  "map dl_NodeID (r_DeadLetters demo_failed) = [''a''] \<and> r_Status demo_failed = RFailed \<and>
   r_DeadLetters (snd (FailNode demo_claim (Plain ''boom'') demo_running)) = []"
proof -
  let ?db = "demo_running\<lparr>r_Workflow := demo_workflow\<lparr>wf_Edges := [demo_edge ''a'' ''b'' False]\<rparr>\<rparr>"
  have "one_row_each ?db" "nodeStatuses ?db (cl_NodeID demo_claim) = Some NRunning" "r_Status ?db = RRunning"
    "\<not> nodeFailureHandled (r_Workflow ?db) (cl_NodeID demo_claim)" "r_DeadLetters ?db = []"
    by (unfold one_row_each_def) code_simp+
  note a = FailNode_dead_letter_exact [OF this(1,2), of "Plain ''boom''"] this
  have "one_row_each demo_running" "nodeStatuses demo_running (cl_NodeID demo_claim) = Some NRunning" "r_Status demo_running = RRunning"
    "nodeFailureHandled (r_Workflow demo_running) (cl_NodeID demo_claim)" "r_DeadLetters demo_running = []"
    by (unfold one_row_each_def) code_simp+
  note b = FailNode_dead_letter_exact [OF this(1,2), of "Plain ''boom''"] this
  show ?thesis using a b by (simp add: demo_failed_def letter_of_def) (simp add: demo_claim_def)
qed

section \<open>Redrive\<close>

lemma redrive_committed_fields:
  "r_DeadLetters (redrive_committed d opts db) = r_DeadLetters db" "r_NewID (redrive_committed d opts db) = r_NewID db"
  "r_IDs (redrive_committed d opts db) = r_IDs db"
  by (simp_all add: redrive_committed_def recordRedriveForApprovals_def StampRedriveRecoveryClaim_def Let_def case_prod_beta split: option.split)

lemma redriven_letter_spent:
  assumes "RedriveDeadLetterWithOptions i late opts db = (Ok (), db')" and "inj (r_NewID db)" and "issued db"
  shows "spent i db'"
proof -
  from assms(1) obtain d where d: "find (\<lambda>d. dl_ID d = i) (r_DeadLetters db) = Some d"
    by (auto simp: RedriveDeadLetterWithOptions_def split: option.splits)
  then have "\<exists>k<r_IDs db. i = r_NewID db k" using assms(3) by (auto simp: issued_def find_Some_iff)
  moreover have "r_DeadLetters db' = r_DeadLetters (snd (ClaimDeadLetterReplay i db))" "r_NewID db' = r_NewID db" "r_IDs db' = r_IDs db"
    using assms(1) d by (auto simp: RedriveDeadLetterWithOptions_def case_prod_beta Let_def RedriveFailedRunNode_def
        redrive_committed_fields split: if_splits)
  ultimately show ?thesis using assms(2) by (auto simp: spent_def ClaimDeadLetterReplay_def)
qed

lemma spent_refused: "spent i db \<Longrightarrow> \<exists>e. RedriveDeadLetterWithOptions i late opts db = (Err e, db)"
  by (auto simp: RedriveDeadLetterWithOptions_def spent_def ClaimDeadLetterReplay_def Let_def case_prod_beta
      filter_empty_conv split: option.split)

text \<open>
  C6: one dead letter authorises one revival. In a run started by the engine, once a redrive of a dead
  letter succeeded, every later redrive of the same dead letter is refused and changes nothing, after
  any further sequence of operations, failures of the same node included. The hypothesis on
  identifiers is that the process never issues the same one twice.
\<close>

theorem redrive_at_most_once:
  assumes "StartRun si sw = Ok db" and "seeds_settled si" and "inj (sw_NewID sw)"
    and "steps (system_of db) ls s"
    and "RedriveDeadLetterWithOptions i late opts (sy_Db s) = (Ok (), db1)"
    and "steps (with_db s db1) ls' s'"
  shows "\<exists>e. RedriveDeadLetterWithOptions i late' opts' (sy_Db s') = (Err e, sy_Db s')"
proof -
  have start: "sys_ok (system_of db)" by (rule start_sys_ok [OF assms(1,2)])
  have ids: "issued db" "inj (r_NewID db)"
    using StartRun_OkD [OF assms(1)] assms(3) by (simp_all add: issued_def new_run_def Let_def)
  have "issued (sy_Db s)" "inj (r_NewID (sy_Db s))"
    using issued.steps_keep [OF assms(4) start] ids by (simp_all add: issued_kept_def system_of_def)
  then have "spent i db1" by (intro redriven_letter_spent [OF assms(5)])
  moreover have "step s (OpRedriveDeadLetter i late opts) (with_db s db1)"
    using step.RedriveLetter [of s i late opts] assms(5) by simp
  then have "sys_ok (with_db s db1)" using step_sys_ok steps_sys_ok [OF assms(4) start] by blast
  then have "spent_kept i db1 (sy_Db s')" using spent.steps_keep [OF assms(6)] by simp
  ultimately show ?thesis using spent_refused by (simp add: spent_kept_def)
qed

definition strict_start :: start_input where
  "strict_start = demo_start\<lparr>si_Workflow := demo_workflow\<lparr>wf_Edges := [demo_edge ''a'' ''b'' False, demo_edge ''b'' ''c'' False]\<rparr>\<rparr>"

definition strict_failed :: run_db where
  "strict_failed = snd (FailNode demo_claim (Plain ''boom'') (snd (claimBatch 5 1000 (new_run strict_start demo_world))))"

lemma strict_steps:
  "StartRun strict_start demo_world = Ok (new_run strict_start demo_world)" "seeds_settled strict_start"
  "steps (system_of (new_run strict_start demo_world)) [OpClaim 5 1000, OpFail demo_claim (Plain ''boom'')]
     \<lparr>sy_Db = strict_failed, sy_Claims = [demo_claim]\<rparr>"
proof -
  show "StartRun strict_start demo_world = Ok (new_run strict_start demo_world)" "seeds_settled strict_start"
    by (simp_all add: StartRun_def resolved_input_def strict_start_def demo_start_def demo_workflow_def seeds_settled_def)
  have "fst (claimBatch 5 1000 (new_run strict_start demo_world)) = [demo_claim]" by code_simp
  then have "step (system_of (new_run strict_start demo_world)) (OpClaim 5 1000)
      \<lparr>sy_Db = snd (claimBatch 5 1000 (new_run strict_start demo_world)), sy_Claims = [demo_claim]\<rparr>" (is "step _ _ ?s")
    using step.Claim [of "system_of (new_run strict_start demo_world)" 5 1000] by (simp add: system_of_def)
  moreover have "step ?s (OpFail demo_claim (Plain ''boom'')) \<lparr>sy_Db = strict_failed, sy_Claims = [demo_claim]\<rparr>"
    using step.FailStep [of demo_claim ?s "Plain ''boom''"] by (simp add: with_db_def strict_failed_def)
  ultimately show "steps (system_of (new_run strict_start demo_world)) [OpClaim 5 1000, OpFail demo_claim (Plain ''boom'')]
     \<lparr>sy_Db = strict_failed, sy_Claims = [demo_claim]\<rparr>"
    using steps.Next [OF steps_single] by force
qed

definition demo_redrive :: redrive_options where
  "demo_redrive = \<lparr>ro_Fix = None, ro_RequestedBy = ''ops'', ro_Actor = []\<rparr>"

theorem redrive_at_most_once_witness:
  "fst (RedriveDeadLetterWithOptions ''iiii'' False demo_redrive strict_failed) = Ok () \<and>
   (\<exists>e. RedriveDeadLetterWithOptions ''iiii'' False demo_redrive
      (snd (RedriveDeadLetterWithOptions ''iiii'' False demo_redrive strict_failed)) =
      (Err e, snd (RedriveDeadLetterWithOptions ''iiii'' False demo_redrive strict_failed)))"
proof -
  have ok: "fst (RedriveDeadLetterWithOptions ''iiii'' False demo_redrive strict_failed) = Ok ()" by code_simp
  then have "RedriveDeadLetterWithOptions ''iiii'' False demo_redrive (sy_Db \<lparr>sy_Db = strict_failed, sy_Claims = [demo_claim]\<rparr>) =
      (Ok (), snd (RedriveDeadLetterWithOptions ''iiii'' False demo_redrive strict_failed))" by (simp add: prod_eq_iff)
  moreover have "inj (sw_NewID demo_world)" by (auto simp: demo_world_def inj_def dest: arg_cong [where f = length])
  ultimately show ?thesis
    using redrive_at_most_once [OF strict_steps(1,2) _ strict_steps(3) _ steps.Idle] ok by auto
qed

text \<open>
  C27: what a redrive of one node does. When the node has failed, the redrive queues it again with its
  first attempt, and revives the run if the run has failed. But a run that is not failed is left as it
  is: when it has succeeded or was cancelled, the redrive reports success and yet the queued node can
  never be claimed.
\<close>

theorem RedriveRunNode_exact:
  assumes "one_row_each db" and "nodeStatuses db v = Some NFailed"
  shows "fst (RedriveRunNode v False actor db) = Ok () \<and>
    nodeStatuses (snd (RedriveRunNode v False actor db)) = (nodeStatuses db)(v \<mapsto> NQueued) \<and>
    r_Status (snd (RedriveRunNode v False actor db)) = (if r_Status db = RFailed then RRunning else r_Status db) \<and>
    (r_Status db \<in> {RSucceeded, RCancelled, RTimedOut} \<longrightarrow>
      (\<forall>b tm. fst (claimBatch b tm (snd (RedriveRunNode v False actor db))) = []))"
proof -
  let ?r = "RedriveFailedRunNode v (fst (eventNow db)) (snd (eventNow db))"
  have one: "one_row_each (snd (eventNow db))" and st: "nodeStatuses (snd (eventNow db)) = nodeStatuses db"
    using assms(1) by (simp_all add: one_row_each_def nodeStatuses_def)
  have hit: "fst ?r \<noteq> 0" unfolding RedriveFailedRunNode_def using assms(2) one st by (subst cas_hits_node) simp_all
  have q: "nodeStatuses (snd ?r) = (nodeStatuses db)(v \<mapsto> NQueued)"
    unfolding RedriveFailedRunNode_def using assms(2) st by (subst nodeStatuses_cas [OF one]) simp_all
  have res: "r_Nodes (snd (RedriveRunNode v False actor db)) = r_Nodes (snd ?r)" "fst (RedriveRunNode v False actor db) = Ok ()"
    "r_Status (snd (RedriveRunNode v False actor db)) = (if r_Status db = RFailed then RRunning else r_Status db)"
    using hit by (simp_all add: RedriveRunNode_def Let_def case_prod_beta recordRedriveForApprovals_def ReviveFailedRun_def
        RedriveFailedRunNode_def)
  show ?thesis using res nodeStatuses_cong [OF res(1)] q
    by (auto simp: claimBatch_def queue_order_def LockClaimableRunNodes_def)
qed

definition handled_run :: run_db where
  "handled_run =
     (let failed = snd (FailNode demo_claim (Plain ''boom'') demo_running);
          claimed = claimBatch 5 100000 failed in
      snd (CompleteNode (hd (fst claimed)) JNull (snd claimed)))"

theorem RedriveRunNode_exact_witness:
  "r_Status handled_run = RSucceeded \<and> map rn_Status (r_Nodes handled_run) = [NFailed, NSkipped, NSucceeded] \<and>
   fst (RedriveRunNode ''a'' False ''ops'' handled_run) = Ok () \<and>
   nodeStatuses (snd (RedriveRunNode ''a'' False ''ops'' handled_run)) ''a'' = Some NQueued \<and>
   (\<forall>b tm. fst (claimBatch b tm (snd (RedriveRunNode ''a'' False ''ops'' handled_run))) = [])"
proof -
  have db: "one_row_each handled_run" "nodeStatuses handled_run ''a'' = Some NFailed" "r_Status handled_run = RSucceeded"
    "map rn_Status (r_Nodes handled_run) = [NFailed, NSkipped, NSucceeded]" by (unfold one_row_each_def) code_simp+
  from RedriveRunNode_exact [OF db(1,2), of "''ops''"] db(3,4) show ?thesis by simp
qed

text \<open>
  C26: a retry does not look at the run. An eligible failure of a running node queues it again with the
  next attempt and a wake-up that is no earlier than now, and leaves the run's status as it is. When
  the run was cancelled, or settled, while the node ran, the node stays queued in a run that nothing
  can claim from.
\<close>

theorem RetryOrFail_requeues:
  assumes "one_row_each db" and "nodeStatuses db (cl_NodeID c) = Some NRunning"
    and "parseRetryPolicy (n_Config n) = Some p" and "cl_Attempt c < rp_MaxAttempts p"
    and "shouldRetry (serializeError err) (Some p)"
  shows "fst (RetryOrFail c n err rnd db) = Ok () \<and>
    nodeStatuses (snd (RetryOrFail c n err rnd db)) = (nodeStatuses db)(cl_NodeID c \<mapsto> NQueued) \<and>
    r_Status (snd (RetryOrFail c n err rnd db)) = r_Status db \<and>
    map_option wk_At (r_Wakeups (snd (RetryOrFail c n err rnd db)) (cl_RowID c)) =
      Some (r_Clock db (r_Reads db) + \<lfloor>computeRetryDelay (cl_Attempt c + 1) (Some p) rnd\<rfloor>) \<and>
    (r_Status db \<noteq> RRunning \<longrightarrow> (\<forall>b tm. fst (claimBatch b tm (snd (RetryOrFail c n err rnd db))) = []))"
proof -
  define d0 where "d0 = snd (eventNow (snd (eventNow db)))"
  define wk where "wk = fst (eventNow db) + \<lfloor>computeRetryDelay (cl_Attempt c + 1) (Some p) rnd\<rfloor>"
  define q where "q = RequeueRunNodeForRetry (cl_NodeID c) (cl_Attempt c + 1) wk d0"
  have one: "one_row_each d0" and st: "nodeStatuses d0 = nodeStatuses db"
    using assms(1) by (simp_all add: d0_def one_row_each_def nodeStatuses_def)
  have hit: "fst q \<noteq> 0" unfolding q_def RequeueRunNodeForRetry_def using assms(2) one st by (subst cas_hits_node) simp_all
  have queued: "nodeStatuses (snd q) = (nodeStatuses db)(cl_NodeID c \<mapsto> NQueued)"
    unfolding q_def RequeueRunNodeForRetry_def using assms(2) st by (subst nodeStatuses_cas [OF one]) simp_all
  have lim: "retry_limit (Some p) = rp_MaxAttempts p"
    using parseRetryPolicy_limit [OF assms(3)] by (simp add: retry_limit_def)
  have res: "fst (RetryOrFail c n err rnd db) = Ok ()" "r_Nodes (snd (RetryOrFail c n err rnd db)) = r_Nodes (snd q)"
    "r_Status (snd (RetryOrFail c n err rnd db)) = r_Status db"
    "map_option wk_At (r_Wakeups (snd (RetryOrFail c n err rnd db)) (cl_RowID c)) = Some wk"
    using hit assms(3-5) lim
    by (simp_all add: RetryOrFail_def retry_tx_def inCompletionTxCommitted_def case_prod_beta Let_def d0_def [symmetric]
        wk_def [symmetric] q_def [symmetric])
      (simp_all add: q_def d0_def RequeueRunNodeForRetry_def UpsertWakeup_def add_event_def log_call_def)
  have "wk = r_Clock db (r_Reads db) + \<lfloor>computeRetryDelay (cl_Attempt c + 1) (Some p) rnd\<rfloor>" by (simp add: wk_def eventNow_def)
  with res queued nodeStatuses_cong [OF res(2)] claim_needs_running show ?thesis by (metis fst_conv)
qed

definition retry_node :: node where
  "retry_node = \<lparr>n_ID = ''a'', n_Type = ''http'', n_Label = [], n_Config = [(''retry'', JObj [(''maxAttempts'', JNum (Fin 3))])]\<rparr>"

definition retry_thrice :: retry_policy where
  "retry_thrice = \<lparr>rp_MaxAttempts = 3, rp_DelayMs = RetryDefaultDelayMS, rp_MaxDelayMs = None,
     rp_Backoff = [], rp_Jitter = False, rp_RetryOn = [], rp_IgnoreOn = []\<rparr>"

lemma retry_node_policy: "parseRetryPolicy (n_Config retry_node) = Some retry_thrice"
  by (simp add: parseRetryPolicy_def retry_node_def ResolveRetryPolicy_def retryPolicyKeys_def boundedWholeNumber_def optional_field_def
        resolveRetryMatchers_def RetryMaxAttempts_def mustFiniteNumber_def retry_thrice_def)

theorem RetryOrFail_requeues_witness:
  "r_Status (sy_Db demo_cancelled) = RCancelled \<and>
   nodeStatuses (snd (RetryOrFail demo_claim retry_node (Plain ''timeout'') 0 (sy_Db demo_cancelled))) ''a'' = Some NQueued \<and>
   (\<forall>b tm. fst (claimBatch b tm (snd (RetryOrFail demo_claim retry_node (Plain ''timeout'') 0 (sy_Db demo_cancelled)))) = [])"
proof -
  have d: "one_row_each (sy_Db demo_cancelled)" "nodeStatuses (sy_Db demo_cancelled) (cl_NodeID demo_claim) = Some NRunning"
    "r_Status (sy_Db demo_cancelled) = RCancelled" by (unfold one_row_each_def) code_simp+
  have "cl_Attempt demo_claim < rp_MaxAttempts retry_thrice" "shouldRetry (serializeError (Plain ''timeout'')) (Some retry_thrice)"
    by (simp_all add: demo_claim_def retry_thrice_def shouldRetry_def)
  from RetryOrFail_requeues [OF d(1,2) retry_node_policy this, of 0] d(3) show ?thesis by (simp add: demo_claim_def)
qed

section \<open>Claims\<close>

definition claimable :: "int \<Rightarrow> run_db \<Rightarrow> run_node \<Rightarrow> bool" where
  "claimable tm db r \<longleftrightarrow> due tm db r \<and> r_Status db = RRunning"

definition batch_rows :: "nat \<Rightarrow> int \<Rightarrow> run_db \<Rightarrow> run_node list" where
  "batch_rows b tm db = take b (sort_key rn_EnqueuedAt (sort_key rn_ID (filter (claimable tm db) (r_Nodes db))))"

lemma same_id_same_row: "distinct (map rn_ID rs) \<Longrightarrow> r \<in> set rs \<Longrightarrow> r' \<in> set rs \<Longrightarrow> rn_ID r = rn_ID r' \<Longrightarrow> r = r'"
  by (auto simp: distinct_map dest: inj_onD)

lemma queue_order_rows:
  assumes "distinct (map rn_ID (r_Nodes db))"
  shows "take b (queue_order db tm) = map rn_ID (batch_rows b tm db)"
proof -
  have "filter (\<lambda>r. rn_ID r \<in> set (LockClaimableRunNodes tm db)) (r_Nodes db) = filter (claimable tm db) (r_Nodes db)"
    using same_id_same_row [OF assms] by (intro filter_cong) (auto simp: LockClaimableRunNodes_def claimable_def)
  then show ?thesis by (simp add: queue_order_def batch_rows_def take_map)
qed

lemma batch_rows_claimable: "r \<in> set (batch_rows b tm db) \<Longrightarrow> r \<in> set (r_Nodes db) \<and> claimable tm db r"
  by (auto simp: batch_rows_def dest: in_set_takeD)

lemma foldl_events_nodes:
  "r_Nodes (foldl (\<lambda>d r. let (t1, d1) = eventNow d in add_event (rn_NodeID r) ty t1 d1) db rows) = r_Nodes db"
  by (induction rows arbitrary: db) (simp_all add: case_prod_beta Let_def)

lemma claimBatch_rows:
  assumes "distinct (map rn_ID (r_Nodes db))"
  shows "fst (claimBatch b tm db) = map claim_of (filter (\<lambda>r. r \<in> set (batch_rows b tm db)) (r_Nodes db))"
    "r_Nodes (snd (claimBatch b tm db)) =
      map (\<lambda>r. if r \<in> set (batch_rows b tm db) then r\<lparr>rn_Status := NRunning, rn_StartedAt := Some tm\<rparr> else r) (r_Nodes db)"
proof -
  have mem: "rn_ID r \<in> set (map rn_ID (batch_rows b tm db)) \<and> due tm db r \<longleftrightarrow> r \<in> set (batch_rows b tm db)"
    if "r \<in> set (r_Nodes db)" for r
  proof
    assume *: "rn_ID r \<in> set (map rn_ID (batch_rows b tm db)) \<and> due tm db r"
    then obtain r' where r': "r' \<in> set (batch_rows b tm db)" "rn_ID r = rn_ID r'" by auto
    then have "r' = r" using same_id_same_row [OF assms] that batch_rows_claimable by metis
    with r' show "r \<in> set (batch_rows b tm db)" by simp
  qed (auto dest: batch_rows_claimable simp: claimable_def)
  have rows: "filter (\<lambda>r. rn_ID r \<in> set (map rn_ID (batch_rows b tm db)) \<and> due tm db r) (r_Nodes db) =
      filter (\<lambda>r. r \<in> set (batch_rows b tm db)) (r_Nodes db)"
    using mem by (intro filter_cong) auto
  have none: "filter (\<lambda>r. False) xs = []" for xs :: "run_node list" by simp
  show "fst (claimBatch b tm db) = map claim_of (filter (\<lambda>r. r \<in> set (batch_rows b tm db)) (r_Nodes db))"
    unfolding claimBatch_def queue_order_rows [OF assms] Let_def rows by (auto simp: none)
  have marked: "map (\<lambda>r. if rn_ID r \<in> set (map rn_ID (batch_rows b tm db)) \<and> due tm db r then f r else r) (r_Nodes db) =
      map (\<lambda>r. if r \<in> set (batch_rows b tm db) then f r else r) (r_Nodes db)" for f
    using mem by (intro map_cong) auto
  have "r_Nodes (snd (claimBatch b tm db)) =
      map (\<lambda>r. if rn_ID r \<in> set (map rn_ID (batch_rows b tm db)) \<and> due tm db r
        then r\<lparr>rn_Status := NRunning, rn_StartedAt := Some tm\<rparr> else r) (r_Nodes db)"
  proof (cases "batch_rows b tm db = []")
    case False
    then show ?thesis unfolding claimBatch_def queue_order_rows [OF assms] Let_def
      by (simp add: foldl_events_nodes [unfolded Let_def] MarkLockedNodesRunning_def cas_def)
  qed (simp add: claimBatch_def queue_order_rows [OF assms])
  then show "r_Nodes (snd (claimBatch b tm db)) =
      map (\<lambda>r. if r \<in> set (batch_rows b tm db) then r\<lparr>rn_Status := NRunning, rn_StartedAt := Some tm\<rparr> else r) (r_Nodes db)"
    by (simp only: marked)
qed

lemma sorted_take_le:
  assumes "sorted (map f xs)" "x \<in> set (take n xs)" "y \<in> set xs" "y \<notin> set (take n xs)"
  shows "f x \<le> f y"
proof -
  have "set xs = set (take n xs) \<union> set (drop n xs)" by (metis append_take_drop_id set_append)
  then have "y \<in> set (drop n xs)" using assms(3,4) by blast
  moreover have "sorted (map f (take n xs) @ map f (drop n xs))" using assms(1) by (metis append_take_drop_id map_append)
  ultimately show ?thesis using assms(2) by (auto simp: sorted_append)
qed

text \<open>
  C19: a claim takes exactly the nodes it may. With distinct row identifiers, a batch claim returns
  one claim per row it marks running, at most the batch size and as many as there are claimable rows
  up to it; each of those rows was queued and due, with no wake-up in the future, in a running run;
  the rows claimed are the ones queued first; and every other row is left as it is.
\<close>

theorem claimBatch_exact:
  assumes "distinct (map rn_ID (r_Nodes db))"
  shows "\<exists>B. set B \<subseteq> set (r_Nodes db) \<and> distinct B \<and>
    length B = min b (length (filter (\<lambda>r. due tm db r \<and> r_Status db = RRunning) (r_Nodes db))) \<and>
    (\<forall>r\<in>set B. due tm db r \<and> r_Status db = RRunning) \<and>
    (\<forall>r\<in>set B. \<forall>r'\<in>set (r_Nodes db) - set B. due tm db r' \<longrightarrow> rn_EnqueuedAt r \<le> rn_EnqueuedAt r') \<and>
    fst (claimBatch b tm db) = map claim_of (filter (\<lambda>r. r \<in> set B) (r_Nodes db)) \<and>
    r_Nodes (snd (claimBatch b tm db)) =
      map (\<lambda>r. if r \<in> set B then r\<lparr>rn_Status := NRunning, rn_StartedAt := Some tm\<rparr> else r) (r_Nodes db)"
proof (intro exI [of _ "batch_rows b tm db"] conjI claimBatch_rows [OF assms])
  have rows: "distinct (r_Nodes db)" using assms distinct_map by blast
  show "distinct (batch_rows b tm db)" using rows by (simp add: batch_rows_def)
  show "length (batch_rows b tm db) = min b (length (filter (\<lambda>r. due tm db r \<and> r_Status db = RRunning) (r_Nodes db)))"
    by (simp add: batch_rows_def claimable_def [abs_def] min.commute)
  show "\<forall>r\<in>set (batch_rows b tm db). \<forall>r'\<in>set (r_Nodes db) - set (batch_rows b tm db). due tm db r' \<longrightarrow> rn_EnqueuedAt r \<le> rn_EnqueuedAt r'"
  proof (intro ballI impI)
    fix r r' assume r: "r \<in> set (batch_rows b tm db)" and r': "r' \<in> set (r_Nodes db) - set (batch_rows b tm db)" "due tm db r'"
    then have "r' \<in> set (sort_key rn_EnqueuedAt (sort_key rn_ID (filter (claimable tm db) (r_Nodes db))))"
      using batch_rows_claimable [OF r] by (simp add: claimable_def)
    with r r' show "rn_EnqueuedAt r \<le> rn_EnqueuedAt r'"
      using sorted_take_le [OF sorted_sort_key, of r b rn_EnqueuedAt] unfolding batch_rows_def by blast
  qed
qed (auto dest: batch_rows_claimable simp: claimable_def)

theorem claimBatch_exact_witness:
  "\<exists>B. length B = 1 \<and> fst (claimBatch 5 1000 demo_db) = map claim_of (filter (\<lambda>r. r \<in> set B) (r_Nodes demo_db))"
proof -
  have "distinct (map rn_ID (r_Nodes demo_db))" "length (filter (\<lambda>r. due 1000 demo_db r \<and> r_Status demo_db = RRunning) (r_Nodes demo_db)) = 1"
    by code_simp+
  with claimBatch_exact [of demo_db 5 1000] show ?thesis by auto
qed

section \<open>Progress\<close>




text \<open>
  C4: what a readiness scan does. Its local view agrees with the rows, it touches only nodes that were
  pending, every node it queues has all its dependencies satisfied (an ordinary edge by success or
  skip, an on-error edge by failure), and it leaves a node of the document pending only while some
  dependency is still undecided: neither satisfied nor doomed. The scan ends on every graph, cyclic
  ones included.
\<close>

theorem scan_exact:
  assumes "one_row_each db" and "s = scan_loop w (start_scan db)"
  shows "nodeStatuses (sn_Db s) = sn_Status s \<and> r_Status (sn_Db s) = r_Status db \<and>
    (\<forall>v. nodeStatuses db v \<noteq> Some NPending \<longrightarrow> sn_Status s v = nodeStatuses db v) \<and>
    (\<forall>v. nodeStatuses db v = Some NPending \<longrightarrow> sn_Status s v \<in> Some ` {NPending, NSkipped, NQueued}) \<and>
    (\<forall>v. nodeStatuses db v = Some NPending \<and> sn_Status s v = Some NQueued \<longrightarrow> depsSatisfied w v (sn_Status s)) \<and>
    (\<forall>v\<in>set (node_ids (wf_Nodes w)). sn_Status s v = Some NPending \<longrightarrow>
       \<not> depsSatisfied w v (sn_Status s) \<and> \<not> depsDoomed w v (sn_Status s))"
proof -
  have init: "sn_Status (start_scan db) = nodeStatuses db" "sn_Db (start_scan db) = db" by (simp_all add: start_scan_def)
  note ok = scan_loop_ok [OF agree_start [OF assms(1)], of w, folded assms(2), unfolded scan_ok_def same_run_def agree_def ready_def init]
  have "sn_Status s v = nodeStatuses db v" if "nodeStatuses db v \<noteq> Some NPending" for v
    using ok that by (blast dest: advances_settled)
  moreover have "sn_Status s v \<in> Some ` {NPending, NSkipped, NQueued}" if "nodeStatuses db v = Some NPending" for v
    using ok that unfolding advances_def by (metis image_insert insertI1 insertI2)
  ultimately show ?thesis using ok by blast
qed

theorem scan_exact_witness:
  "sn_Status (scan_loop demo_workflow (start_scan demo_db)) ''b'' = Some NPending \<and>
   \<not> depsSatisfied demo_workflow ''b'' (sn_Status (scan_loop demo_workflow (start_scan demo_db)))"
proof -
  have "one_row_each demo_db" by (unfold one_row_each_def) code_simp
  moreover have "sn_Status (scan_loop demo_workflow (start_scan demo_db)) ''b'' = Some NPending"
    "''b'' \<in> set (node_ids (wf_Nodes demo_workflow))" by code_simp+
  ultimately show ?thesis using scan_exact [of demo_db _ demo_workflow, OF _ refl] by blast
qed

section \<open>Semantic quarantine\<close>








end
