(* ===== verification/Deadlines.thy ===== *)
theory Deadlines
  imports Demo
begin

text \<open>
  From the configuration of an approval to the timer its checkpoint arms: the executor of
  \<^verbatim>\<open>internal/executors/waiting.go\<close>, the metadata \<^verbatim>\<open>internal/domain/approvalwaiting.go\<close> materialises, and
  \<^verbatim>\<open>MarkNodeWaiting\<close> of \<^verbatim>\<open>internal/engine/waiting.go\<close> composed.
\<close>

section \<open>The years an instant can be written in\<close>

lemma four_digit_years: "0 \<le> s \<Longrightarrow> d_Year (c_Date (civil_of s)) \<in> {0..9999} \<longleftrightarrow> s < 253402300800"
proof -
  assume "0 \<le> s"
  then have "0 \<le> s div 86400" by (simp add: div_int_pos_iff)
  then have "\<not> year_of (s div 86400 + epoch_day) \<le> - 1"
    by (simp add: year_le_iff before_year_def epoch_day_def)
  moreover have "year_of (s div 86400 + epoch_day) \<le> 9999 \<longleftrightarrow> s div 86400 < 2932897"
    by (simp add: year_le_iff before_year_def epoch_day_def)
  moreover have "s div 86400 < 2932897 \<longleftrightarrow> s < 253402300800"
    using div_bounds [of 86400 s] by auto
  ultimately show ?thesis by (auto simp: year_of_civil)
qed

lemma parse_format_millis:
  assumes "0 \<le> ms"
  shows "parse_millis (format_millis ms) = (if ms < 253402300800000 then Some ms else None)"
proof -
  have "of_millis ms div 1000000000 = ms div 1000"
    using div_mult_mult1 [of 1000000 ms 1000] by (simp add: of_millis_def mult.commute)
  moreover have "0 \<le> ms div 1000" using assms by (simp add: div_int_pos_iff)
  moreover have "ms div 1000 < 253402300800 \<longleftrightarrow> ms < 253402300800000"
    using div_bounds [of 1000 ms] by auto
  ultimately show ?thesis
    using instant_round_trip [of "of_millis ms"] four_digit_years [of "ms div 1000"]
    by (simp add: parse_millis_def format_millis_def UnixMilli_def of_millis_def)
qed

section \<open>Relative deadlines\<close>

lemma approval_metadata:
  assumes "executeApproval runID nodeID config now = Ok w"
    and "safePositiveInteger (map_of config ''decisionTimeoutMs'') = Some timeout"
  shows "map_of (wr_Metadata w) ''kind'' = Some (JStr ''approval'')" "map_of (wr_Metadata w) ''deadlineAt'' = None"
    "map_of (wr_Metadata w) ''decisionTimeoutMs'' = Some (JNum (Fin (of_int timeout)))"
proof -
  obtain raw where raw: "map_of config ''decisionTimeoutMs'' = Some raw"
    using assms(2) by (cases "map_of config ''decisionTimeoutMs''") (auto simp: safePositiveInteger_def)
  from assms(1) obtain r where r: "ResolveApprovalWaitingConfig config now = Ok r"
    by (auto simp: executeApproval_def bindE_Ok_iff)
  with raw assms(2) have "ac_RelativeTimeoutMS r = Some timeout"
    by (auto simp: ResolveApprovalWaitingConfig_def approval_deadline_def Let_def bindE_Ok_iff split: if_splits)
  with r assms(1) show "map_of (wr_Metadata w) ''kind'' = Some (JStr ''approval'')" "map_of (wr_Metadata w) ''deadlineAt'' = None"
    "map_of (wr_Metadata w) ''decisionTimeoutMs'' = Some (JNum (Fin (of_int timeout)))"
    by (auto simp: executeApproval_def approval_title_def Let_def)
qed

lemma safePositiveInteger_of_int:
  "safePositiveInteger v = Some n \<Longrightarrow> safePositiveInteger (Some (JNum (Fin (of_int n)))) = Some n"
  by (auto simp: safePositiveInteger_def whole_def split: option.splits json.splits f64.splits if_splits)

text \<open>
  C40: the checkpoint of an approval with a relative deadline. From a configuration the executor
  accepted, the checkpoint is written when the deadline falls before the year 10000, and is refused
  with an unreadable deadline after it, although the configuration allows deadlines up to the year
  275760.
\<close>

theorem approval_checkpoint_exact:
  assumes "executeApproval runID nodeID config now = Ok w"
    and "safePositiveInteger (map_of config ''decisionTimeoutMs'') = Some timeout"
    and "fst (eventNow db) = t" and "0 \<le> t" and "supported_millis (t + timeout)"
  shows "fst (MarkNodeWaiting c (wr_Metadata w) (wr_WakeAt w) db) =
    (if t + timeout < 253402300800000 then Ok () else Err (InvalidDeadline (format_millis (t + timeout))))"
proof -
  note meta = approval_metadata [OF assms(1,2)]
  have "0 < timeout" using assms(2)
    by (auto simp: safePositiveInteger_def whole_def split: option.splits json.splits f64.splits if_splits)
  then have pf: "parse_millis (format_millis (t + timeout)) = (if t + timeout < 253402300800000 then Some (t + timeout) else None)"
    using assms(4) by (intro parse_format_millis) simp
  have "UnixMilli (of_millis t) = t" by (simp add: UnixMilli_def of_millis_def)
  then have "waiting_wakeup (AList.update ''waitingSince'' (JStr (format_millis t))
       (MaterializeApprovalWaitingMetadata (wr_Metadata w) (of_millis t))) (wr_WakeAt w) =
     (if t + timeout < 253402300800000 then Ok (Some (t + timeout, ''approval_timeout''))
      else Err (InvalidDeadline (format_millis (t + timeout))))"
    using meta assms(5) safePositiveInteger_of_int [OF assms(2)]
    by (simp add: MaterializeApprovalWaitingMetadata_def waiting_wakeup_def get_str_def Let_def update_conv' pf)
  moreover have "fst (inCompletionTxCommitted (waiting_tx c m k u) d) = Ok None \<or>
      fst (inCompletionTxCommitted (waiting_tx c m k u) d) = Ok (Some ())" for m k u d
    by (auto simp: inCompletionTxCommitted_def waiting_tx_def Let_def split: prod.splits)
  ultimately show ?thesis
    using assms(3) by (auto simp: MarkNodeWaiting_def eventNow_def Let_def split: prod.splits sum.splits) (metis fst_conv sum.simps(4))+
qed


definition far_config :: jmap where
  "far_config = [(''decisionTimeoutMs'', JNum (Fin 8000000000000000))]"

lemma far_timeout: "safePositiveInteger (map_of far_config ''decisionTimeoutMs'') = Some 8000000000000000"
  by (simp add: far_config_def safePositiveInteger_def)

lemma far_executes: "is_ok (executeApproval ''r'' ''a'' far_config 0)"
  using far_timeout
  by (simp add: executeApproval_def ResolveApprovalWaitingConfig_def approval_deadline_def far_config_def supported_millis_def
      maxJSTimestampMillis_def UnixMilli_def optionalWaitingLabel_def Let_def)

theorem approval_checkpoint_exact_witness:
  "\<exists>w. executeApproval ''r'' ''a'' far_config 0 = Ok w \<and>
     fst (MarkNodeWaiting demo_claim (wr_Metadata w) (wr_WakeAt w) demo_db) =
       Err (InvalidDeadline (format_millis (fst (eventNow demo_db) + 8000000000000000)))"
proof -
  obtain w where w: "executeApproval ''r'' ''a'' far_config 0 = Ok w" using far_executes by (auto simp: is_ok_iff)
  have t: "0 \<le> fst (eventNow demo_db)" "fst (eventNow demo_db) \<le> 1000000" by code_simp+
  then have "supported_millis (fst (eventNow demo_db) + 8000000000000000)"
    by (simp add: supported_millis_def maxJSTimestampMillis_def)
  from approval_checkpoint_exact [OF w far_timeout refl t(1) this, of demo_claim] t w show ?thesis by auto
qed

end
