(* ===== verification/Template.thy ===== *)
theory Template
  imports Expression
begin

text \<open>
  Template rendering, \<^verbatim>\<open>internal/grammar/template.go\<close>: references in double braces are replaced by values of
  the run, secrets or environment variables, and the resolved secrets and variables are collected for
  redaction. The text of a number and of a serialised container and the Unicode upper case are fields
  of a record of outside functions. Go visits the entries of a map in no fixed order, so the order of
  the collected lists is open there; unresolved paths are sorted at the end, as in the code.
\<close>

record text_library =
  tl_Number :: "f64 \<Rightarrow> string"
  tl_Marshal :: "json \<Rightarrow> string"
  tl_ToUpper :: "string \<Rightarrow> string"

definition MinRedactedLength :: nat where "MinRedactedLength = 4"

section \<open>References\<close>

text \<open>
  The pattern of a string that is one template reference: white space, two braces, a body without a
  closing brace, two braces, white space. The body, trimmed, is the expression.
\<close>

definition regex_space :: "char \<Rightarrow> bool" where
  "regex_space c \<longleftrightarrow> c \<in> {CHR 0x20, CHR 0x09, CHR 0x0A, CHR 0x0C, CHR 0x0D}"

definition regex_trim :: "string \<Rightarrow> string" where
  "regex_trim s = rev (dropWhile regex_space (rev (dropWhile regex_space s)))"

definition singleRefPattern :: "string \<Rightarrow> string option" where
  "singleRefPattern value = (let s = regex_trim value; body = take (length s - 4) (drop 2 s) in
     if length s > 4 \<and> prefix ''{{'' s \<and> suffix ''}}'' s \<and> CHR ''}'' \<notin> set body then Some body else None)"

definition WholeTemplateReference :: "string \<Rightarrow> string option" where
  "WholeTemplateReference value = (case singleRefPattern value of
     None \<Rightarrow> None
   | Some body \<Rightarrow> if TrimSpace body = [] then None else Some (TrimSpace body))"

text \<open>
  \<^verbatim>\<open>multiRefPattern\<close>: the first reference of a string with the text in front of it and behind it. A
  reference starts at two braces, and its body ends at the first closing brace, which a second one
  must follow.
\<close>

datatype piece = Plain_text string | Reference string

definition ref_at :: "string \<Rightarrow> (string \<times> string) option" where
  "ref_at s = (let body = takeWhile (\<lambda>c. c \<noteq> CHR ''}'') (drop 2 s); after = dropWhile (\<lambda>c. c \<noteq> CHR ''}'') (drop 2 s) in
     if prefix ''{{'' s \<and> body \<noteq> [] \<and> prefix ''}}'' after then Some (body, drop 2 after) else None)"

lemma ref_at_shorter: "ref_at s = Some (body, rest) \<Longrightarrow> length rest < length s"
proof -
  assume "ref_at s = Some (body, rest)"
  then have "prefix ''{{'' s" "rest = drop 2 (dropWhile (\<lambda>c. c \<noteq> CHR ''}'') (drop 2 s))"
    by (auto simp: ref_at_def Let_def split: if_splits)
  moreover have "length (drop 2 (dropWhile (\<lambda>c. c \<noteq> CHR ''}'') (drop 2 s))) \<le> length (drop 2 s)"
    using length_dropWhile_le [of "\<lambda>c. c \<noteq> CHR ''}''" "drop 2 s"] by simp
  ultimately show ?thesis by (auto simp: prefix_def)
qed

function pieces :: "string \<Rightarrow> piece list" where
  "pieces s = (case s of
     [] \<Rightarrow> []
   | c # r \<Rightarrow> (case ref_at s of
       Some (body, rest) \<Rightarrow> Reference body # pieces rest
     | None \<Rightarrow> Plain_text [c] # pieces r))"
  by pat_completeness auto
termination
  by (relation "measure length") (auto dest: ref_at_shorter)

declare pieces.simps [simp del]

definition reference_text :: "string \<Rightarrow> string" where
  "reference_text body = ''{{'' @ body @ ''}}''"

definition pathRoot :: "string \<Rightarrow> string" where
  "pathRoot expr = (case Cut CHR ''.'' expr of Some (before, _) \<Rightarrow> before | None \<Rightarrow> expr)"

section \<open>Resolution\<close>

record render_options =
  ro_LookupEnv :: "(string \<Rightarrow> string option) option"
  ro_LookupSecret :: "(string \<Rightarrow> string option) option"
  ro_DeferredRoots :: "string list"

record render_state =
  rd_redacted :: "string list"
  rd_unresolved :: "string list"

datatype render_error = MissingSecretError string

definition trackRedacted :: "string \<Rightarrow> render_state \<Rightarrow> render_state" where
  "trackRedacted v st = (if v \<in> set (rd_redacted st) then st else st\<lparr>rd_redacted := rd_redacted st @ [v]\<rparr>)"

definition safe_path :: "string \<Rightarrow> string" where
  "safe_path p = (if prefix ''secret.'' p then ''secret.*'' else if prefix ''env.'' p then ''env.*''
     else if length p > 160 then take 160 p else p)"

definition trackUnresolved :: "string \<Rightarrow> render_state \<Rightarrow> render_state" where
  "trackUnresolved p st = (if safe_path p \<in> set (rd_unresolved st) then st
     else st\<lparr>rd_unresolved := rd_unresolved st @ [safe_path p]\<rparr>)"

definition lookup :: "(string \<Rightarrow> string option) option \<Rightarrow> string \<Rightarrow> string option" where
  "lookup f name = (case f of None \<Rightarrow> None | Some g \<Rightarrow> g name)"

definition resolveSecret :: "text_library \<Rightarrow> render_options \<Rightarrow> string \<Rightarrow> render_state \<Rightarrow> render_error + (string \<times> render_state)" where
  "resolveSecret lib opts expr st = (let name = tl_ToUpper lib (drop 7 expr) in
     case lookup (ro_LookupSecret opts) name of
       None \<Rightarrow> Err (MissingSecretError name)
     | Some v \<Rightarrow>
         if v = [] then Err (MissingSecretError name)
         else Ok (v, if length v \<ge> MinRedactedLength then trackRedacted v st else st))"

definition resolveEnv :: "text_library \<Rightarrow> render_options \<Rightarrow> string \<Rightarrow> render_state \<Rightarrow> string \<times> render_state" where
  "resolveEnv lib opts expr st = (let name = tl_ToUpper lib (drop 4 expr) in
     case lookup (ro_LookupEnv opts) name of
       None \<Rightarrow> ([], trackUnresolved expr st)
     | Some v \<Rightarrow> (v, if v \<noteq> [] \<and> length v \<ge> MinRedactedLength then trackRedacted v st else st))"

definition GetByPath :: "json \<Rightarrow> string \<Rightarrow> json option" where
  "GetByPath source p = (case walk_path (Val source) (split_on CHR ''.'' p) of Undef \<Rightarrow> None | Val v \<Rightarrow> Some v)"

fun js_text :: "text_library \<Rightarrow> json \<Rightarrow> string" where
  "js_text lib (JStr s) = s"
| "js_text lib (JBool b) = (if b then ''true'' else ''false'')"
| "js_text lib (JNum NaN) = ''NaN''"
| "js_text lib (JNum PosInf) = ''Infinity''"
| "js_text lib (JNum NegInf) = ''-Infinity''"
| "js_text lib (JNum (Fin q)) = tl_Number lib (Fin q)"
| "js_text lib _ = []"

section \<open>Rendering\<close>

text \<open>A string that is one reference keeps the native type of the value.\<close>

definition render_whole :: "text_library \<Rightarrow> render_options \<Rightarrow> json \<Rightarrow> string \<Rightarrow> string \<Rightarrow> render_state \<Rightarrow> render_error + (json \<times> render_state)" where
  "render_whole lib opts scope v expr st =
     (if pathRoot expr \<in> set (ro_DeferredRoots opts) then Ok (JStr v, st)
      else if prefix ''secret.'' expr then bindE (resolveSecret lib opts expr st) (\<lambda>(r, st'). Ok (JStr r, st'))
      else if prefix ''env.'' expr then (let (r, st') = resolveEnv lib opts expr st in Ok (JStr r, st'))
      else case GetByPath scope expr of
        None \<Rightarrow> Ok (JStr [], trackUnresolved expr st)
      | Some JNull \<Rightarrow> Ok (JStr [], st)
      | Some r \<Rightarrow> Ok (r, st))"

definition render_reference :: "text_library \<Rightarrow> render_options \<Rightarrow> json \<Rightarrow> string \<Rightarrow> render_state \<Rightarrow> render_error + (string \<times> render_state)" where
  "render_reference lib opts scope body st = (let expr = TrimSpace body in
     if pathRoot expr \<in> set (ro_DeferredRoots opts) then Ok (reference_text body, st)
     else if prefix ''secret.'' expr then resolveSecret lib opts expr st
     else if prefix ''env.'' expr then Ok (resolveEnv lib opts expr st)
     else case GetByPath scope expr of
       None \<Rightarrow> Ok ([], trackUnresolved expr st)
     | Some JNull \<Rightarrow> Ok ([], st)
     | Some (JObj m) \<Rightarrow> Ok (tl_Marshal lib (JObj m), st)
     | Some (JArr xs) \<Rightarrow> Ok (tl_Marshal lib (JArr xs), st)
     | Some v \<Rightarrow> Ok (js_text lib v, st))"

fun render_pieces :: "text_library \<Rightarrow> render_options \<Rightarrow> json \<Rightarrow> piece list \<Rightarrow> render_state \<Rightarrow> render_error + (string \<times> render_state)" where
  "render_pieces lib opts scope [] st = Ok ([], st)"
| "render_pieces lib opts scope (Plain_text s # ps) st =
     bindE (render_pieces lib opts scope ps st) (\<lambda>(t, st'). Ok (s @ t, st'))"
| "render_pieces lib opts scope (Reference body # ps) st =
     bindE (render_reference lib opts scope body st) (\<lambda>(s, st').
     bindE (render_pieces lib opts scope ps st') (\<lambda>(t, st''). Ok (s @ t, st'')))"

definition renderString :: "text_library \<Rightarrow> render_options \<Rightarrow> json \<Rightarrow> string \<Rightarrow> render_state \<Rightarrow> render_error + (json \<times> render_state)" where
  "renderString lib opts scope v st = (case WholeTemplateReference v of
     Some expr \<Rightarrow> render_whole lib opts scope v expr st
   | None \<Rightarrow> bindE (render_pieces lib opts scope (pieces v) st) (\<lambda>(s, st'). Ok (JStr s, st')))"

fun renderValue :: "text_library \<Rightarrow> render_options \<Rightarrow> json \<Rightarrow> json \<Rightarrow> render_state \<Rightarrow> render_error + (json \<times> render_state)"
and render_list :: "text_library \<Rightarrow> render_options \<Rightarrow> json \<Rightarrow> json list \<Rightarrow> render_state \<Rightarrow> render_error + (json list \<times> render_state)"
and render_map :: "text_library \<Rightarrow> render_options \<Rightarrow> json \<Rightarrow> string list \<Rightarrow> jmap \<Rightarrow> render_state \<Rightarrow> render_error + (jmap \<times> render_state)" where
  "renderValue lib opts scope (JStr s) st = renderString lib opts scope s st"
| "renderValue lib opts scope (JArr xs) st = bindE (render_list lib opts scope xs st) (\<lambda>(ys, st'). Ok (JArr ys, st'))"
| "renderValue lib opts scope (JObj m) st = bindE (render_map lib opts scope [] m st) (\<lambda>(m', st'). Ok (JObj m', st'))"
| "renderValue lib opts scope v st = Ok (v, st)"
| "render_list lib opts scope [] st = Ok ([], st)"
| "render_list lib opts scope (x # xs) st =
     bindE (renderValue lib opts scope x st) (\<lambda>(y, st').
     bindE (render_list lib opts scope xs st') (\<lambda>(ys, st''). Ok (y # ys, st'')))"
| "render_map lib opts scope seen [] st = Ok ([], st)"
| "render_map lib opts scope seen ((k, v) # m) st =
     (if k \<in> set seen then render_map lib opts scope seen m st
      else bindE (renderValue lib opts scope v st) (\<lambda>(y, st').
        bindE (render_map lib opts scope (k # seen) m st') (\<lambda>(m', st''). Ok ((k, y) # m', st''))))"

record render_result =
  rr_Rendered :: json
  rr_RedactedValues :: "string list"
  rr_UnresolvedPaths :: "string list"

definition RenderTemplateWithRedactions :: "text_library \<Rightarrow> json \<Rightarrow> json \<Rightarrow> render_options \<Rightarrow> render_error + render_result" where
  "RenderTemplateWithRedactions lib v scope opts =
     bindE (renderValue lib opts scope v \<lparr>rd_redacted = [], rd_unresolved = []\<rparr>) (\<lambda>(r, st).
       Ok \<lparr>rr_Rendered = r, rr_RedactedValues = rd_redacted st, rr_UnresolvedPaths = sort (rd_unresolved st)\<rparr>)"

definition no_lookups :: render_options where
  "no_lookups = \<lparr>ro_LookupEnv = None, ro_LookupSecret = None, ro_DeferredRoots = []\<rparr>"

definition RenderTemplate :: "text_library \<Rightarrow> json \<Rightarrow> json \<Rightarrow> render_error + json" where
  "RenderTemplate lib v scope = bindE (RenderTemplateWithRedactions lib v scope no_lookups) (\<lambda>r. Ok (rr_Rendered r))"

definition MapInput :: "text_library \<Rightarrow> json option \<Rightarrow> json \<Rightarrow> render_error + json" where
  "MapInput lib mapping scope = (case mapping of
     None \<Rightarrow> Ok (JObj []) | Some JNull \<Rightarrow> Ok (JObj []) | Some v \<Rightarrow> RenderTemplate lib v scope)"

definition MaxRecordedUnresolvedPaths :: nat where "MaxRecordedUnresolvedPaths = 20"

record unresolved_error =
  ue_Count :: nat
  ue_Paths :: "string list"
  ue_Truncated :: bool

definition NewUnresolvedTemplatePathError :: "string list \<Rightarrow> unresolved_error" where
  "NewUnresolvedTemplatePathError paths = (let bounded = take MaxRecordedUnresolvedPaths paths in
     \<lparr>ue_Count = length paths, ue_Paths = bounded, ue_Truncated = (length paths > length bounded)\<rparr>)"

section \<open>Every secret that is used is tracked\<close>

text \<open>The references of a value, in the order they are resolved.\<close>

definition refs_string :: "string \<Rightarrow> string list" where
  "refs_string v = (case WholeTemplateReference v of
     Some expr \<Rightarrow> [expr]
   | None \<Rightarrow> List.map_filter (\<lambda>p. case p of Reference body \<Rightarrow> Some (TrimSpace body) | Plain_text _ \<Rightarrow> None) (pieces v))"

fun refs :: "json \<Rightarrow> string list" and refs_list :: "json list \<Rightarrow> string list" and refs_map :: "string list \<Rightarrow> jmap \<Rightarrow> string list" where
  "refs (JStr s) = refs_string s"
| "refs (JArr xs) = refs_list xs"
| "refs (JObj m) = refs_map [] m"
| "refs _ = []"
| "refs_list [] = []"
| "refs_list (x # xs) = refs x @ refs_list xs"
| "refs_map seen [] = []"
| "refs_map seen ((k, v) # m) = (if k \<in> set seen then refs_map seen m else refs v @ refs_map (k # seen) m)"

text \<open>The secret or variable a reference resolves to, unless it is left for a later pass.\<close>

definition reveals :: "text_library \<Rightarrow> render_options \<Rightarrow> string \<Rightarrow> string option" where
  "reveals lib opts e =
     (if pathRoot e \<in> set (ro_DeferredRoots opts) then None
      else if prefix ''secret.'' e then lookup (ro_LookupSecret opts) (tl_ToUpper lib (drop 7 e))
      else if prefix ''env.'' e then lookup (ro_LookupEnv opts) (tl_ToUpper lib (drop 4 e))
      else None)"

definition missing :: "text_library \<Rightarrow> render_options \<Rightarrow> string \<Rightarrow> bool" where
  "missing lib opts e \<longleftrightarrow> pathRoot e \<notin> set (ro_DeferredRoots opts) \<and> prefix ''secret.'' e \<and>
     lookup (ro_LookupSecret opts) (tl_ToUpper lib (drop 7 e)) \<in> {None, Some []}"

definition tracked :: "text_library \<Rightarrow> render_options \<Rightarrow> string list \<Rightarrow> string set" where
  "tracked lib opts es = {s. MinRedactedLength \<le> length s \<and> (\<exists>e\<in>set es. reveals lib opts e = Some s)}"

definition tracks :: "text_library \<Rightarrow> render_options \<Rightarrow> string list \<Rightarrow> render_state \<Rightarrow> render_error + ('a \<times> render_state) \<Rightarrow> bool" where
  "tracks lib opts es st r = (case r of
     Inl _ \<Rightarrow> list_ex (missing lib opts) es
   | Inr (_, st') \<Rightarrow> \<not> list_ex (missing lib opts) es \<and> set (rd_redacted st') = set (rd_redacted st) \<union> tracked lib opts es)"

lemma tracks_Ok [simp]: "tracks lib opts [] st (Inr (x, st))"
  by (simp add: tracks_def tracked_def)

lemma tracked_append: "tracked lib opts (es @ es') = tracked lib opts es \<union> tracked lib opts es'"
  by (auto simp: tracked_def)

lemma tracks_bind:
  assumes "tracks lib opts es st r" "\<And>x st'. r = Inr (x, st') \<Longrightarrow> tracks lib opts es' st' (f (x, st'))"
  shows "tracks lib opts (es @ es') st (bindE r f)"
  using assms by (cases r) (auto simp: tracks_def tracked_append split: sum.splits prod.splits)

lemma tracks_last:
  assumes "tracks lib opts es st r" "\<And>x st'. \<exists>y. f (x, st') = Inr (y, st')"
  shows "tracks lib opts es st (bindE r f)"
proof (cases r)
  case (Inr p)
  with assms(2) [of "fst p" "snd p"] assms(1) show ?thesis by (auto simp: tracks_def split_def)
qed (use assms(1) in \<open>simp add: tracks_def\<close>)

lemma tracks_secret:
  assumes "prefix ''secret.'' e" "pathRoot e \<notin> set (ro_DeferredRoots opts)"
  shows "tracks lib opts [e] st (resolveSecret lib opts e st)"
  using assms
  by (auto simp: tracks_def resolveSecret_def tracked_def reveals_def missing_def trackRedacted_def MinRedactedLength_def Let_def
      split: option.splits)

lemma tracks_env:
  assumes "prefix ''env.'' e" "\<not> prefix ''secret.'' e" "pathRoot e \<notin> set (ro_DeferredRoots opts)"
  shows "tracks lib opts [e] st (Inr (resolveEnv lib opts e st))"
  using assms
  by (auto simp: tracks_def resolveEnv_def tracked_def reveals_def missing_def trackRedacted_def trackUnresolved_def
      MinRedactedLength_def Let_def split: option.splits)

lemma tracks_other:
  assumes "pathRoot e \<in> set (ro_DeferredRoots opts) \<or> \<not> prefix ''secret.'' e \<and> \<not> prefix ''env.'' e" "rd_redacted st' = rd_redacted st"
  shows "tracks lib opts [e] st (Inr (x, st'))"
  using assms by (auto simp: tracks_def tracked_def reveals_def missing_def)

lemma redacted_trackUnresolved [simp]: "rd_redacted (trackUnresolved p st) = rd_redacted st"
  by (simp add: trackUnresolved_def)

lemma tracks_whole: "tracks lib opts [e] st (render_whole lib opts scope v e st)"
proof -
  consider "pathRoot e \<in> set (ro_DeferredRoots opts)" | "pathRoot e \<notin> set (ro_DeferredRoots opts)" "prefix ''secret.'' e"
    | "pathRoot e \<notin> set (ro_DeferredRoots opts)" "prefix ''env.'' e" "\<not> prefix ''secret.'' e"
    | "pathRoot e \<notin> set (ro_DeferredRoots opts)" "\<not> prefix ''secret.'' e" "\<not> prefix ''env.'' e" by blast
  then show ?thesis
  proof cases
    case 2
    with tracks_secret [OF 2(2,1)] show ?thesis by (auto simp: render_whole_def intro: tracks_last)
  next
    case 3
    with tracks_env [OF 3(2,3,1), of lib st] show ?thesis by (simp add: render_whole_def tracks_def split: prod.splits)
  qed (auto simp: render_whole_def tracks_other split: option.splits json.splits)
qed

lemma tracks_reference: "tracks lib opts [TrimSpace body] st (render_reference lib opts scope body st)"
  by (auto simp: render_reference_def Let_def tracks_secret tracks_env tracks_other split: option.splits json.splits)

lemma tracks_pieces:
  "tracks lib opts (List.map_filter (\<lambda>p. case p of Reference body \<Rightarrow> Some (TrimSpace body) | Plain_text _ \<Rightarrow> None) ps) st
     (render_pieces lib opts scope ps st)"
proof (induction ps arbitrary: st)
  case (Cons p ps)
  show ?case
  proof (cases p)
    case (Plain_text s)
    with Cons show ?thesis by (auto simp: map_filter_simps intro: tracks_last)
  next
    case (Reference body)
    have "tracks lib opts ([TrimSpace body] @ List.map_filter (\<lambda>p. case p of Reference body \<Rightarrow> Some (TrimSpace body) | Plain_text _ \<Rightarrow> None) ps) st
      (render_pieces lib opts scope (Reference body # ps) st)"
      unfolding render_pieces.simps by (rule tracks_bind [OF tracks_reference]) (auto intro: tracks_last Cons)
    with Reference show ?thesis by (simp add: map_filter_simps)
  qed
qed (simp add: map_filter_simps)

lemma tracks_string: "tracks lib opts (refs_string v) st (renderString lib opts scope v st)"
  by (auto simp: refs_string_def renderString_def intro: tracks_whole tracks_last tracks_pieces split: option.split)

lemma tracks_value:
  "tracks lib opts (refs v) st (renderValue lib opts scope v st)"
  "tracks lib opts (refs_list xs) st (render_list lib opts scope xs st)"
  "tracks lib opts (refs_map seen m) st (render_map lib opts scope seen m st)"
  by (induction lib opts scope v st and lib opts scope xs st and lib opts scope seen m st rule: renderValue_render_list_render_map.induct)
    (auto simp: tracks_string intro!: tracks_bind intro: tracks_last)

text \<open>
  C33: rendering tracks exactly the secrets it uses. Rendering a value fails exactly when it refers to a
  secret that is missing or empty and is not left for a later pass. Otherwise the redaction list holds
  exactly the secrets and environment variables of at least four bytes that its references resolve to,
  so none of them can reach the rendered value untracked.
\<close>

theorem render_tracks_secrets:
  "case RenderTemplateWithRedactions lib v scope opts of
     Inl _ \<Rightarrow> list_ex (missing lib opts) (refs v)
   | Inr r \<Rightarrow> \<not> list_ex (missing lib opts) (refs v) \<and>
       set (rr_RedactedValues r) = {s. 4 \<le> length s \<and> (\<exists>e. e \<in> set (refs v) \<and> reveals lib opts e = Some s)}"
  using tracks_value(1) [of lib opts v "\<lparr>rd_redacted = [], rd_unresolved = []\<rparr>" scope]
  by (cases "renderValue lib opts scope v \<lparr>rd_redacted = [], rd_unresolved = []\<rparr>")
    (auto simp: RenderTemplateWithRedactions_def tracks_def tracked_def MinRedactedLength_def)

end
