(* ===== verification/NodeConfig.thy ===== *)
theory NodeConfig
  imports Waiting Retry Inputs Template
begin

text \<open>
  The configuration grammars of the node types, shared by validation and execution: fork and join
  (\<^verbatim>\<open>internal/domain/forkjoin.go\<close>), prompts (\<^verbatim>\<open>promptconfig.go\<close>), agents (\<^verbatim>\<open>agentconfig.go\<close>), triggers
  (\<^verbatim>\<open>triggerconfig.go\<close>) and HTTP requests (\<^verbatim>\<open>internal/httpcontract/bounds.go\<close>). A configuration is a decoded
  JSON object. The URI parser, the checks of \<^verbatim>\<open>httpguts\<close> on header fields and the Unicode lower case are
  fields of one record of outside functions.
\<close>

record uri =
  u_Scheme :: string
  u_Host :: string
  u_User :: bool
  u_Fragment :: string

record platform =
  pf_ParseRequestURI :: "string \<Rightarrow> uri option"
  pf_ValidHeaderFieldName :: "string \<Rightarrow> bool"
  pf_ValidHeaderFieldValue :: "string \<Rightarrow> bool"
  pf_ToLower :: "string \<Rightarrow> string"

section \<open>Fork and join\<close>

definition ForkJoinMinBranches :: nat where "ForkJoinMinBranches = 2"
definition ForkJoinMaxBranches :: nat where "ForkJoinMaxBranches = 10"
definition ForkJoinMaxBranchLabelLength :: nat where "ForkJoinMaxBranchLabelLength = 64"
definition ForkJoinMaxBranchDescLength :: nat where "ForkJoinMaxBranchDescLength = 280"

datatype fork_error =
    BranchesNotArray | BranchesTooFew nat | BranchesTooMany nat | BranchNotObject nat | BranchLabelMissing nat
  | BranchLabelSpace nat | BranchLabelLong nat nat | BranchLabelTwice string | BranchDescriptionType nat
  | BranchDescriptionLong nat
  | SourcesNotObject | SourcesTooFew nat | SourcesTooMany nat | SourceLabelEmpty | SourceLabelSpace string
  | SourceLabelLong string | SourceMissing string | SourceSpace string | SourceTwice string

definition branch_label :: "nat \<Rightarrow> string list \<Rightarrow> jmap \<Rightarrow> fork_error + string" where
  "branch_label index seen item = (case get_str item ''label'' of
     None \<Rightarrow> Err (BranchLabelMissing index)
   | Some label \<Rightarrow>
       if TrimSpace label = [] then Err (BranchLabelMissing index)
       else if label \<noteq> TrimSpace label then Err (BranchLabelSpace index)
       else if RuneCount label > ForkJoinMaxBranchLabelLength then Err (BranchLabelLong index (RuneCount label))
       else if label \<in> set seen then Err (BranchLabelTwice label)
       else Ok label)"

definition branch_entry :: "nat \<Rightarrow> string \<Rightarrow> jmap \<Rightarrow> fork_error + jmap" where
  "branch_entry index label item = (case map_of item ''description'' of
     None \<Rightarrow> Ok [(''label'', JStr label)]
   | Some (JStr t) \<Rightarrow>
       if RuneCount t > ForkJoinMaxBranchDescLength then Err (BranchDescriptionLong index)
       else Ok [(''label'', JStr label), (''description'', JStr t)]
   | Some _ \<Rightarrow> Err (BranchDescriptionType index))"

fun branch_loop :: "nat \<Rightarrow> string list \<Rightarrow> json list \<Rightarrow> fork_error + jmap list" where
  "branch_loop index seen [] = Ok []"
| "branch_loop index seen (entry # rest) = (case entry of
     JObj item \<Rightarrow>
       bindE (branch_label index seen item) (\<lambda>label.
       bindE (branch_entry index label item) (\<lambda>branch.
       bindE (branch_loop (index + 1) (label # seen) rest) (\<lambda>branches. Ok (branch # branches))))
   | _ \<Rightarrow> Err (BranchNotObject index))"

definition ResolveParallelForkBranches :: "jmap \<Rightarrow> fork_error + jmap list" where
  "ResolveParallelForkBranches config = (case map_of config ''branches'' of
     Some (JArr raw) \<Rightarrow>
       if length raw < ForkJoinMinBranches then Err (BranchesTooFew (length raw))
       else if length raw > ForkJoinMaxBranches then Err (BranchesTooMany (length raw))
       else branch_loop 0 [] raw
   | _ \<Rightarrow> Err BranchesNotArray)"

definition source_entry :: "string list \<Rightarrow> jmap \<Rightarrow> string \<Rightarrow> fork_error + string" where
  "source_entry seen raw label =
     (if TrimSpace label = [] then Err SourceLabelEmpty
      else if label \<noteq> TrimSpace label then Err (SourceLabelSpace label)
      else if RuneCount label > ForkJoinMaxBranchLabelLength then Err (SourceLabelLong label)
      else case get_str raw label of
        None \<Rightarrow> Err (SourceMissing label)
      | Some v \<Rightarrow>
          if TrimSpace v = [] then Err (SourceMissing label)
          else if v \<noteq> TrimSpace v then Err (SourceSpace label)
          else if v \<in> set seen then Err (SourceTwice v)
          else Ok v)"

fun source_loop :: "string list \<Rightarrow> jmap \<Rightarrow> string list \<Rightarrow> fork_error + (string \<times> string) list" where
  "source_loop seen raw [] = Ok []"
| "source_loop seen raw (label # rest) =
     bindE (source_entry seen raw label) (\<lambda>v.
     bindE (source_loop (v # seen) raw rest) (\<lambda>sources. Ok ((label, v) # sources)))"

definition ResolveJoinSources :: "jmap \<Rightarrow> fork_error + (string \<times> string) list" where
  "ResolveJoinSources config = (case map_of config ''sources'' of
     Some (JObj raw) \<Rightarrow>
       if map_len raw < ForkJoinMinBranches then Err (SourcesTooFew (map_len raw))
       else if map_len raw > ForkJoinMaxBranches then Err (SourcesTooMany (map_len raw))
       else source_loop [] raw (sorted_keys raw)
   | _ \<Rightarrow> Err SourcesNotObject)"

section \<open>Prompts\<close>

definition PromptReferenceMaxNameLength :: nat where "PromptReferenceMaxNameLength = 128"
definition PromptReferenceMaxVersion :: int where "PromptReferenceMaxVersion = 2147483647"

datatype prompt_error =
    PromptName | PromptRefNotObject string | PromptRefNameMissing string | PromptRefName string | PromptRefVersion string
  | VariablesNotObject | VariableNotString string

definition alnum :: "char \<Rightarrow> bool" where
  "alnum c = (let n = (of_char c :: nat) in
     65 \<le> n \<and> n \<le> 90 \<or> 97 \<le> n \<and> n \<le> 122 \<or> 48 \<le> n \<and> n \<le> 57)"

fun promptNamePattern :: "string \<Rightarrow> bool" where
  "promptNamePattern [] = False"
| "promptNamePattern (c # s) = (alnum c \<and> list_all (\<lambda>d. alnum d \<or> d \<in> set ''_.-'') s)"

definition ValidatePromptName :: "string \<Rightarrow> prompt_error option" where
  "ValidatePromptName name =
     (if TrimSpace name = [] \<or> RuneCount name > PromptReferenceMaxNameLength \<or> \<not> promptNamePattern name
      then Some PromptName else None)"

definition boundedAgentInteger :: "json \<Rightarrow> int \<Rightarrow> int \<Rightarrow> int option" where
  "boundedAgentInteger raw lo hi = (case raw of
     JNum (Fin q) \<Rightarrow> if whole q \<and> of_int lo \<le> q \<and> q \<le> of_int hi then Some \<lfloor>q\<rfloor> else None
   | _ \<Rightarrow> None)"

record prompt_reference =
  pr_Name :: string
  pr_Version :: int

text \<open>The second component of the Go result, presence, is whether the key is there.\<close>

definition ResolvePromptReference :: "jmap \<Rightarrow> string \<Rightarrow> prompt_error + prompt_reference option" where
  "ResolvePromptReference config field = (case map_of config field of
     None \<Rightarrow> Ok None
   | Some (JObj ref) \<Rightarrow> (case get_str ref ''name'' of
         None \<Rightarrow> Err (PromptRefNameMissing field)
       | Some name \<Rightarrow>
           if TrimSpace name = [] then Err (PromptRefNameMissing field)
           else if ValidatePromptName name \<noteq> None then Err (PromptRefName field)
           else (case map_of ref ''version'' of
               None \<Rightarrow> Ok (Some \<lparr>pr_Name = name, pr_Version = 0\<rparr>)
             | Some v \<Rightarrow> (case boundedAgentInteger v 1 PromptReferenceMaxVersion of
                   None \<Rightarrow> Err (PromptRefVersion field)
                 | Some n \<Rightarrow> Ok (Some \<lparr>pr_Name = name, pr_Version = n\<rparr>))))
   | Some _ \<Rightarrow> Err (PromptRefNotObject field))"

text \<open>
  Go visits the variables in no fixed order, so which of several wrong ones is named is open there; the
  keys are visited in byte order here.
\<close>

fun variable_loop :: "jmap \<Rightarrow> string list \<Rightarrow> prompt_error + (string \<times> string) list" where
  "variable_loop m [] = Ok []"
| "variable_loop m (k # ks) = (case get_str m k of
     None \<Rightarrow> Err (VariableNotString k)
   | Some t \<Rightarrow> bindE (variable_loop m ks) (\<lambda>r. Ok ((k, t) # r)))"

definition ResolvePromptVariables :: "jmap \<Rightarrow> prompt_error + (string \<times> string) list" where
  "ResolvePromptVariables config = (case map_of config ''variables'' of
     None \<Rightarrow> Ok []
   | Some (JObj m) \<Rightarrow> variable_loop m (sorted_keys m)
   | Some _ \<Rightarrow> Err VariablesNotObject)"

section \<open>Agents\<close>

definition AgentDefaultMaxSteps :: int where "AgentDefaultMaxSteps = 3"
definition MultiAgentDefaultMaxSteps :: int where "MultiAgentDefaultMaxSteps = 2"
definition AgentMaxSteps :: int where "AgentMaxSteps = 50"
definition AgentMaxTimeoutMS :: int where "AgentMaxTimeoutMS = 600000"
definition MultiAgentMaxAgents :: nat where "MultiAgentMaxAgents = 16"

datatype agent_error_kind =
    AgentConfigInvalidPlanner | AgentConfigInvalidMaxSteps | AgentConfigInvalidTimeout | AgentConfigInvalidBoolean
  | AgentConfigInvalidField | MultiAgentConfigMissingAgents | MultiAgentConfigInvalidAgents | MultiAgentConfigInvalidMode
  | MultiAgentConfigInvalidAgg | MultiAgentConfigInvalidBool

datatype agent_message =
    PlannerMessage | MaxStepsMessage | TimeoutMessage | BooleanMessage string | FieldMessage string
  | PromptMessage prompt_error | InputMessage | AgentsRequired | AgentsTooMany | ModeMessage | AggregationMessage
  | ContinueMessage | MemberNotObject nat | MemberInvalid nat agent_message | MemberGoal nat

record agent_error =
  ae_Kind :: agent_error_kind
  ae_Message :: agent_message

abbreviation agent_fail :: "agent_error_kind \<Rightarrow> agent_message \<Rightarrow> agent_error + 'a" where
  "agent_fail k m \<equiv> Err \<lparr>ae_Kind = k, ae_Message = m\<rparr>"

record agent_config =
  ag_Planner :: string
  ag_MaxSteps :: int
  ag_TimeoutMS :: int
  ag_HasTimeout :: bool
  ag_Reflection :: bool
  ag_AllowWrites :: bool

definition optionalAgentBool :: "jmap \<Rightarrow> string \<Rightarrow> bool \<Rightarrow> agent_error + bool" where
  "optionalAgentBool config field fallback = (case map_of config field of
     None \<Rightarrow> Ok fallback
   | Some (JBool b) \<Rightarrow> Ok b
   | Some _ \<Rightarrow> agent_fail AgentConfigInvalidBoolean (BooleanMessage field))"

text \<open>A choice among words: an absent or empty word is the first of the list.\<close>

definition word_choice :: "jmap \<Rightarrow> string \<Rightarrow> string list \<Rightarrow> string option" where
  "word_choice config field ws = (case map_of config field of
     None \<Rightarrow> Some (hd ws)
   | Some (JStr v) \<Rightarrow> if v = [] then Some (hd ws) else if v \<in> set ws then Some v else None
   | Some _ \<Rightarrow> None)"

definition agent_limit :: "jmap \<Rightarrow> string \<Rightarrow> int \<Rightarrow> agent_error_kind \<Rightarrow> agent_message \<Rightarrow> agent_error + int option" where
  "agent_limit config field hi k m = (case map_of config field of
     None \<Rightarrow> Ok None
   | Some raw \<Rightarrow> (case boundedAgentInteger raw 1 hi of None \<Rightarrow> agent_fail k m | Some n \<Rightarrow> Ok (Some n)))"

definition agentTextFields :: "string list" where
  "agentTextFields = [''name'', ''role'', ''persona'', ''tool'', ''value'', ''text'', ''path'', ''url'', ''method'', ''model'']"

definition text_field :: "jmap \<Rightarrow> string \<Rightarrow> bool" where
  "text_field config field = (case map_of config field of
     None \<Rightarrow> True | Some JNull \<Rightarrow> True | Some (JStr _) \<Rightarrow> True | Some _ \<Rightarrow> False)"

definition agent_texts :: "jmap \<Rightarrow> agent_error + unit" where
  "agent_texts config = (case find (\<lambda>f. \<not> text_field config f) agentTextFields of
     Some f \<Rightarrow> agent_fail AgentConfigInvalidField (FieldMessage f)
   | None \<Rightarrow> (case ResolvePromptReference config ''systemPromptRef'' of
       Inl e \<Rightarrow> agent_fail AgentConfigInvalidField (PromptMessage e)
     | Inr _ \<Rightarrow> (case ResolvePromptVariables config of
         Inl e \<Rightarrow> agent_fail AgentConfigInvalidField (PromptMessage e)
       | Inr _ \<Rightarrow> Ok ())))"

definition ResolveAgentRuntimeConfig :: "jmap \<Rightarrow> int \<Rightarrow> bool \<Rightarrow> agent_error + agent_config" where
  "ResolveAgentRuntimeConfig config defaultMaxSteps defaultReflection =
     (case word_choice config ''planner'' [''rules'', ''ai''] of
       None \<Rightarrow> agent_fail AgentConfigInvalidPlanner PlannerMessage
     | Some planner \<Rightarrow>
         bindE (agent_limit config ''maxSteps'' AgentMaxSteps AgentConfigInvalidMaxSteps MaxStepsMessage) (\<lambda>steps.
         bindE (agent_limit config ''timeoutMs'' AgentMaxTimeoutMS AgentConfigInvalidTimeout TimeoutMessage) (\<lambda>timeout.
         bindE (optionalAgentBool config ''reflection'' defaultReflection) (\<lambda>reflection.
         bindE (optionalAgentBool config ''allowWriteTools'' False) (\<lambda>allowWrites.
         bindE (agent_texts config) (\<lambda>_.
         Ok \<lparr>ag_Planner = planner, ag_MaxSteps = (case steps of Some n \<Rightarrow> n | None \<Rightarrow> defaultMaxSteps),
             ag_TimeoutMS = (case timeout of Some n \<Rightarrow> n | None \<Rightarrow> 0), ag_HasTimeout = (timeout \<noteq> None),
             ag_Reflection = reflection, ag_AllowWrites = allowWrites\<rparr>))))))"

record multi_agent_config =
  ma_Agents :: "json list"
  ma_Mode :: string
  ma_Aggregation :: string
  ma_ContinueOnError :: bool

fun member_loop :: "nat \<Rightarrow> json list \<Rightarrow> agent_error + unit" where
  "member_loop index [] = Ok ()"
| "member_loop index (raw # rest) = (case raw of
     JObj member \<Rightarrow> (case ResolveAgentRuntimeConfig member MultiAgentDefaultMaxSteps True of
         Inl e \<Rightarrow> agent_fail MultiAgentConfigInvalidAgents (MemberInvalid index (ae_Message e))
       | Inr _ \<Rightarrow> if TrimSpace (str_or_empty member ''goal'') = [] then agent_fail MultiAgentConfigInvalidAgents (MemberGoal index)
           else member_loop (index + 1) rest)
   | _ \<Rightarrow> agent_fail MultiAgentConfigInvalidAgents (MemberNotObject index))"

definition ResolveMultiAgentRuntimeConfig :: "jmap \<Rightarrow> agent_error + multi_agent_config" where
  "ResolveMultiAgentRuntimeConfig config =
     (let agents = (case map_of config ''agents'' of Some (JArr xs) \<Rightarrow> xs | _ \<Rightarrow> []) in
      if agents = [] then agent_fail MultiAgentConfigMissingAgents AgentsRequired
      else if length agents > MultiAgentMaxAgents then agent_fail MultiAgentConfigInvalidAgents AgentsTooMany
      else case word_choice config ''mode'' [''sequential'', ''parallel''] of
        None \<Rightarrow> agent_fail MultiAgentConfigInvalidMode ModeMessage
      | Some mode \<Rightarrow> (case word_choice config ''aggregation'' [''last'', ''first'', ''all'', ''best-effort''] of
          None \<Rightarrow> agent_fail MultiAgentConfigInvalidAgg AggregationMessage
        | Some aggregation \<Rightarrow> (case optionalAgentBool config ''continueOnError'' False of
            Inl _ \<Rightarrow> agent_fail MultiAgentConfigInvalidBool ContinueMessage
          | Inr continueOnError \<Rightarrow>
              bindE (ResolveAgentRuntimeConfig config MultiAgentDefaultMaxSteps True) (\<lambda>_.
              bindE (member_loop 0 agents) (\<lambda>_.
              Ok \<lparr>ma_Agents = agents, ma_Mode = mode, ma_Aggregation = aggregation, ma_ContinueOnError = continueOnError\<rparr>)))))"

definition AgentConfiguredTool :: "jmap \<Rightarrow> agent_error + (string \<times> jmap)" where
  "AgentConfiguredTool config = (case map_of config ''tool'' of
     None \<Rightarrow> Ok ([], [])
   | Some JNull \<Rightarrow> Ok ([], [])
   | Some (JStr raw) \<Rightarrow> (let tool = TrimSpace raw in
       if tool = [] then Ok ([], [])
       else case map_of config ''input'' of
         None \<Rightarrow> Ok (tool, [])
       | Some JNull \<Rightarrow> Ok (tool, [])
       | Some (JObj m) \<Rightarrow> Ok (tool, m)
       | Some _ \<Rightarrow> agent_fail AgentConfigInvalidField InputMessage)
   | Some _ \<Rightarrow> agent_fail AgentConfigInvalidField (FieldMessage ''tool''))"

section \<open>Triggers\<close>

definition TriggerDefaultRateLimitPerMin :: int where "TriggerDefaultRateLimitPerMin = 60"
definition TriggerRateLimitMaxPerMin :: int where "TriggerRateLimitMaxPerMin = 10000"

datatype trigger_error =
    TriggerType string | KeyRequired | KeyNotString | KeySpace | KeyLong | KeyPattern
  | AliasInvalid | AliasSpace | DkimType | DomainsType | DomainEmpty | DomainSpace | DomainTwice
  | CredentialRequired | CredentialSpace | BucketRequired | BucketSpace | PrefixType
  | ExtensionsType | ExtensionShort | ExtensionForm | ExtensionTwice
  | ConnectionRequired | ConnectionSpace | ResourceRequired | ResourceSpace
  | EventTypesType | EventTypeEmpty | EventTypeSpace | EventTypeTwice | RateLimit string

definition webhookEndpointKeyPattern :: "string \<Rightarrow> bool" where
  "webhookEndpointKeyPattern s \<longleftrightarrow> s \<noteq> [] \<and> list_all (\<lambda>c. alnum c \<or> c \<in> set ''._-'') s"

definition emailAliasKeyPattern :: "string \<Rightarrow> bool" where
  "emailAliasKeyPattern s \<longleftrightarrow> s \<noteq> [] \<and> list_all (\<lambda>c. alnum c \<or> c \<in> set ''._+-'') s"

text \<open>An error is \<^const>\<open>Some\<close>; the checks run in order and the first error counts.\<close>

definition first_error :: "'e option \<Rightarrow> 'e option \<Rightarrow> 'e option" where
  "first_error a b = (case a of Some e \<Rightarrow> Some e | None \<Rightarrow> b)"

definition validateTriggerRateLimit :: "string \<Rightarrow> jmap \<Rightarrow> trigger_error option" where
  "validateTriggerRateLimit nodeType config = (case map_of config ''rateLimitPerMin'' of
     None \<Rightarrow> None
   | Some raw \<Rightarrow> if boundedWholeNumber raw 1 (of_int TriggerRateLimitMaxPerMin) then None else Some (RateLimit nodeType))"

definition ResolveTriggerRateLimitPerMin :: "json \<Rightarrow> int" where
  "ResolveTriggerRateLimitPerMin raw =
     (if boundedWholeNumber raw 1 (of_int TriggerRateLimitMaxPerMin)
      then (case validationFiniteNumber raw of Some q \<Rightarrow> \<lfloor>q\<rfloor> | None \<Rightarrow> 0)
      else TriggerDefaultRateLimitPerMin)"

definition ResolveWebhookEndpointKey :: "jmap \<Rightarrow> trigger_error + string" where
  "ResolveWebhookEndpointKey config = (case map_of config ''endpointKey'' of
     None \<Rightarrow> Ok []
   | Some (JStr raw) \<Rightarrow> (let key = TrimSpace raw in
       if key = [] then Ok []
       else if key \<noteq> raw then Err KeySpace
       else if length key > 128 then Err KeyLong
       else if \<not> webhookEndpointKeyPattern key then Err KeyPattern
       else Ok key)
   | Some _ \<Rightarrow> Err KeyNotString)"

definition ValidateWebhookReceivedConfig :: "jmap \<Rightarrow> trigger_error option" where
  "ValidateWebhookReceivedConfig config = (case ResolveWebhookEndpointKey config of
     Inl e \<Rightarrow> Some e
   | Inr key \<Rightarrow> if key = [] then Some KeyRequired else validateTriggerRateLimit ''webhook_received'' config)"

text \<open>
  The loop over a list of distinct words: \<open>bad\<close> is the check of one entry, \<open>key\<close> what must differ.
\<close>

fun word_loop :: "(json \<Rightarrow> 'e option) \<Rightarrow> (string \<Rightarrow> string) \<Rightarrow> 'e \<Rightarrow> string list \<Rightarrow> json list \<Rightarrow> 'e option" where
  "word_loop bad key twice seen [] = None"
| "word_loop bad key twice seen (raw # rest) = (case bad raw of
     Some e \<Rightarrow> Some e
   | None \<Rightarrow> (let k = key (case raw of JStr s \<Rightarrow> s | _ \<Rightarrow> []) in
       if k \<in> set seen then Some twice else word_loop bad key twice (k # seen) rest))"

definition word_list :: "jmap \<Rightarrow> string \<Rightarrow> nat \<Rightarrow> 'e \<Rightarrow> (json \<Rightarrow> 'e option) \<Rightarrow> (string \<Rightarrow> string) \<Rightarrow> 'e \<Rightarrow> 'e option" where
  "word_list config field most wrong bad key twice = (case map_of config field of
     None \<Rightarrow> None
   | Some (JArr xs) \<Rightarrow> if length xs > most then Some wrong else word_loop bad key twice [] xs
   | Some _ \<Rightarrow> Some wrong)"

fun bad_domain :: "json \<Rightarrow> trigger_error option" where
  "bad_domain (JStr s) = (if TrimSpace s = [] then Some DomainEmpty else if s \<noteq> TrimSpace s then Some DomainSpace else None)"
| "bad_domain _ = Some DomainEmpty"

fun bad_extension :: "json \<Rightarrow> trigger_error option" where
  "bad_extension (JStr s) =
     (if TrimSpace s = [] \<or> length s > 32 then Some ExtensionShort
      else if s \<noteq> TrimSpace s \<or> prefix ''.'' s then Some ExtensionForm else None)"
| "bad_extension _ = Some ExtensionShort"

fun bad_event_type :: "json \<Rightarrow> trigger_error option" where
  "bad_event_type (JStr s) =
     (if TrimSpace s = [] \<or> length s > 128 then Some EventTypeEmpty
      else if s \<noteq> TrimSpace s then Some EventTypeSpace else None)"
| "bad_event_type _ = Some EventTypeEmpty"

definition ValidateEmailReceivedConfig :: "platform \<Rightarrow> jmap \<Rightarrow> trigger_error option" where
  "ValidateEmailReceivedConfig pf config =
     (let raw = str_or_empty config ''aliasKey''; aliasKey = TrimSpace raw in
      if aliasKey = [] \<or> length aliasKey > 128 \<or> \<not> emailAliasKeyPattern aliasKey then Some AliasInvalid
      else if aliasKey \<noteq> raw then Some AliasSpace
      else if (case map_of config ''dkimRequired'' of None \<Rightarrow> False | Some (JBool _) \<Rightarrow> False | Some _ \<Rightarrow> True) then Some DkimType
      else first_error (word_list config ''fromDomains'' 50 DomainsType bad_domain (pf_ToLower pf) DomainTwice)
        (validateTriggerRateLimit ''email_received'' config))"

definition ValidatePagerDutyIncidentConfig :: "jmap \<Rightarrow> trigger_error option" where
  "ValidatePagerDutyIncidentConfig config =
     (let raw = str_or_empty config ''webhookCredential''; credential = TrimSpace raw in
      if credential = [] \<or> length credential > 200 then Some CredentialRequired
      else if credential \<noteq> raw then Some CredentialSpace
      else validateTriggerRateLimit ''pagerduty_incident'' config)"

definition ValidateFileDroppedConfig :: "platform \<Rightarrow> jmap \<Rightarrow> trigger_error option" where
  "ValidateFileDroppedConfig pf config =
     (let bucket = str_or_empty config ''bucket'' in
      if TrimSpace bucket = [] \<or> length bucket > 256 then Some BucketRequired
      else if bucket \<noteq> TrimSpace bucket then Some BucketSpace
      else if (case map_of config ''prefix'' of None \<Rightarrow> False | Some (JStr s) \<Rightarrow> length s > 1024 | Some _ \<Rightarrow> True) then Some PrefixType
      else first_error (word_list config ''extensions'' 50 ExtensionsType bad_extension (pf_ToLower pf) ExtensionTwice)
        (validateTriggerRateLimit ''file_dropped'' config))"

definition ValidateMcpServerEventConfig :: "jmap \<Rightarrow> trigger_error option" where
  "ValidateMcpServerEventConfig config =
     (let alias = str_or_empty config ''connectionAlias''; resourceURI = str_or_empty config ''resourceUri'' in
      if TrimSpace alias = [] \<or> length alias > 128 then Some ConnectionRequired
      else if alias \<noteq> TrimSpace alias then Some ConnectionSpace
      else if TrimSpace resourceURI = [] \<or> length resourceURI > 2048 then Some ResourceRequired
      else if resourceURI \<noteq> TrimSpace resourceURI then Some ResourceSpace
      else first_error (word_list config ''eventTypes'' 20 EventTypesType bad_event_type id EventTypeTwice)
        (validateTriggerRateLimit ''mcp_server_event'' config))"

definition ValidateTriggerConfig :: "platform \<Rightarrow> string \<Rightarrow> jmap \<Rightarrow> trigger_error option" where
  "ValidateTriggerConfig pf nodeType config =
     (if nodeType = ''webhook_received'' then ValidateWebhookReceivedConfig config
      else if nodeType = ''email_received'' then ValidateEmailReceivedConfig pf config
      else if nodeType = ''file_dropped'' then ValidateFileDroppedConfig pf config
      else if nodeType = ''mcp_server_event'' then ValidateMcpServerEventConfig config
      else if nodeType = ''pagerduty_incident'' then ValidatePagerDutyIncidentConfig config
      else Some (TriggerType nodeType))"

section \<open>HTTP requests\<close>

definition MaxTimeoutMS :: int where "MaxTimeoutMS = 600000"
definition MaxResponseBytes :: int where "MaxResponseBytes = 64 * 1048576"
definition MaxRedirects :: int where "MaxRedirects = 20"
definition MinStreamPreview :: int where "MinStreamPreview = 1024"
definition MaxStreamPreview :: int where "MaxStreamPreview = 1048576"
definition MaxURLBytes :: nat where "MaxURLBytes = 4096"
definition MaxHeaderCount :: nat where "MaxHeaderCount = 64"
definition MaxHeaderNameBytes :: nat where "MaxHeaderNameBytes = 128"
definition MaxHeaderValueBytes :: nat where "MaxHeaderValueBytes = 8 * 1024"
definition MaxHeaderBytes :: nat where "MaxHeaderBytes = 32 * 1024"
definition DefaultTimeoutMS :: int where "DefaultTimeoutMS = 30000"
definition DefaultMaxResponseBytes :: int where "DefaultMaxResponseBytes = 1000000"
definition DefaultMaxRedirects :: int where "DefaultMaxRedirects = 5"
definition DefaultStreamPreview :: int where "DefaultStreamPreview = 65536"

datatype http_problem =
    UrlForm | UrlNotAbsolute | MethodNotString | MethodToken | HeadersNotObject | HeadersTooMany | HeaderNotString string
  | HeaderInvalid | HeaderForbidden string | HeaderTwice | HeadersTooLong | LimitRange string int int | BodyModeInvalid

datatype http_error = NodeConfigMissingURL | NodeConfigInvalid http_problem

record http_config =
  hc_URL :: string
  hc_Method :: string
  hc_Headers :: "(string \<times> string) list"
  hc_TimeoutMS :: "int option"
  hc_MaxResponseBytes :: "int option"
  hc_MaxRedirects :: "int option"
  hc_BodyMode :: string
  hc_StreamPreviewBytes :: "int option"

text \<open>\<^verbatim>\<open>utf8.ValidString\<close>.\<close>

fun valid_utf8 :: "nat list \<Rightarrow> bool" where
  "valid_utf8 [] = True"
| "valid_utf8 (a # s) =
     (if a < 128 then valid_utf8 s
      else case s of
        [] \<Rightarrow> False
      | b # s1 \<Rightarrow>
          if 194 \<le> a \<and> a < 224 then cont b \<and> valid_utf8 s1
          else case s1 of
            [] \<Rightarrow> False
          | c # s2 \<Rightarrow>
              if 224 \<le> a \<and> a < 240
              then cont b \<and> cont c \<and> (a = 224 \<longrightarrow> 160 \<le> b) \<and> (a = 237 \<longrightarrow> b < 160) \<and> valid_utf8 s2
              else case s2 of
                [] \<Rightarrow> False
              | d # s3 \<Rightarrow> 240 \<le> a \<and> a < 245 \<and> cont b \<and> cont c \<and> cont d \<and>
                  (a = 240 \<longrightarrow> 144 \<le> b) \<and> (a = 244 \<longrightarrow> b < 144) \<and> valid_utf8 s3)"

definition ValidString :: "string \<Rightarrow> bool" where
  "ValidString s = valid_utf8 (map of_char s)"

definition isWholeTemplate :: "string \<Rightarrow> bool" where
  "isWholeTemplate value \<longleftrightarrow> WholeTemplateReference value \<noteq> None"

definition methodTokenPattern :: "string \<Rightarrow> bool" where
  "methodTokenPattern s \<longleftrightarrow> s \<noteq> [] \<and> list_all (\<lambda>c. alnum c \<or> c \<in> set ''!#$%&*+-.^_`|~'' \<or> c = CHR 0x27) s"

definition forbiddenRequestHeaders :: "string list" where
  "forbiddenRequestHeaders = [''connection'', ''content-length'', ''host'', ''proxy-connection'', ''te'', ''trailer'',
     ''transfer-encoding'', ''upgrade'']"

definition WholeNumber :: "json \<Rightarrow> int \<Rightarrow> int \<Rightarrow> int option" where
  "WholeNumber raw lo hi = (case raw of
     JNum (Fin q) \<Rightarrow> if whole q \<and> of_int lo \<le> q \<and> q \<le> of_int hi then Some \<lfloor>q\<rfloor> else None
   | _ \<Rightarrow> None)"

text \<open>
  Go visits the headers in no fixed order, so which of several wrong ones is reported is open there;
  the names are visited in byte order here.
\<close>

definition header_entry :: "platform \<Rightarrow> string list \<Rightarrow> string \<Rightarrow> json \<Rightarrow> http_problem + string" where
  "header_entry pf seen name raw = (case raw of
     JStr v \<Rightarrow>
       if name = [] \<or> length name > MaxHeaderNameBytes \<or> length v > MaxHeaderValueBytes \<or>
          \<not> pf_ValidHeaderFieldName pf name \<or> \<not> pf_ValidHeaderFieldValue pf v then Err HeaderInvalid
       else if pf_ToLower pf name \<in> set forbiddenRequestHeaders then Err (HeaderForbidden name)
       else if pf_ToLower pf name \<in> set seen then Err HeaderTwice
       else Ok v
   | _ \<Rightarrow> Err (HeaderNotString name))"

fun header_loop :: "platform \<Rightarrow> jmap \<Rightarrow> string list \<Rightarrow> string list \<Rightarrow> http_problem + (string \<times> string) list" where
  "header_loop pf headers seen [] = Ok []"
| "header_loop pf headers seen (name # rest) =
     bindE (header_entry pf seen name (the (map_of headers name))) (\<lambda>v.
     bindE (header_loop pf headers (pf_ToLower pf name # seen) rest) (\<lambda>hs. Ok ((name, v) # hs)))"

definition validateHeaders :: "platform \<Rightarrow> jmap \<Rightarrow> http_problem + (string \<times> string) list" where
  "validateHeaders pf headers =
     (if map_len headers > MaxHeaderCount then Err HeadersTooMany
      else bindE (header_loop pf headers [] (sorted_keys headers)) (\<lambda>hs.
        if sum_list (map (\<lambda>(n, v). length n + length v) hs) > MaxHeaderBytes then Err HeadersTooLong else Ok hs))"

definition check_url :: "platform \<Rightarrow> jmap \<Rightarrow> bool \<Rightarrow> http_error + string" where
  "check_url pf config allowWholeTemplates = (case get_str config ''url'' of
     None \<Rightarrow> Err NodeConfigMissingURL
   | Some u \<Rightarrow>
       if TrimSpace u = [] then Err NodeConfigMissingURL
       else if u \<noteq> TrimSpace u \<or> \<not> ValidString u \<or> length u > MaxURLBytes then Err (NodeConfigInvalid UrlForm)
       else if allowWholeTemplates \<and> sublist ''{{'' u \<and> sublist ''}}'' u then Ok u
       else (case pf_ParseRequestURI pf u of
           None \<Rightarrow> Err (NodeConfigInvalid UrlNotAbsolute)
         | Some p \<Rightarrow>
             if u_Host p = [] \<or> u_User p \<or> u_Fragment p \<noteq> [] \<or> CHR ''#'' \<in> set u \<or> u_Scheme p \<notin> {''http'', ''https''}
             then Err (NodeConfigInvalid UrlNotAbsolute) else Ok u))"

definition check_method :: "jmap \<Rightarrow> bool \<Rightarrow> http_error + string" where
  "check_method config allowWholeTemplates = (case map_of config ''method'' of
     None \<Rightarrow> Ok ''GET''
   | Some (JStr raw) \<Rightarrow> (let method = TrimSpace raw in
       if method = [] then Ok ''GET''
       else if allowWholeTemplates \<and> isWholeTemplate method then Ok method
       else if \<not> methodTokenPattern method then Err (NodeConfigInvalid MethodToken)
       else Ok (ToUpper method))
   | Some _ \<Rightarrow> Err (NodeConfigInvalid MethodNotString))"

definition template_text :: "json \<Rightarrow> bool \<Rightarrow> bool" where
  "template_text raw allowWholeTemplates = (case raw of JStr t \<Rightarrow> allowWholeTemplates \<and> isWholeTemplate t | _ \<Rightarrow> False)"

definition check_headers :: "platform \<Rightarrow> jmap \<Rightarrow> bool \<Rightarrow> http_error + (string \<times> string) list" where
  "check_headers pf config allowWholeTemplates = (case map_of config ''headers'' of
     None \<Rightarrow> Ok []
   | Some raw \<Rightarrow>
       if template_text raw allowWholeTemplates then Ok []
       else (case raw of
           JObj headers \<Rightarrow> (case validateHeaders pf headers of Inl e \<Rightarrow> Err (NodeConfigInvalid e) | Inr hs \<Rightarrow> Ok hs)
         | _ \<Rightarrow> Err (NodeConfigInvalid HeadersNotObject)))"

definition check_limit :: "jmap \<Rightarrow> bool \<Rightarrow> string \<Rightarrow> int \<Rightarrow> int \<Rightarrow> http_error + int option" where
  "check_limit config allowWholeTemplates field lo hi = (case map_of config field of
     None \<Rightarrow> Ok None
   | Some raw \<Rightarrow>
       if template_text raw allowWholeTemplates then Ok None
       else (case WholeNumber raw lo hi of
           None \<Rightarrow> Err (NodeConfigInvalid (LimitRange field lo hi)) | Some n \<Rightarrow> Ok (Some n)))"

definition check_body_mode :: "jmap \<Rightarrow> bool \<Rightarrow> http_error + string" where
  "check_body_mode config allowWholeTemplates = (case map_of config ''bodyMode'' of
     None \<Rightarrow> Ok ''buffer''
   | Some (JStr mode) \<Rightarrow>
       if allowWholeTemplates \<and> isWholeTemplate mode \<or> mode = ''buffer'' \<or> mode = ''stream'' then Ok mode
       else Err (NodeConfigInvalid BodyModeInvalid)
   | Some _ \<Rightarrow> Err (NodeConfigInvalid BodyModeInvalid))"

definition ResolveNodeConfig :: "platform \<Rightarrow> jmap \<Rightarrow> bool \<Rightarrow> http_error + http_config" where
  "ResolveNodeConfig pf config allow =
     bindE (check_url pf config allow) (\<lambda>u.
     bindE (check_method config allow) (\<lambda>method.
     bindE (check_headers pf config allow) (\<lambda>headers.
     bindE (check_limit config allow ''timeoutMs'' 1 MaxTimeoutMS) (\<lambda>timeout.
     bindE (check_limit config allow ''maxResponseBytes'' 1 MaxResponseBytes) (\<lambda>bytes.
     bindE (check_limit config allow ''maxRedirects'' 0 MaxRedirects) (\<lambda>redirects.
     bindE (check_limit config allow ''streamPreviewBytes'' MinStreamPreview MaxStreamPreview) (\<lambda>preview.
     bindE (check_body_mode config allow) (\<lambda>mode.
     Ok \<lparr>hc_URL = u, hc_Method = method, hc_Headers = headers, hc_TimeoutMS = timeout, hc_MaxResponseBytes = bytes,
         hc_MaxRedirects = redirects, hc_BodyMode = mode, hc_StreamPreviewBytes = preview\<rparr>))))))))"

record http_bounds =
  hb_TimeoutMs :: f64
  hb_MaxResponseBytes :: int
  hb_MaxRedirects :: int
  hb_StreamPreviewBytes :: int

definition bounded_or :: "json \<Rightarrow> int \<Rightarrow> int \<Rightarrow> int \<Rightarrow> int" where
  "bounded_or raw lo hi fallback = (case WholeNumber raw lo hi of Some n \<Rightarrow> n | None \<Rightarrow> fallback)"

definition Normalize :: "http_bounds option \<Rightarrow> http_bounds" where
  "Normalize input = (case input of
     None \<Rightarrow> \<lparr>hb_TimeoutMs = Fin (of_int DefaultTimeoutMS), hb_MaxResponseBytes = DefaultMaxResponseBytes,
        hb_MaxRedirects = DefaultMaxRedirects, hb_StreamPreviewBytes = DefaultStreamPreview\<rparr>
   | Some b \<Rightarrow> (let num = (\<lambda>n :: int. JNum (Fin (of_int n))) in
       \<lparr>hb_TimeoutMs = Fin (of_int (bounded_or (JNum (hb_TimeoutMs b)) 1 MaxTimeoutMS DefaultTimeoutMS)),
        hb_MaxResponseBytes = bounded_or (num (hb_MaxResponseBytes b)) 1 MaxResponseBytes DefaultMaxResponseBytes,
        hb_MaxRedirects = bounded_or (num (hb_MaxRedirects b)) 0 MaxRedirects DefaultMaxRedirects,
        hb_StreamPreviewBytes = bounded_or (num (hb_StreamPreviewBytes b)) MinStreamPreview MaxStreamPreview DefaultStreamPreview\<rparr>))"

section \<open>Save-time and run-time checks of HTTP requests agree\<close>

definition http_bounded :: "http_config \<Rightarrow> bool" where
  "http_bounded c \<longleftrightarrow> hc_URL c \<noteq> [] \<and> length (hc_URL c) \<le> 4096 \<and>
     pred_option (\<lambda>n. 1 \<le> n \<and> n \<le> 600000) (hc_TimeoutMS c) \<and>
     pred_option (\<lambda>n. 1 \<le> n \<and> n \<le> 67108864) (hc_MaxResponseBytes c) \<and>
     pred_option (\<lambda>n. 0 \<le> n \<and> n \<le> 20) (hc_MaxRedirects c) \<and>
     pred_option (\<lambda>n. 1024 \<le> n \<and> n \<le> 1048576) (hc_StreamPreviewBytes c) \<and>
     hc_BodyMode c \<in> {''buffer'', ''stream''} \<and>
     distinct (map fst (hc_Headers c)) \<and> length (hc_Headers c) \<le> 64 \<and>
     sum_list (map (\<lambda>(n, v). length n + length v) (hc_Headers c)) \<le> 32768"

lemma whole_template_braces: "isWholeTemplate s \<Longrightarrow> CHR ''{'' \<in> set s"
proof -
  assume "isWholeTemplate s"
  then have "prefix ''{{'' (regex_trim s)"
    by (auto simp: isWholeTemplate_def WholeTemplateReference_def singleRefPattern_def Let_def split: option.splits if_splits)
  then have "CHR ''{'' \<in> set (regex_trim s)" by (auto dest: set_mono_prefix)
  then show ?thesis by (fastforce simp: regex_trim_def dest: set_dropWhileD)
qed

lemma token_not_template: "methodTokenPattern s \<Longrightarrow> \<not> isWholeTemplate s"
proof
  assume "methodTokenPattern s" "isWholeTemplate s"
  then have "alnum CHR ''{'' \<or> CHR ''{'' \<in> set ''!#$%&*+-.^_`|~'' \<or> CHR ''{'' = CHR 0x27"
    using whole_template_braces [of s] unfolding methodTokenPattern_def list_all_iff by blast
  then show False by (simp add: alnum_def)
qed

lemma url_runtime: "check_url pf config False = Ok u \<Longrightarrow> check_url pf config True = Ok u \<and> u \<noteq> [] \<and> length u \<le> 4096"
  by (auto simp: check_url_def MaxURLBytes_def split: option.splits if_splits)

lemma limit_runtime:
  "check_limit config False field lo hi = Ok r \<Longrightarrow>
     check_limit config True field lo hi = Ok r \<and> pred_option (\<lambda>n. lo \<le> n \<and> n \<le> hi) r"
  by (auto simp: check_limit_def template_text_def WholeNumber_def le_floor_iff floor_le_iff
      split: option.splits if_splits json.splits f64.splits)

lemma method_runtime:
  "check_method config False = Ok m \<Longrightarrow> check_method config True = Ok m"
  by (auto simp: check_method_def Let_def token_not_template split: option.splits json.splits if_splits)

lemma body_mode_runtime:
  "check_body_mode config False = Ok m \<Longrightarrow> check_body_mode config True = Ok m \<and> m \<in> {''buffer'', ''stream''}"
  by (auto simp: check_body_mode_def split: option.splits json.splits if_splits)

lemma header_loop_names: "header_loop pf headers seen names = Ok hs \<Longrightarrow> map fst hs = names"
  by (induction names arbitrary: seen hs) (auto simp: bindE_Ok_iff)

lemma headers_runtime:
  "check_headers pf config False = Ok hs \<Longrightarrow> check_headers pf config True = Ok hs \<and>
     distinct (map fst hs) \<and> length hs \<le> 64 \<and> sum_list (map (\<lambda>(n, v). length n + length v) hs) \<le> 32768"
proof -
  assume ok: "check_headers pf config False = Ok hs"
  then have same: "check_headers pf config True = Ok hs"
    by (auto simp: check_headers_def template_text_def split: option.splits json.splits if_splits)
  show ?thesis
  proof (cases "map_of config ''headers''")
    case None
    with ok same show ?thesis by (auto simp: check_headers_def)
  next
    case (Some raw)
    with ok obtain headers where "validateHeaders pf headers = Ok hs"
      by (auto simp: check_headers_def template_text_def split: json.splits sum.splits)
    then have "map fst hs = sorted_keys headers" "map_len headers \<le> 64"
      "sum_list (map (\<lambda>(n, v). length n + length v) hs) \<le> 32768"
      by (auto simp: validateHeaders_def bindE_Ok_iff MaxHeaderCount_def MaxHeaderBytes_def dest: header_loop_names split: if_splits)
    moreover from this(1) have "length hs = map_len headers" by (metis length_map length_sort map_len_def sorted_keys_def)
    ultimately show ?thesis using same by simp
  qed
qed

text \<open>
  What an HTTP node may run with, its save accepts. A configuration the executor resolves is resolved
  with the same result by the save-time pass, which also admits template references, and the result
  is within the bounds of the platform: the limits, the body mode, and at most 64 distinct headers of
  32 KiB together.
\<close>

theorem http_runtime_bounded:
  assumes "ResolveNodeConfig pf config False = Ok c"
  shows "ResolveNodeConfig pf config True = Ok c \<and> http_bounded c"
proof -
  from assms obtain u verb headers timeout bytes redirects preview mode where parts:
    "check_url pf config False = Ok u" "check_method config False = Ok verb" "check_headers pf config False = Ok headers"
    "check_limit config False ''timeoutMs'' 1 MaxTimeoutMS = Ok timeout"
    "check_limit config False ''maxResponseBytes'' 1 MaxResponseBytes = Ok bytes"
    "check_limit config False ''maxRedirects'' 0 MaxRedirects = Ok redirects"
    "check_limit config False ''streamPreviewBytes'' MinStreamPreview MaxStreamPreview = Ok preview"
    "check_body_mode config False = Ok mode"
    and c: "c = \<lparr>hc_URL = u, hc_Method = verb, hc_Headers = headers, hc_TimeoutMS = timeout, hc_MaxResponseBytes = bytes,
         hc_MaxRedirects = redirects, hc_BodyMode = mode, hc_StreamPreviewBytes = preview\<rparr>"
    by (auto simp: ResolveNodeConfig_def bindE_Ok_iff)
  note saved = url_runtime [OF parts(1)] method_runtime [OF parts(2)] headers_runtime [OF parts(3)]
    limit_runtime [OF parts(4)] limit_runtime [OF parts(5)] limit_runtime [OF parts(6)] limit_runtime [OF parts(7)]
    body_mode_runtime [OF parts(8)]
  then have "ResolveNodeConfig pf config True = Ok c" by (simp add: ResolveNodeConfig_def c)
  moreover have "http_bounded c"
    using saved by (simp add: http_bounded_def c MaxTimeoutMS_def MaxResponseBytes_def MaxRedirects_def MinStreamPreview_def MaxStreamPreview_def)
  ultimately show ?thesis ..
qed

definition open_platform :: platform where
  "open_platform = \<lparr>pf_ParseRequestURI = (\<lambda>u. Some \<lparr>u_Scheme = ''https'', u_Host = ''h'', u_User = False, u_Fragment = []\<rparr>),
     pf_ValidHeaderFieldName = (\<lambda>_. True), pf_ValidHeaderFieldValue = (\<lambda>_. True), pf_ToLower = ToLower\<rparr>"

definition get_config :: jmap where
  "get_config = [(''url'', JStr ''https://h/''), (''timeoutMs'', JNum (Fin 500)), (''headers'', JObj [(''Accept'', JStr ''*'')])]"

lemma get_config_runs: "is_ok (ResolveNodeConfig open_platform get_config False)"
proof -
  have "TrimSpace ''https://h/'' = ''https://h/''" "ValidString ''https://h/''" "sorted_keys [(''Accept'', JStr ''*'')] = [''Accept'']"
    "ToLower ''Accept'' = ''accept''" "map_len [(''Accept'', JStr ''*'')] = 1"
    by code_simp+
  then show ?thesis
    by (simp add: ResolveNodeConfig_def check_url_def check_method_def check_headers_def check_limit_def check_body_mode_def
        validateHeaders_def header_entry_def template_text_def WholeNumber_def get_config_def open_platform_def get_str_def
        forbiddenRequestHeaders_def MaxURLBytes_def MaxHeaderCount_def MaxHeaderNameBytes_def MaxHeaderValueBytes_def
        MaxHeaderBytes_def MaxTimeoutMS_def)
qed

end
