(* ===== verification/Cron.thy ===== *)
theory Cron
  imports Waiting
begin

text \<open>
  Five-field cron expressions: \<^verbatim>\<open>internal/cron/cron.go\<close>, the preview and the heat map of
  \<^verbatim>\<open>internal/cron/heatmap.go\<close>, and the schedule node of \<^verbatim>\<open>internal/domain/schedule.go\<close>. A set of allowed
  values is the list of the keys set, instants are Unix times in nanoseconds and the candidate times of
  the search whole seconds. Go's \<^verbatim>\<open>int\<close> has 64 bits here, so the step of a field wraps around.
\<close>

section \<open>Strings\<close>

function fields_loop :: "string \<Rightarrow> string \<Rightarrow> string list" where
  "fields_loop cur s = (case starts_with_any space_seqs s of
     Some w \<Rightarrow> (if cur = [] then [] else [cur]) @ fields_loop [] (drop (length w) s)
   | None \<Rightarrow> (case s of [] \<Rightarrow> if cur = [] then [] else [cur] | c # r \<Rightarrow> fields_loop (cur @ [c]) r))"
  by pat_completeness auto
termination
proof (relation "measure (\<lambda>(cur, s). length s)", goal_cases)
  case (3 cur s w)
  then have "w \<noteq> []" "prefix w s" using starts_with_any_SomeD by blast+
  then show ?case by (cases s) (auto simp: length_greater_0_conv dest: prefix_length_le)
qed auto

declare fields_loop.simps [simp del]

definition Fields :: "string \<Rightarrow> string list" where
  "Fields s = fields_loop [] s"

definition maxInt :: int where "maxInt = 2 ^ 63 - 1"

definition Atoi :: "string \<Rightarrow> int option" where
  "Atoi s = (let (neg, ds) = split_sign s; n = (if neg then - 1 else 1) * int (digits_val ds) in
     if all_digits ds \<and> - maxInt - 1 \<le> n \<and> n \<le> maxInt then Some n else None)"

section \<open>Parsing\<close>

datatype cron_field = Minute | Hour | DayOfMonth | Month | DayOfWeek

fun field_min :: "cron_field \<Rightarrow> int" where
  "field_min DayOfMonth = 1" | "field_min Month = 1" | "field_min _ = 0"

fun field_max :: "cron_field \<Rightarrow> int" where
  "field_max Minute = 59" | "field_max Hour = 23" | "field_max DayOfMonth = 31" | "field_max Month = 12" | "field_max DayOfWeek = 6"

datatype cron_error =
    CronFieldCount | CronStep cron_field string | CronRange cron_field string | CronValue cron_field string
  | CronOutOfRange cron_field string | CronEmptyField cron_field | CronNeverFires

text \<open>The step of a part, with the rest of the part in front of it.\<close>

definition parse_step :: "cron_field \<Rightarrow> string \<Rightarrow> cron_error + (string \<times> int)" where
  "parse_step f part = (case Cut CHR ''/'' part of
     None \<Rightarrow> Ok (part, 1)
   | Some (before, after) \<Rightarrow> (case Atoi after of
         None \<Rightarrow> Err (CronStep f part)
       | Some n \<Rightarrow> if n < 1 then Err (CronStep f part) else Ok (before, n)))"

text \<open>The bounds of a part and whether it is the wildcard.\<close>

definition parse_range :: "cron_field \<Rightarrow> string \<Rightarrow> string \<Rightarrow> cron_error + (int \<times> int \<times> bool)" where
  "parse_range f part rangePart =
     (if rangePart = ''*'' then Ok (field_min f, field_max f, True)
      else case Cut CHR ''-'' rangePart of
        Some (x, y) \<Rightarrow> (case (Atoi x, Atoi y) of
            (Some a, Some b) \<Rightarrow> if a > b then Err (CronRange f part) else Ok (a, b, False)
          | _ \<Rightarrow> Err (CronRange f part))
      | None \<Rightarrow> (case Atoi rangePart of None \<Rightarrow> Err (CronValue f part) | Some v \<Rightarrow> Ok (v, v, False)))"

text \<open>The counting loop of a part. The counter wraps around, so its end is a theorem.\<close>

partial_function (option) fill_values :: "int \<Rightarrow> int \<Rightarrow> int \<Rightarrow> int list \<Rightarrow> int list option" where
  "fill_values v high step acc =
     (if v \<le> high then fill_values (int64 (v + step)) high step (acc @ [v]) else Some acc)"

declare fill_values.simps [code]

text \<open>\<^const>\<open>None\<close> is a loop that does not end.\<close>

definition parse_part :: "cron_field \<Rightarrow> string \<Rightarrow> int list \<Rightarrow> bool \<Rightarrow> (cron_error + (int list \<times> bool)) option" where
  "parse_part f part values wild = (case parse_step f part of
     Inl e \<Rightarrow> Some (Err e)
   | Inr (rangePart, step) \<Rightarrow> (case parse_range f part rangePart of
       Inl e \<Rightarrow> Some (Err e)
     | Inr (low, high, star) \<Rightarrow>
         if low < field_min f \<or> high > field_max f then Some (Err (CronOutOfRange f part))
         else map_option (\<lambda>vs. Ok (vs, wild \<and> star \<and> step = 1)) (fill_values low high step values)))"

fun parse_parts :: "cron_field \<Rightarrow> string list \<Rightarrow> int list \<Rightarrow> bool \<Rightarrow> (cron_error + (int list \<times> bool)) option" where
  "parse_parts f [] values wild = Some (if values = [] then Err (CronEmptyField f) else Ok (values, wild))"
| "parse_parts f (p # ps) values wild = (case parse_part f p values wild of
     None \<Rightarrow> None
   | Some (Inl e) \<Rightarrow> Some (Err e)
   | Some (Inr (values', wild')) \<Rightarrow> parse_parts f ps values' wild')"

definition parseField :: "string \<Rightarrow> cron_field \<Rightarrow> (cron_error + (int list \<times> bool)) option" where
  "parseField field f = parse_parts f (split_on CHR '','' field) [] True"

record cron_schedule =
  cs_minute :: "int list"
  cs_hour :: "int list"
  cs_dayOfMonth :: "int list"
  cs_month :: "int list"
  cs_dayOfWeek :: "int list"
  cs_domRestricted :: bool
  cs_dowRestricted :: bool

fun parse_fields :: "(string \<times> cron_field) list \<Rightarrow> (cron_error + (int list \<times> bool) list) option" where
  "parse_fields [] = Some (Ok [])"
| "parse_fields ((s, f) # rest) = (case parseField s f of
     None \<Rightarrow> None
   | Some (Inl e) \<Rightarrow> Some (Err e)
   | Some (Inr x) \<Rightarrow> map_option (\<lambda>r. bindE r (\<lambda>xs. Ok (x # xs))) (parse_fields rest))"

definition Parse :: "string \<Rightarrow> (cron_error + cron_schedule) option" where
  "Parse expression = (let fields = Fields (TrimSpace expression) in
     if length fields \<noteq> 5 then Some (Err CronFieldCount)
     else map_option (\<lambda>r. bindE r (\<lambda>xs. Ok
       \<lparr>cs_minute = fst (xs ! 0), cs_hour = fst (xs ! 1), cs_dayOfMonth = fst (xs ! 2), cs_month = fst (xs ! 3),
        cs_dayOfWeek = fst (xs ! 4), cs_domRestricted = (\<not> snd (xs ! 2)), cs_dowRestricted = (\<not> snd (xs ! 4))\<rparr>))
       (parse_fields (zip fields [Minute, Hour, DayOfMonth, Month, DayOfWeek])))"

section \<open>The next fire\<close>

definition matchesDay :: "cron_schedule \<Rightarrow> int \<Rightarrow> bool" where
  "matchesDay s t =
     (let domMatch = (d_Day (c_Date (civil_of t)) \<in> set (cs_dayOfMonth s));
          dowMatch = (weekday t \<in> set (cs_dayOfWeek s)) in
      if cs_domRestricted s \<and> cs_dowRestricted s then domMatch \<or> dowMatch else domMatch \<and> dowMatch)"

function next_loop :: "cron_schedule \<Rightarrow> int \<Rightarrow> int \<Rightarrow> int option" where
  "next_loop s limit t =
     (if \<not> t * 1000000000 < limit then None
      else if d_Month (c_Date (civil_of t)) \<notin> set (cs_month s) then next_loop s limit (next_month t)
      else if \<not> matchesDay s t then next_loop s limit ((t div 86400 + 1) * 86400)
      else if c_Hour (civil_of t) \<notin> set (cs_hour s) then next_loop s limit ((t div 3600 + 1) * 3600)
      else if c_Minute (civil_of t) \<notin> set (cs_minute s) then next_loop s limit (t + 60)
      else Some t)"
  by pat_completeness auto
termination
proof (relation "measure (\<lambda>(s, limit, t). nat (limit - t * 1000000000))", goal_cases)
  case (2 s limit t)
  then show ?case using next_month_gt [of t] by simp
next
  case (3 s limit t)
  then show ?case using div_bounds [of 86400 t] by simp
next
  case (4 s limit t)
  then show ?case using div_bounds [of 3600 t] by simp
qed auto

declare next_loop.simps [simp del]

definition next_limit :: "int \<Rightarrow> int" where
  "next_limit after = add_years 4 (after div 1000000000) * 1000000000 + after mod 1000000000"

definition Next :: "cron_schedule \<Rightarrow> int \<Rightarrow> cron_error + int" where
  "Next s after = (case next_loop s (next_limit after) ((after div 60000000000 + 1) * 60) of
     None \<Rightarrow> Err CronNeverFires
   | Some t \<Rightarrow> Ok t)"

definition Validate :: "string \<Rightarrow> int \<Rightarrow> (cron_error + unit) option" where
  "Validate expression now = map_option (\<lambda>r. bindE r (\<lambda>s. bindE (Next s now) (\<lambda>_. Ok ()))) (Parse expression)"


section \<open>Preview and heat map\<close>

definition NextFiresCount :: nat where "NextFiresCount = 5"
definition MaxFireRows :: nat where "MaxFireRows = 5000"

fun fires_from :: "cron_schedule \<Rightarrow> nat \<Rightarrow> int \<Rightarrow> int list" where
  "fires_from s 0 cursor = []"
| "fires_from s (Suc n) cursor = (case Next s cursor of
     Inl _ \<Rightarrow> []
   | Inr t \<Rightarrow> t # fires_from s n (t * 1000000000))"

definition NextFires :: "string \<Rightarrow> int \<Rightarrow> int \<Rightarrow> int list option" where
  "NextFires expression from count = map_option (\<lambda>r. case r of
       Inl _ \<Rightarrow> []
     | Inr s \<Rightarrow> fires_from s (if count \<le> 0 \<or> count > 20 then NextFiresCount else nat count) from) (Parse expression)"

record fire =
  f_At :: int
  f_Status :: string

record heatmap_cell =
  hc_DayOfWeek :: int
  hc_Hour :: int
  hc_Total :: nat
  hc_Failed :: nat
  hc_Anomaly :: bool

definition f64_rate :: "nat \<Rightarrow> nat \<Rightarrow> rat" where
  "f64_rate a b = (case round_f64 (of_nat a / of_nat b) of Fin r \<Rightarrow> r | _ \<Rightarrow> 0)"

definition f64_val :: "f64 \<Rightarrow> rat" where
  "f64_val x = (case x of Fin r \<Rightarrow> r | _ \<Rightarrow> 0)"

definition isAnomalousCell :: "nat \<Rightarrow> nat \<Rightarrow> rat \<Rightarrow> bool" where
  "isAnomalousCell cells failed overallRate =
     (if cells < 3 \<or> failed = 0 then False
      else let rate = f64_rate failed cells in
        rate \<ge> 1 / 2 \<and> rate \<ge> f64_val (f64_mul overallRate 2) \<and> f64_val (f64_add rate (- overallRate)) \<ge> 1 / 4)"

definition fire_key :: "fire \<Rightarrow> int \<times> int" where
  "fire_key f = (let s = f_At f div 1000000000 in (weekday s, c_Hour (civil_of s)))"

definition heat_cell :: "fire list \<Rightarrow> rat \<Rightarrow> int \<times> int \<Rightarrow> heatmap_cell" where
  "heat_cell fires overallRate k =
     (let fs = filter (\<lambda>f. fire_key f = k) fires; failed = length (filter (\<lambda>f. f_Status f = ''failed'') fs) in
      \<lparr>hc_DayOfWeek = fst k, hc_Hour = snd k, hc_Total = length fs, hc_Failed = failed,
       hc_Anomaly = isAnomalousCell (length fs) failed overallRate\<rparr>)"

text \<open>The cells in the order their first fire appears; the order of the Go map is not specified.\<close>

definition BuildHeatmap :: "fire list \<Rightarrow> heatmap_cell list" where
  "BuildHeatmap fires0 =
     (let fires = take MaxFireRows fires0;
          overallRate = (if fires = [] then 0 else f64_rate (length (filter (\<lambda>f. f_Status f = ''failed'') fires)) (length fires)) in
      map (heat_cell fires overallRate) (remdups (map fire_key fires)))"

section \<open>The schedule node\<close>

record schedule_config =
  sg_CronExpression :: string
  sg_Enabled :: bool

datatype schedule_error =
    ScheduleRequired | ScheduleFieldCount | ScheduleInvalid cron_error | ScheduleEnabledType string

fun javascriptTypeofJSONValue :: "json \<Rightarrow> string" where
  "javascriptTypeofJSONValue (JBool _) = ''boolean''"
| "javascriptTypeofJSONValue (JStr _) = ''string''"
| "javascriptTypeofJSONValue (JNum _) = ''number''"
| "javascriptTypeofJSONValue _ = ''object''"

definition ResolveScheduleConfig :: "jmap \<Rightarrow> int \<Rightarrow> (schedule_error + schedule_config) option" where
  "ResolveScheduleConfig config now =
     (let expression = TrimSpace (str_or_empty config ''cronExpression'') in
      if expression = [] then Some (Err ScheduleRequired)
      else if length (Fields expression) \<noteq> 5 then Some (Err ScheduleFieldCount)
      else map_option (\<lambda>r. case r of
          Inl e \<Rightarrow> Err (ScheduleInvalid e)
        | Inr _ \<Rightarrow> (case map_of config ''enabled'' of
            None \<Rightarrow> Ok \<lparr>sg_CronExpression = expression, sg_Enabled = True\<rparr>
          | Some (JBool b) \<Rightarrow> Ok \<lparr>sg_CronExpression = expression, sg_Enabled = b\<rparr>
          | Some v \<Rightarrow> Err (ScheduleEnabledType (javascriptTypeofJSONValue v)))) (Validate expression now))"

section \<open>The counting loop ends\<close>

lemma fill_unfold:
  "v \<le> high \<Longrightarrow> fill_values v high step acc = fill_values (int64 (v + step)) high step (acc @ [v])"
  "high < v \<Longrightarrow> fill_values v high step acc = Some acc"
  by (subst fill_values.simps, simp)+

lemma int64_id [simp]: "- (2 ^ 63) \<le> n \<Longrightarrow> n < 2 ^ 63 \<Longrightarrow> int64 n = n"
  by (simp add: int64_def)

lemma int64_wrap: "2 ^ 63 \<le> n \<Longrightarrow> n < 2 ^ 64 \<Longrightarrow> int64 n = n - 2 ^ 64"
proof -
  assume n: "2 ^ 63 \<le> n" "n < 2 ^ 64"
  then have "(n + 2 ^ 63) mod 2 ^ 64 = n + 2 ^ 63 - 2 ^ 64"
    using int_mod_pos_eq [of "n + 2 ^ 63" "2 ^ 64" 1 "n + 2 ^ 63 - 2 ^ 64"] by simp
  then show ?thesis by (simp add: int64_def)
qed

text \<open>Without wrapping around, the loop lists the progression up to the upper bound.\<close>

lemma fill_exact:
  assumes "1 \<le> step" "high + step \<le> maxInt" "0 \<le> v"
  shows "\<exists>vs. fill_values v high step acc = Some (acc @ vs) \<and> set vs = {x. v \<le> x \<and> x \<le> high \<and> step dvd (x - v)}"
  using assms(3)
proof (induction "nat (high + 1 - v)" arbitrary: v acc rule: less_induct)
  case less
  show ?case
  proof (cases "v \<le> high")
    case False
    then show ?thesis by (auto simp: fill_unfold intro!: exI [of _ "[]"])
  next
    case True
    with less.prems assms have wrap: "int64 (v + step) = v + step" by (simp add: maxInt_def)
    have "nat (high + 1 - (v + step)) < nat (high + 1 - v)" "0 \<le> v + step" using True assms less.prems by simp_all
    from less.hyps [OF this, of "acc @ [v]"] obtain vs where
      vs: "fill_values (v + step) high step (acc @ [v]) = Some (acc @ v # vs)"
        "set vs = {x. v + step \<le> x \<and> x \<le> high \<and> step dvd (x - (v + step))}" by auto
    have shift: "step dvd (x - (v + step)) \<longleftrightarrow> step dvd (x - v)" for x
      by (metis diff_diff_eq dvd_diff_left_iff dvd_refl)
    have "x = v \<or> v + step \<le> x" if "v \<le> x" "step dvd (x - v)" for x
      using that assms(1) by (metis add.commute diff_ge_0_iff_ge diff_gt_0_iff_gt le_diff_eq linorder_not_le order_le_less zdvd_not_zless)
    with vs(2) True assms(1) have "set (v # vs) = {x. v \<le> x \<and> x \<le> high \<and> step dvd (x - v)}"
      by (auto simp: shift)
    with vs(1) True show ?thesis by (auto simp: fill_unfold wrap)
  qed
qed

text \<open>
  With a step close to the largest integer the counter wraps around and comes back below its start,
  by twice the distance of the step from the largest integer, until it leaves the range.
\<close>

lemma fill_wraps:
  assumes "0 \<le> d" "d \<le> 58" "high \<le> 59" "- 60 \<le> v" "v \<le> 59"
  shows "\<exists>r. fill_values v high (maxInt - d) acc = Some r"
  using assms(4,5)
proof (induction "nat (v + 60)" arbitrary: v acc rule: less_induct)
  case less
  consider "high < v" | "v \<le> high" "v \<le> d" | "v \<le> high" "d < v" by linarith
  then show ?case
  proof cases
    case 2
    with less.prems assms have "int64 (v + (maxInt - d)) = v + (maxInt - d)" by (simp add: maxInt_def)
    moreover have "high < v + (maxInt - d)" using less.prems assms by (simp add: maxInt_def)
    ultimately show ?thesis using 2 by (simp add: fill_unfold)
  next
    case 3
    then have "int64 (v + (maxInt - d)) = v - d - 1 - 2 ^ 63"
      using less.prems assms by (subst int64_wrap) (simp_all add: maxInt_def)
    moreover have "int64 (v - d - 1 - 2 ^ 63 + (maxInt - d)) = v - 2 * d - 2"
      using 3 less.prems assms by (subst int64_id) (simp_all add: maxInt_def)
    moreover have "v - d - 1 - 2 ^ 63 \<le> high" using 3 assms by simp
    ultimately have "fill_values v high (maxInt - d) acc =
        fill_values (v - 2 * d - 2) high (maxInt - d) (acc @ [v, v - d - 1 - 2 ^ 63])"
      using 3 by (simp add: fill_unfold)
    moreover have "\<exists>r. fill_values (v - 2 * d - 2) high (maxInt - d) (acc @ [v, v - d - 1 - 2 ^ 63]) = Some r"
      by (rule less.hyps) (use 3 less.prems assms in simp_all)
    ultimately show ?thesis by simp
  qed (simp add: fill_unfold)
qed

lemma fill_ends:
  assumes "1 \<le> step" "step \<le> maxInt" "0 \<le> v" "v \<le> 59" "high \<le> 59"
  shows "\<exists>r. fill_values v high step acc = Some r"
proof (cases "high + step \<le> maxInt")
  case True
  with fill_exact [of step high v acc] assms show ?thesis by auto
next
  case False
  have "\<exists>r. fill_values v high (maxInt - (maxInt - step)) acc = Some r"
    by (rule fill_wraps) (use False assms in simp_all)
  then show ?thesis by simp
qed


lemma Atoi_le: "Atoi s = Some n \<Longrightarrow> n \<le> maxInt"
  by (auto simp: Atoi_def Let_def split: prod.splits if_splits)

lemma parse_step_bounds: "parse_step f part = Inr (r, step) \<Longrightarrow> 1 \<le> step \<and> step \<le> maxInt"
  by (auto simp: parse_step_def maxInt_def [symmetric] dest: Atoi_le split: option.splits if_splits)
    (simp add: maxInt_def)

lemma parse_range_le: "parse_range f part r = Inr (low, high, star) \<Longrightarrow> low \<le> high"
  by (cases f) (auto simp: parse_range_def split: option.splits if_splits prod.splits)

lemma field_bounds: "0 \<le> field_min f" "field_max f \<le> 59"
  by (cases f; simp)+

lemma parse_part_returns: "parse_part f part vs w \<noteq> None"
proof -
  have "\<exists>r. fill_values low high step vs = Some r"
    if "parse_step f part = Inr (rp, step)" "parse_range f part rp = Inr (low, high, star)"
      "field_min f \<le> low" "high \<le> field_max f" for rp step low high star
    using parse_step_bounds [OF that(1)] parse_range_le [OF that(2)] that(3,4) field_bounds [of f]
    by (intro fill_ends) simp_all
  then show ?thesis by (fastforce simp: parse_part_def not_less split: sum.splits prod.splits)
qed

lemma parse_parts_returns: "parse_parts f ps vs w \<noteq> None"
proof (induction ps arbitrary: vs w)
  case (Cons p ps)
  then show ?case using parse_part_returns [of f p vs w] by (auto split: option.splits sum.splits prod.splits)
qed simp

text \<open>
  C38: parsing ends on every expression. The counting loop of a field may wrap around in 64 bits, yet it
  leaves its range after finitely many rounds whatever the step.
\<close>

theorem Parse_returns: "\<exists>r. Parse expression = Some r"
proof -
  have "parseField s f \<noteq> None" for s f by (simp add: parseField_def parse_parts_returns)
  then have "parse_fields xs \<noteq> None" for xs
    by (induction xs rule: parse_fields.induct) (auto split: option.splits sum.splits)
  then show ?thesis by (auto simp: Parse_def Let_def)
qed

section \<open>The next fire is the first one\<close>

definition fires :: "cron_schedule \<Rightarrow> int \<Rightarrow> bool" where
  "fires s t \<longleftrightarrow> d_Month (c_Date (civil_of t)) \<in> set (cs_month s) \<and> matchesDay s t \<and>
     c_Hour (civil_of t) \<in> set (cs_hour s) \<and> c_Minute (civil_of t) \<in> set (cs_minute s)"

definition quiet :: "cron_schedule \<Rightarrow> int \<Rightarrow> int \<Rightarrow> bool" where
  "quiet s a b \<longleftrightarrow> (\<forall>x. 60 dvd x \<and> a \<le> x \<and> x < b \<longrightarrow> \<not> fires s x)"

definition found :: "cron_schedule \<Rightarrow> int \<Rightarrow> int \<Rightarrow> int option \<Rightarrow> bool" where
  "found s limit t r \<longleftrightarrow> (case r of
     Some u \<Rightarrow> t \<le> u \<and> u * 1000000000 < limit \<and> 60 dvd u \<and> fires s u \<and> quiet s t u
   | None \<Rightarrow> \<forall>x. 60 dvd x \<and> t \<le> x \<and> x * 1000000000 < limit \<longrightarrow> \<not> fires s x)"

lemma found_skip:
  assumes "quiet s t t'" "t < t'" "found s limit t' r"
  shows "found s limit t r"
proof -
  have "\<not> fires s x" if "60 dvd x" "t \<le> x" "x < b" "quiet s t' b" for x b
    using assms(1) that unfolding quiet_def by (cases "x < t'") auto
  moreover have "\<not> fires s x" if "60 dvd x" "t \<le> x" "t' \<le> x \<Longrightarrow> \<not> fires s x" for x
    using assms(1) that unfolding quiet_def by (cases "x < t'") auto
  ultimately show ?thesis
    using assms(2,3) by (cases r) (auto simp: found_def quiet_def [of s t])
qed

lemma quietI: "(\<And>x. 60 dvd x \<Longrightarrow> a \<le> x \<Longrightarrow> x < b \<Longrightarrow> \<not> fires s x) \<Longrightarrow> quiet s a b"
  unfolding quiet_def by blast

lemma div_between:
  fixes t x k :: int
  assumes "0 < k" "t \<le> x" "x < (t div k + 1) * k"
  shows "x div k = t div k"
proof -
  have "t div k \<le> x div k" using assms by (simp add: zdiv_mono1)
  moreover have "x div k * k < (t div k + 1) * k" using div_bounds(1) [OF assms(1), of x] assms(3) by (simp add: mult.commute)
  then have "x div k < t div k + 1" using assms(1) by simp
  ultimately show ?thesis by simp
qed

lemma quiet_month:
  assumes "d_Month (c_Date (civil_of t)) \<notin> set (cs_month s)"
  shows "quiet s t (next_month t)"
proof (rule quietI)
  fix x assume "t \<le> x" "x < next_month t"
  from before_next_month(2) [OF this] assms show "\<not> fires s x" unfolding fires_def by metis
qed

lemma quiet_day:
  assumes "\<not> matchesDay s t"
  shows "quiet s t ((t div 86400 + 1) * 86400)"
proof (rule quietI)
  fix x assume "t \<le> x" "x < (t div 86400 + 1) * 86400"
  then have "x div 86400 = t div 86400" by (rule div_between [rotated]) simp
  from same_day [OF this] assms have "\<not> matchesDay s x" unfolding matchesDay_def by metis
  then show "\<not> fires s x" unfolding fires_def by blast
qed

lemma quiet_hour:
  assumes "c_Hour (civil_of t) \<notin> set (cs_hour s)"
  shows "quiet s t ((t div 3600 + 1) * 3600)"
proof (rule quietI)
  fix x assume "t \<le> x" "x < (t div 3600 + 1) * 3600"
  then have "x div 3600 = t div 3600" by (rule div_between [rotated]) simp
  with assms have "c_Hour (civil_of x) \<notin> set (cs_hour s)" unfolding civil_hour by metis
  then show "\<not> fires s x" unfolding fires_def by blast
qed

lemma quiet_minute:
  assumes "c_Minute (civil_of t) \<notin> set (cs_minute s)" "60 dvd t"
  shows "quiet s t (t + 60)"
proof (rule quietI)
  fix x assume x: "60 dvd x" "t \<le> x" "x < t + 60"
  from x(1) assms(2) obtain a b where "x = 60 * a" "t = 60 * b" by (auto elim!: dvdE)
  with x(2,3) have "x = t" by simp
  with assms(1) show "\<not> fires s x" unfolding fires_def by blast
qed

lemma next_month_minutes: "60 dvd next_month t"
  by (simp add: next_month_def Let_def)

lemma next_loop_found: "60 dvd t \<Longrightarrow> found s limit t (next_loop s limit t)"
proof (induction s limit t rule: next_loop.induct)
  case (1 s limit t)
  note step = found_skip [of s t _ limit]
  consider (stop) "\<not> t * 1000000000 < limit"
    | (month) "t * 1000000000 < limit" "d_Month (c_Date (civil_of t)) \<notin> set (cs_month s)"
    | (day) "t * 1000000000 < limit" "d_Month (c_Date (civil_of t)) \<in> set (cs_month s)" "\<not> matchesDay s t"
    | (hour) "t * 1000000000 < limit" "d_Month (c_Date (civil_of t)) \<in> set (cs_month s)" "matchesDay s t"
        "c_Hour (civil_of t) \<notin> set (cs_hour s)"
    | (minute) "t * 1000000000 < limit" "d_Month (c_Date (civil_of t)) \<in> set (cs_month s)" "matchesDay s t"
        "c_Hour (civil_of t) \<in> set (cs_hour s)" "c_Minute (civil_of t) \<notin> set (cs_minute s)"
    | (hit) "t * 1000000000 < limit" "fires s t"
    by (auto simp: fires_def)
  then show ?case
  proof cases
    case stop
    then show ?thesis by (subst next_loop.simps) (auto simp: found_def)
  next
    case month
    with 1(1) have "found s limit (next_month t) (next_loop s limit (next_month t))" by (simp add: next_month_minutes)
    from step [OF quiet_month next_month_gt this] month show ?thesis by (subst next_loop.simps) simp
  next
    case day
    with 1(2) have "found s limit ((t div 86400 + 1) * 86400) (next_loop s limit ((t div 86400 + 1) * 86400))" by simp
    from step [OF quiet_day _ this] day show ?thesis
      using div_bounds(2) [of 86400 t] by (subst next_loop.simps) simp
  next
    case hour
    with 1(3) have "found s limit ((t div 3600 + 1) * 3600) (next_loop s limit ((t div 3600 + 1) * 3600))" by simp
    from step [OF quiet_hour _ this] hour show ?thesis
      using div_bounds(2) [of 3600 t] by (subst next_loop.simps) simp
  next
    case minute
    with 1(4) 1(5) have "found s limit (t + 60) (next_loop s limit (t + 60))" by simp
    from step [OF quiet_minute _ this] minute 1(5) show ?thesis by (subst next_loop.simps) simp
  next
    case hit
    with 1(5) show ?thesis by (subst next_loop.simps) (auto simp: found_def fires_def quiet_def)
  qed
qed

definition first_fire :: "cron_schedule \<Rightarrow> int \<Rightarrow> int \<Rightarrow> bool" where
  "first_fire s after t \<longleftrightarrow> after < t * 1000000000 \<and> t * 1000000000 < next_limit after \<and> 60 dvd t \<and> fires s t \<and>
     (\<forall>x. 60 dvd x \<and> after < x * 1000000000 \<and> x < t \<longrightarrow> \<not> fires s x)"

definition never_fires :: "cron_schedule \<Rightarrow> int \<Rightarrow> bool" where
  "never_fires s after \<longleftrightarrow> (\<forall>x. 60 dvd x \<and> after < x * 1000000000 \<and> x * 1000000000 < next_limit after \<longrightarrow> \<not> fires s x)"

lemma minute_after:
  fixes x n :: int
  assumes "60 dvd x"
  shows "n < x * 1000000000 \<longleftrightarrow> (n div 60000000000 + 1) * 60 \<le> x"
proof -
  obtain k where k: "x = 60 * k" using assms by (auto elim: dvdE)
  have "n < 60000000000 * k \<longleftrightarrow> n div 60000000000 < k"
  proof
    assume "n < 60000000000 * k"
    then show "n div 60000000000 < k" using div_bounds(1) [of 60000000000 n] by linarith
  next
    assume "n div 60000000000 < k"
    then show "n < 60000000000 * k" using div_bounds(2) [of 60000000000 n] by linarith
  qed
  then show ?thesis by (auto simp: k mult.commute)
qed

lemma Next_found:
  "found s (next_limit after) ((after div 60000000000 + 1) * 60) (next_loop s (next_limit after) ((after div 60000000000 + 1) * 60))"
  by (rule next_loop_found) simp

lemmas Next_unfold = Next_def found_def first_fire_def never_fires_def quiet_def

lemma Next_fires: "Next s after = Ok t \<Longrightarrow> first_fire s after t"
  using Next_found [of s after] unfolding Next_unfold
  by (cases "next_loop s (next_limit after) ((after div 60000000000 + 1) * 60)") (simp_all add: minute_after cong: conj_cong)

lemma Next_silent: "Next s after = Err e \<Longrightarrow> never_fires s after"
  using Next_found [of s after] unfolding Next_unfold
  by (cases "next_loop s (next_limit after) ((after div 60000000000 + 1) * 60)") (simp_all add: minute_after cong: conj_cong)

text \<open>
  C39: the search for the next fire is exact. It answers with the first minute strictly after the given
  instant whose month, day, hour and minute the schedule allows, the two day fields combining as
  classic cron does, and it fails exactly when no such minute comes before the same date four years
  later.
\<close>

theorem Next_exact:
  "case Next s after of Inl _ \<Rightarrow> never_fires s after | Inr t \<Rightarrow> first_fire s after t"
  by (auto intro: Next_fires Next_silent split: sum.splits)


section \<open>Corner cases\<close>

text \<open>
  The preview of a leap-day schedule stops after one fire: the next one lies exactly at the end of the
  four years, which the search excludes.
\<close>

definition leap_schedule :: cron_schedule where
  "leap_schedule = \<lparr>cs_minute = [0], cs_hour = [0], cs_dayOfMonth = [29], cs_month = [2],
     cs_dayOfWeek = [0, 1, 2, 3, 4, 5, 6], cs_domRestricted = True, cs_dowRestricted = False\<rparr>"

lemma leap_schedule_parses: "Parse ''0 0 29 2 *'' = Some (Ok leap_schedule)"
  by code_simp

lemma fires_leap: "fires leap_schedule t \<Longrightarrow> 60 dvd t \<Longrightarrow>
    \<exists>y. leap y \<and> y = d_Year (c_Date (civil_of t)) \<and> t = (before_year y + 59 - epoch_day) * 86400"
proof -
  assume f: "fires leap_schedule t" and "60 dvd t"
  define c where "c = civil_of t"
  have c: "d_Month (c_Date c) = 2" "d_Day (c_Date c) = 29" "c_Hour c = 0" "c_Minute c = 0"
    using f by (auto simp: fires_def matchesDay_def leap_schedule_def c_def Let_def)
  have v: "valid_civil c" by (simp add: c_def civil_of_valid)
  then have "leap (d_Year (c_Date c))" using c by (auto simp: valid_civil_def valid_date_def days_in_month_def split: if_splits)
  have t: "t = (before_year (d_Year (c_Date c)) + 59 - epoch_day) * 86400 + c_Second c"
    using unix_of_civil_of [of t] c by (simp add: unix_of_def day_number_def c_def [symmetric])
  have "60 dvd c_Second c" using \<open>60 dvd t\<close> unfolding t by (simp add: dvd_add_right_iff)
  then have "c_Second c = 0" using v by (auto simp: valid_civil_def elim!: dvdE)
  with t have "t = (before_year (d_Year (c_Date c)) + 59 - epoch_day) * 86400" by simp
  with \<open>leap (d_Year (c_Date c))\<close> show ?thesis unfolding c_def by blast
qed

lemma leap_day_excluded: "Next leap_schedule 1835395200000000000 = Err CronNeverFires"
proof -
  have lim: "next_limit 1835395200000000000 = 1961625600000000000" by code_simp
  have False if t: "60 dvd t" "fires leap_schedule t" "1835395200 < t" "t < 1961625600" for t
  proof -
    from fires_leap [OF t(2,1)] obtain y where
      y: "leap y" "y = d_Year (c_Date (civil_of t))" "t = (before_year y + 59 - epoch_day) * 86400" by blast
    have "21242 < t div 86400 + 1" "t div 86400 \<le> 22703" using t div_bounds [of 86400 t] by linarith+
    then have "\<not> y \<le> 2027" "y \<le> 2032" unfolding y(2) year_of_civil year_le_iff by (simp_all add: before_year_def epoch_day_def)
    then have "y \<in> {2028, 2029, 2030, 2031, 2032}" by auto
    then show False using y(1) y(3) t(3,4) by (auto simp: leap_def before_year_def epoch_day_def)
  qed
  then show ?thesis using Next_fires [of leap_schedule 1835395200000000000]
    by (cases "Next leap_schedule 1835395200000000000")
      (auto simp: first_fire_def lim Next_def split: option.splits)
qed

text \<open>A step that wraps around sets minutes below the start of its range.\<close>

lemma step_wraps_below_start:
  "Atoi ''9223372036854775807'' = Some maxInt" "fill_values 5 59 maxInt [] = Some [5, - 9223372036854775804, 3, - 9223372036854775806, 1, - 9223372036854775808, - 1]"
  by (simp add: Atoi_def split_sign_def all_digits_def digits_val_def digit_def digit_val_def maxInt_def) code_simp

text \<open>A schedule that never fails and one that always fails have no anomalous hour.\<close>

lemma rate_all: "n \<noteq> 0 \<Longrightarrow> f64_rate n n = 1"
  by (simp add: f64_rate_def round_f64_numeral)

lemma heatmap_uniform:
  assumes "(\<forall>f\<in>set fs. f_Status f \<noteq> ''failed'') \<or> (\<forall>f\<in>set fs. f_Status f = ''failed'')" and "c \<in> set (BuildHeatmap fs)"
  shows "\<not> hc_Anomaly c"
proof -
  define rows where "rows = take MaxFireRows fs"
  let ?bad = "\<lambda>f. f_Status f = ''failed''"
  obtain k where k: "k \<in> fire_key ` set rows"
      "c = heat_cell rows (if rows = [] then 0 else f64_rate (length (filter ?bad rows)) (length rows)) k"
    using assms(2) unfolding BuildHeatmap_def Let_def rows_def [symmetric] by auto
  define cell where "cell = filter (\<lambda>f. fire_key f = k) rows"
  have rows: "set cell \<subseteq> set rows" "set rows \<subseteq> set fs" by (auto simp: rows_def cell_def dest: in_set_takeD)
  have "filter ?bad rows = [] \<and> filter ?bad cell = [] \<or> filter ?bad rows = rows \<and> filter ?bad cell = cell"
    using assms(1) rows unfolding filter_empty_conv filter_id_conv by blast
  moreover have "rows \<noteq> []" using k(1) by auto
  ultimately show ?thesis unfolding k(2)
    by (auto simp: heat_cell_def cell_def [symmetric] Let_def isAnomalousCell_def rate_all f64_add_def round_f64_numeral f64_val_def)
qed

end
