(* ===== verification/Validate.thy ===== *)
theory Validate
  imports NodeConfig Cron Semantic Graph Schedule
begin

text \<open>
  The validation of a whole document: \<^verbatim>\<open>internal/domain/validate.go\<close> with the rules of
  \<^verbatim>\<open>recoverydag.go\<close> on recovery contracts and the write-side classification of \<^verbatim>\<open>readiness.go\<close>. An issue is
  its code with the node or edge it names; messages are left out. The tool registry, the expression
  validator and the fixture replay are arguments, as in the code; the rendering of a number as text,
  the projection of a JSON value to a schema and the clock are fields of the record of outside
  functions.
\<close>

record validation_platform = platform +
  pf_Sprint :: "f64 \<Rightarrow> string"
  pf_DecodeSchema :: "json \<Rightarrow> schema option"
  pf_Now :: int

record issue =
  i_Code :: string
  i_NodeID :: string
  i_EdgeID :: string

abbreviation node_issue :: "string \<Rightarrow> string \<Rightarrow> issue" where
  "node_issue code v \<equiv> \<lparr>i_Code = code, i_NodeID = v, i_EdgeID = []\<rparr>"

abbreviation edge_issue :: "string \<Rightarrow> string \<Rightarrow> issue" where
  "edge_issue code e \<equiv> \<lparr>i_Code = code, i_NodeID = [], i_EdgeID = e\<rparr>"

abbreviation issue_if :: "bool \<Rightarrow> issue \<Rightarrow> issue list" where
  "issue_if b i \<equiv> if b then [i] else []"

record validation_options =
  vo_ToolValidator :: "(string \<Rightarrow> jmap \<Rightarrow> bool \<Rightarrow> bool) option"
  vo_AllowIncompleteToolInputs :: bool

definition platformNodeTypes :: "string list" where
  "platformNodeTypes = [''http'', ''condition'', ''tool'', ''agent'', ''multi_agent'', ''agent_reflection'', ''loop'',
     ''router'', ''router_llm'', ''transform'', ''ai'', ''webhook'', ''approval'', ''human_form'', ''noop'', ''subworkflow'',
     ''wait_until'', ''parallel_fork'', ''join'', ''schedule'', ''mcp_tool'', ''webhook_received'', ''email_received'',
     ''file_dropped'', ''mcp_server_event'', ''pagerduty_incident'']"

definition ExecutableNodeTypes :: "string list" where
  "ExecutableNodeTypes = [''noop'', ''transform'', ''condition'', ''http'', ''wait_until'', ''webhook'', ''approval'',
     ''human_form'', ''tool'', ''parallel_fork'', ''join'', ''loop'', ''webhook_received'', ''router'', ''router_llm'', ''ai'',
     ''agent'', ''multi_agent'', ''mcp_tool'', ''pagerduty_incident'', ''email_received'', ''file_dropped'',
     ''mcp_server_event'', ''subworkflow'', ''schedule'']"

section \<open>Values\<close>

fun isJSFalsy :: "json option \<Rightarrow> bool" where
  "isJSFalsy None = True"
| "isJSFalsy (Some JNull) = True"
| "isJSFalsy (Some (JStr s)) = (s = [])"
| "isJSFalsy (Some (JBool b)) = (\<not> b)"
| "isJSFalsy (Some (JNum x)) = (x = Fin 0)"
| "isJSFalsy (Some _) = False"

text \<open>\<^verbatim>\<open>fmt.Sprintf("%v", value)\<close>: arrays in brackets, maps sorted by key after the word \<^verbatim>\<open>map\<close>.\<close>

fun joined :: "string list \<Rightarrow> string" where
  "joined [] = []" | "joined [s] = s" | "joined (s # t # ts) = s @ '' '' @ joined (t # ts)"

fun Sprintv :: "(f64 \<Rightarrow> string) \<Rightarrow> json \<Rightarrow> string" where
  "Sprintv num JNull = ''<nil>''"
| "Sprintv num (JBool b) = (if b then ''true'' else ''false'')"
| "Sprintv num (JNum x) = num x"
| "Sprintv num (JStr s) = s"
| "Sprintv num (JArr xs) = ''['' @ joined (map (Sprintv num) xs) @ '']''"
| "Sprintv num (JObj m) =
     ''map['' @ joined (map (\<lambda>(k, t). k @ '':'' @ t) (sort_key fst (AList.clearjunk (map (\<lambda>(k, v). (k, Sprintv num v)) m)))) @ '']''"

definition jsString :: "validation_platform \<Rightarrow> json option \<Rightarrow> string" where
  "jsString pf v = (case v of
     Some (JStr s) \<Rightarrow> s | Some j \<Rightarrow> TrimSpace (Sprintv (pf_Sprint pf) j) | None \<Rightarrow> ''<nil>'')"

definition isNonEmptyObject :: "json option \<Rightarrow> bool" where
  "isNonEmptyObject v = (case v of Some (JObj m) \<Rightarrow> m \<noteq> [] | _ \<Rightarrow> False)"

definition validWorkflowVersion :: "json \<Rightarrow> bool" where
  "validWorkflowVersion v = (case v of JNum (Fin q) \<Rightarrow> 1 \<le> q \<and> q \<le> 2147483647 \<and> whole q | _ \<Rightarrow> False)"

definition ParseInputSchemaValue :: "validation_platform \<Rightarrow> json option \<Rightarrow> schema option" where
  "ParseInputSchemaValue pf v = (case pf_DecodeSchema pf (case v of Some j \<Rightarrow> j | None \<Rightarrow> JNull) of
     None \<Rightarrow> None
   | Some s \<Rightarrow> if validInputSchemaShape (Some s) then Some s else None)"

section \<open>The validators of the node types\<close>

record node_context =
  nc_wf :: workflow
  nc_options :: validation_options
  nc_validExpression :: "string \<Rightarrow> bool"

definition allNodeIDs :: "node_context \<Rightarrow> string list" where
  "allNodeIDs ctx = node_ids (wf_Nodes (nc_wf ctx))"

definition outgoing :: "node_context \<Rightarrow> string \<Rightarrow> string list" where
  "outgoing ctx v = map e_To (filter (\<lambda>e. e_From e = v) (wf_Edges (nc_wf ctx)))"

definition validateHttpNode :: "validation_platform \<Rightarrow> node \<Rightarrow> issue list" where
  "validateHttpNode pf n = (case ResolveNodeConfig (platform.truncate pf) (n_Config n) True of
     Inl NodeConfigMissingURL \<Rightarrow> [node_issue ''http_missing_url'' (n_ID n)]
   | Inl _ \<Rightarrow> [node_issue ''http_invalid_config'' (n_ID n)]
   | Inr _ \<Rightarrow> [])"

definition validateToolNode :: "node_context \<Rightarrow> node \<Rightarrow> issue list" where
  "validateToolNode ctx n =
     (let toolName = TrimSpace (str_or_empty (n_Config n) ''tool''); invalid = node_issue ''tool_invalid_input'' (n_ID n) in
      issue_if (case map_of (n_Config n) ''resultPolicy'' of
          None \<Rightarrow> False | Some p \<Rightarrow> p \<noteq> JStr ''require_ok'' \<and> p \<noteq> JStr ''envelope'') invalid @
      (if toolName = [] then [node_issue ''tool_missing_name'' (n_ID n)]
       else case vo_ToolValidator (nc_options ctx) of
         None \<Rightarrow> []
       | Some tool_ok \<Rightarrow> (case map_of (n_Config n) ''input'' of
           None \<Rightarrow> issue_if (\<not> tool_ok toolName [] (\<not> vo_AllowIncompleteToolInputs (nc_options ctx))) invalid
         | Some (JObj m) \<Rightarrow> issue_if (\<not> tool_ok toolName m (\<not> vo_AllowIncompleteToolInputs (nc_options ctx))) invalid
         | Some _ \<Rightarrow> [invalid])))"

definition validateSubworkflowNode :: "node_context \<Rightarrow> node \<Rightarrow> issue list" where
  "validateSubworkflowNode ctx n =
     (let workflowID = TrimSpace (str_or_empty (n_Config n) ''workflowId'') in
      (if workflowID = [] then [node_issue ''subworkflow_missing_workflow'' (n_ID n)]
       else issue_if (wf_ID (nc_wf ctx) \<noteq> [] \<and> workflowID = wf_ID (nc_wf ctx))
         (node_issue ''subworkflow_self_reference'' (n_ID n))) @
      issue_if (case map_of (n_Config n) ''version'' of None \<Rightarrow> False | Some v \<Rightarrow> \<not> validWorkflowVersion v)
        (node_issue ''subworkflow_invalid_version'' (n_ID n)))"

definition candidate_id :: "jmap \<Rightarrow> string" where
  "candidate_id entry = (let v = TrimSpace (str_or_empty entry ''nodeId'') in
     if v = [] then TrimSpace (str_or_empty entry ''id'') else v)"

definition candidate_route :: "node_context \<Rightarrow> node \<Rightarrow> json \<Rightarrow> issue list" where
  "candidate_route ctx n candidate = (case candidate of
     JObj entry \<Rightarrow>
       if candidate_id entry = [] then []
       else if candidate_id entry \<notin> set (allNodeIDs ctx) then [node_issue ''router_candidate_unknown'' (n_ID n)]
       else issue_if (candidate_id entry \<notin> set (outgoing ctx (n_ID n))) (node_issue ''router_candidate_not_successor'' (n_ID n))
   | _ \<Rightarrow> [])"

definition candidate_shape :: "node_context \<Rightarrow> node \<Rightarrow> json \<Rightarrow> issue list" where
  "candidate_shape ctx n candidate = (case candidate of
     JObj entry \<Rightarrow>
       if candidate_id entry = [] then [node_issue ''router_candidate_missing_node_id'' (n_ID n)]
       else issue_if (candidate_id entry \<notin> set (allNodeIDs ctx)) (node_issue ''router_candidate_unknown_node_id'' (n_ID n))
   | _ \<Rightarrow> [node_issue ''router_invalid_candidate'' (n_ID n)])"

definition validateRouterNode :: "node_context \<Rightarrow> node \<Rightarrow> issue list" where
  "validateRouterNode ctx n = (case map_of (n_Config n) ''candidates'' of
     Some (JArr entries) \<Rightarrow> concat (map (candidate_route ctx n) entries) @
       (if entries = [] then [node_issue ''router_missing_candidates'' (n_ID n)]
        else concat (map (candidate_shape ctx n) entries))
   | _ \<Rightarrow> [node_issue ''router_missing_candidates'' (n_ID n)])"

definition validateConditionNode :: "validation_platform \<Rightarrow> node_context \<Rightarrow> node \<Rightarrow> issue list" where
  "validateConditionNode pf ctx n =
     (let raw = map_of (n_Config n) ''expression'' in
      if isJSFalsy raw then [node_issue ''condition_missing_expression'' (n_ID n)]
      else issue_if (\<not> nc_validExpression ctx (jsString pf raw)) (node_issue ''condition_invalid_expression'' (n_ID n)))"

definition validateTransformNode :: "node \<Rightarrow> issue list" where
  "validateTransformNode n = issue_if (\<not> isNonEmptyObject (map_of (n_Config n) ''mapping''))
     (node_issue ''transform_missing_mapping'' (n_ID n))"

text \<open>Validation waits for the cron parser; \<open>Cron\<close> shows that it always returns.\<close>

definition validateScheduleNode :: "validation_platform \<Rightarrow> node \<Rightarrow> issue list" where
  "validateScheduleNode pf n = (case ResolveScheduleConfig (n_Config n) (pf_Now pf) of
     Some (Inr _) \<Rightarrow> [] | _ \<Rightarrow> [node_issue ''schedule_invalid_cron'' (n_ID n)])"

definition validateHumanFormNode :: "validation_platform \<Rightarrow> node \<Rightarrow> issue list" where
  "validateHumanFormNode pf n = (case ParseInputSchemaValue pf (map_of (n_Config n) ''schema'') of
     None \<Rightarrow> [node_issue ''human_form_invalid_schema'' (n_ID n)]
   | Some s \<Rightarrow>
       if sc_Type s = ''object'' \<and> sc_Properties s = [] then [node_issue ''human_form_empty_schema'' (n_ID n)]
       else (case map_of (n_Config n) ''initialValues'' of
           None \<Rightarrow> []
         | Some v \<Rightarrow> issue_if (ValidateInputValue s v ''$'' \<noteq> []) (node_issue ''human_form_invalid_initial_values'' (n_ID n))))"

definition validateAiNode :: "validation_platform \<Rightarrow> node \<Rightarrow> issue list" where
  "validateAiNode pf n =
     issue_if (\<not> is_ok (ResolvePromptReference (n_Config n) ''promptRef'')) (node_issue ''ai_invalid_prompt_ref'' (n_ID n)) @
     issue_if (\<not> is_ok (ResolvePromptVariables (n_Config n))) (node_issue ''ai_invalid_prompt_variables'' (n_ID n)) @
     issue_if (TrimSpace (str_or_empty (n_Config n) ''prompt'') = [] \<and> map_of (n_Config n) ''promptRef'' = None)
       (node_issue ''ai_missing_prompt'' (n_ID n)) @
     (case map_of (n_Config n) ''outputSchema'' of
        None \<Rightarrow> []
      | Some s \<Rightarrow> issue_if (ParseInputSchemaValue pf (Some s) = None) (node_issue ''ai_invalid_output_schema'' (n_ID n)))"

fun agentConfigIssueCode :: "agent_error_kind \<Rightarrow> bool \<Rightarrow> string" where
  "agentConfigIssueCode MultiAgentConfigMissingAgents True = ''multi_agent_missing_agents''"
| "agentConfigIssueCode MultiAgentConfigInvalidAgents True = ''multi_agent_invalid_agents''"
| "agentConfigIssueCode MultiAgentConfigInvalidMode True = ''multi_agent_invalid_mode''"
| "agentConfigIssueCode MultiAgentConfigInvalidAgg True = ''multi_agent_invalid_aggregation''"
| "agentConfigIssueCode MultiAgentConfigInvalidBool True = ''multi_agent_invalid_boolean''"
| "agentConfigIssueCode _ True = ''multi_agent_invalid_config''"
| "agentConfigIssueCode AgentConfigInvalidPlanner False = ''agent_invalid_planner''"
| "agentConfigIssueCode AgentConfigInvalidMaxSteps False = ''agent_invalid_max_steps''"
| "agentConfigIssueCode AgentConfigInvalidTimeout False = ''agent_invalid_timeout''"
| "agentConfigIssueCode AgentConfigInvalidBoolean False = ''agent_invalid_boolean''"
| "agentConfigIssueCode _ False = ''agent_invalid_config''"

definition validateAgentTool :: "node_context \<Rightarrow> jmap \<Rightarrow> string \<Rightarrow> string \<Rightarrow> issue list" where
  "validateAgentTool ctx config nodeID code = (case AgentConfiguredTool config of
     Inl _ \<Rightarrow> [node_issue code nodeID]
   | Inr (tool, input) \<Rightarrow> (case vo_ToolValidator (nc_options ctx) of
       None \<Rightarrow> []
     | Some tool_ok \<Rightarrow> issue_if (tool \<noteq> [] \<and> \<not> tool_ok tool input (\<not> vo_AllowIncompleteToolInputs (nc_options ctx)))
         (node_issue code nodeID)))"

definition validateAgentNode :: "node_context \<Rightarrow> node \<Rightarrow> issue list" where
  "validateAgentNode ctx n =
     issue_if (TrimSpace (str_or_empty (n_Config n) ''goal'') = []) (node_issue ''agent_missing_goal'' (n_ID n)) @
     (case ResolveAgentRuntimeConfig (n_Config n) AgentDefaultMaxSteps False of
        Inl e \<Rightarrow> [node_issue (agentConfigIssueCode (ae_Kind e) False) (n_ID n)]
      | Inr _ \<Rightarrow> validateAgentTool ctx (n_Config n) (n_ID n) ''agent_invalid_tool'')"

definition validateMultiAgentNode :: "node_context \<Rightarrow> node \<Rightarrow> issue list" where
  "validateMultiAgentNode ctx n = (case ResolveMultiAgentRuntimeConfig (n_Config n) of
     Inl e \<Rightarrow> [node_issue (agentConfigIssueCode (ae_Kind e) True) (n_ID n)]
   | Inr r \<Rightarrow> concat (map (\<lambda>raw. validateAgentTool ctx (case raw of JObj m \<Rightarrow> m | _ \<Rightarrow> []) (n_ID n) ''multi_agent_invalid_config'')
       (ma_Agents r)))"

definition loop_mode :: "jmap \<Rightarrow> string option" where
  "loop_mode config = (case map_of config ''mode'' of
     None \<Rightarrow> Some ''map''
   | Some (JStr s) \<Rightarrow> if s = ''map'' \<or> s = ''for_each'' then Some s else None
   | Some _ \<Rightarrow> None)"

definition bounded_field :: "jmap \<Rightarrow> string \<Rightarrow> rat \<Rightarrow> rat \<Rightarrow> bool" where
  "bounded_field config field lo hi = (case map_of config field of None \<Rightarrow> True | Some v \<Rightarrow> boundedWholeNumber v lo hi)"

definition validateLoopConfig :: "node_context \<Rightarrow> node \<Rightarrow> issue list" where
  "validateLoopConfig ctx n =
     (let config = n_Config n; toolName = TrimSpace (str_or_empty config ''tool'') in
      issue_if (isJSFalsy (map_of config ''items'')) (node_issue ''loop_missing_items'' (n_ID n)) @
      issue_if (loop_mode config = None) (node_issue ''loop_invalid_mode'' (n_ID n)) @
      (if loop_mode config = Some ''for_each''
       then if toolName = [] then [node_issue ''loop_for_each_missing_tool'' (n_ID n)]
         else (case vo_ToolValidator (nc_options ctx) of
             None \<Rightarrow> []
           | Some tool_ok \<Rightarrow> issue_if (\<not> tool_ok toolName [] False) (node_issue ''loop_for_each_unknown_tool'' (n_ID n)))
       else []) @
      issue_if (\<not> bounded_field config ''concurrency'' 1 20) (node_issue ''loop_invalid_concurrency'' (n_ID n)) @
      issue_if (\<not> bounded_field config ''toleratedFailureCount'' 0 1000) (node_issue ''loop_invalid_failure_count'' (n_ID n)) @
      issue_if (case map_of config ''toleratedFailurePercentage'' of
          None \<Rightarrow> False
        | Some v \<Rightarrow> (case validationFiniteNumber v of None \<Rightarrow> True | Some q \<Rightarrow> q < 0 \<or> 100 < q))
        (node_issue ''loop_invalid_failure_percentage'' (n_ID n)) @
      issue_if (map_of config ''toleratedFailureCount'' \<noteq> None \<and> map_of config ''toleratedFailurePercentage'' \<noteq> None)
        (node_issue ''loop_conflicting_failure_budgets'' (n_ID n)))"

definition validateParallelForkNode :: "node \<Rightarrow> issue list" where
  "validateParallelForkNode n = issue_if (\<not> is_ok (ResolveParallelForkBranches (n_Config n)))
     (node_issue ''parallel_fork_invalid_branches'' (n_ID n))"

definition validateJoinNode :: "node \<Rightarrow> issue list" where
  "validateJoinNode n = issue_if (\<not> is_ok (ResolveJoinSources (n_Config n))) (node_issue ''join_invalid_sources'' (n_ID n))"

definition validateTriggerNode :: "validation_platform \<Rightarrow> node \<Rightarrow> issue list" where
  "validateTriggerNode pf n = issue_if (ValidateTriggerConfig (platform.truncate pf) (n_Type n) (n_Config n) \<noteq> None)
     (node_issue ''trigger_invalid_config'' (n_ID n))"

fun waiting_code :: "waiting_error \<Rightarrow> string" where
  "waiting_code WaitUntilConflict = ''wait_until_conflicting_time''"
| "waiting_code WaitUntilMissing = ''wait_until_missing_duration''"
| "waiting_code WaitUntilDuration = ''wait_until_invalid_duration''"
| "waiting_code WaitUntilNonPositive = ''wait_until_non_positive_duration''"
| "waiting_code WaitUntilInstant = ''wait_until_invalid_until''"
| "waiting_code ApprovalConflict = ''approval_conflicting_deadline''"
| "waiting_code ApprovalPolicy = ''approval_invalid_timeout_policy''"
| "waiting_code ApprovalPolicyWithoutDeadline = ''approval_timeout_policy_without_deadline''"
| "waiting_code ApprovalEscalationWithoutPolicy = ''approval_escalation_without_policy''"
| "waiting_code ApprovalTimeout = ''approval_invalid_timeout''"
| "waiting_code ApprovalUntil = ''approval_invalid_until''"
| "waiting_code ApprovalEscalationMissing = ''approval_escalation_missing_assignee''"

definition validateApprovalNode :: "validation_platform \<Rightarrow> node \<Rightarrow> issue list" where
  "validateApprovalNode pf n = (case ResolveApprovalWaitingConfig (n_Config n) (pf_Now pf) of
     Inl e \<Rightarrow> [node_issue (waiting_code e) (n_ID n)] | Inr _ \<Rightarrow> [])"

definition validateWaitUntilNode :: "node \<Rightarrow> issue list" where
  "validateWaitUntilNode n = (case ValidateWaitUntilConfig (n_Config n) of
     Some e \<Rightarrow> [node_issue (waiting_code e) (n_ID n)] | None \<Rightarrow> [])"

definition nodeValidators :: "validation_platform \<Rightarrow> node_context \<Rightarrow> node \<Rightarrow> issue list" where
  "nodeValidators pf ctx n = (let ty = n_Type n in
     if ty = ''http'' then validateHttpNode pf n
     else if ty = ''tool'' then validateToolNode ctx n
     else if ty = ''subworkflow'' then validateSubworkflowNode ctx n
     else if ty = ''router'' \<or> ty = ''router_llm'' then validateRouterNode ctx n
     else if ty = ''condition'' then validateConditionNode pf ctx n
     else if ty = ''transform'' then validateTransformNode n
     else if ty = ''schedule'' then validateScheduleNode pf n
     else if ty = ''human_form'' then validateHumanFormNode pf n
     else if ty = ''ai'' then validateAiNode pf n
     else if ty = ''agent'' then validateAgentNode ctx n
     else if ty = ''multi_agent'' then validateMultiAgentNode ctx n
     else if ty = ''loop'' then validateLoopConfig ctx n
     else if ty = ''parallel_fork'' then validateParallelForkNode n
     else if ty = ''join'' then validateJoinNode n
     else if ty \<in> {''webhook_received'', ''email_received'', ''file_dropped'', ''mcp_server_event'', ''pagerduty_incident''}
       then validateTriggerNode pf n
     else if ty = ''approval'' then validateApprovalNode pf n
     else if ty = ''wait_until'' then validateWaitUntilNode n
     else [])"

section \<open>Write-side nodes\<close>

definition sensitiveToolNames :: "string list" where
  "sensitiveToolNames = [''email.send'', ''slack.post'', ''github.create_issue'', ''linear.create_issue'', ''db.query.write'',
     ''db.query.transaction'', ''pagerduty.incident.acknowledge'', ''pagerduty.incident.snooze'']"

definition sensitiveToolSuffixes :: "string list" where
  "sensitiveToolSuffixes = [''.write'', ''.create'', ''.send'', ''.delete'', ''.update'']"

type_synonym write_side = "(string \<Rightarrow> jmap \<Rightarrow> bool) option"

definition object_or_empty :: "jmap \<Rightarrow> string \<Rightarrow> jmap" where
  "object_or_empty m k = (case map_of m k of Some (JObj x) \<Rightarrow> x | _ \<Rightarrow> [])"

definition isWriteSideTool :: "write_side \<Rightarrow> string \<Rightarrow> jmap \<Rightarrow> bool" where
  "isWriteSideTool opts tool input = (case opts of None \<Rightarrow> False | Some f \<Rightarrow> tool \<noteq> [] \<and> f tool input)"

definition isSensitiveAction :: "write_side \<Rightarrow> node \<Rightarrow> bool" where
  "isSensitiveAction opts n = (let config = n_Config n; ty = n_Type n in
     if ty = ''http'' then ToUpper (TrimSpace (str_or_empty config ''method'')) \<notin> {[], ''GET'', ''HEAD'', ''OPTIONS''}
     else if ty = ''tool'' then (case get_str config ''tool'' of
         None \<Rightarrow> False
       | Some tool \<Rightarrow> (case opts of
           Some f \<Rightarrow> f tool (object_or_empty config ''input'')
         | None \<Rightarrow> tool \<in> set sensitiveToolNames \<or> list_ex (\<lambda>s. suffix s tool) sensitiveToolSuffixes))
     else if ty = ''loop'' then str_or_empty config ''mode'' = ''for_each'' \<and>
       isWriteSideTool opts (str_or_empty config ''tool'') (object_or_empty config ''input'')
     else if ty = ''mcp_tool'' then True
     else if ty = ''agent'' \<or> ty = ''multi_agent'' then map_of config ''allowWriteTools'' = Some (JBool True)
     else False)"

section \<open>Recovery contracts against the graph\<close>

definition deferredCompletionNodeTypes :: "string list" where
  "deferredCompletionNodeTypes = [''approval'', ''human_form'', ''subworkflow'', ''wait_until'', ''webhook'']"

definition actualEffects :: "workflow \<Rightarrow> string list" where
  "actualEffects w = map n_ID (filter (isSensitiveAction None) (wf_Nodes w))"

definition declaredEffects :: "contract \<Rightarrow> string list" where
  "declaredEffects c = map ef_NodeID (c_Effects c)"

definition guardedEffectIDs :: "workflow \<Rightarrow> contract \<Rightarrow> string list" where
  "guardedEffectIDs w c = sort (remdups (declaredEffects c @ actualEffects w))"

definition indexSemanticDag :: "workflow \<Rightarrow> contract \<Rightarrow> issue list" where
  "indexSemanticDag w c = map (node_issue ''semantic_effect_not_declared'')
     (filter (\<lambda>v. v \<notin> set (declaredEffects c)) (actualEffects w))"

definition detector_source :: "workflow \<Rightarrow> detector \<Rightarrow> issue list" where
  "detector_source w d = (let v = d_SourceNodeID d in case node_by_id (wf_Nodes w) v of
     None \<Rightarrow> [node_issue ''semantic_detector_unknown_source'' v]
   | Some n \<Rightarrow>
       if n_Type n \<in> set deferredCompletionNodeTypes then [node_issue ''semantic_detector_deferred_source'' v]
       else issue_if (d_Action d = ''quarantine'' \<and> (n_Type n = ''router'' \<or> n_Type n = ''router_llm''))
         (node_issue ''semantic_quarantine_router_source'' v))"

definition detector_guard :: "workflow \<Rightarrow> contract \<Rightarrow> detector \<Rightarrow> issue list" where
  "detector_guard w c d =
     (if d_Action d \<noteq> ''quarantine'' then []
      else let reachable = reachableNodesWithout (wf_Nodes w) (wf_Edges w) (d_SourceNodeID d) in
        map (node_issue ''semantic_detector_does_not_guard_effect'')
          (filter (\<lambda>v. d_SourceNodeID d = v \<or> v \<in> set reachable) (guardedEffectIDs w c)))"

definition validateSemanticDetector :: "workflow \<Rightarrow> contract \<Rightarrow> (string \<Rightarrow> bool) \<Rightarrow> detector \<Rightarrow> issue list" where
  "validateSemanticDetector w c validExpression d =
     detector_source w d @
     issue_if (d_Kind d = ''expression'' \<and> \<not> validExpression (d_PassWhen d))
       (node_issue ''semantic_detector_invalid_expression'' (d_SourceNodeID d)) @
     detector_guard w c d"

definition validateSemanticDetectors :: "workflow \<Rightarrow> contract \<Rightarrow> (string \<Rightarrow> bool) \<Rightarrow> issue list" where
  "validateSemanticDetectors w c validExpression =
     concat (map (validateSemanticDetector w c validExpression) (sf_Detectors (c_Semantic c)))"

definition validateSemanticFixtures :: "workflow \<Rightarrow> contract \<Rightarrow> issue list" where
  "validateSemanticFixtures w c = concat (map (\<lambda>f. let v = fx_SourceNodeID f in
     if (case node_by_id (wf_Nodes w) v of None \<Rightarrow> True | Some n \<Rightarrow> n_ID n = [])
     then [node_issue ''semantic_fixture_unknown_source'' v]
     else issue_if (v \<notin> set (map d_SourceNodeID (sf_Detectors (c_Semantic c)))) (node_issue ''semantic_fixture_without_detector'' v))
     (sf_EvaluationFixtures (c_Semantic c)))"

definition replay_detector :: "fixture_outcome list \<Rightarrow> detector \<Rightarrow> issue list" where
  "replay_detector outcomes d =
     (let own = filter (\<lambda>out. fo_SourceNodeID out = d_SourceNodeID d) outcomes in
      issue_if (\<not> list_ex (\<lambda>out. fo_Expected out = ''pass'' \<and> fo_Actual out = ''pass'') own)
        (node_issue ''semantic_detector_missing_pass_fixture'' (d_SourceNodeID d)) @
      issue_if (\<not> list_ex (\<lambda>out. fo_Expected out = ''violation'' \<and> d_ID d \<in> set (fo_ViolationDetectorIDs out)) own)
        (node_issue ''semantic_detector_missing_violation_fixture'' (d_SourceNodeID d)))"

definition validateSemanticReplay :: "contract \<Rightarrow> (contract \<Rightarrow> fixture_outcome list) option \<Rightarrow> issue list" where
  "validateSemanticReplay c replayFixtures = (case replayFixtures of
     None \<Rightarrow> []
   | Some replay \<Rightarrow> (let outcomes = replay c in
       concat (map (\<lambda>out. issue_if (\<not> fo_Passed out) (node_issue ''semantic_fixture_mismatch'' (fo_SourceNodeID out))) outcomes) @
       concat (map (replay_detector outcomes) (sf_Detectors (c_Semantic c)))))"

definition validateSemanticContractDAG ::
  "workflow \<Rightarrow> (string \<Rightarrow> bool) \<Rightarrow> (contract \<Rightarrow> fixture_outcome list) option \<Rightarrow> issue list" where
  "validateSemanticContractDAG w validExpression replayFixtures = (case wf_Contract w of
     None \<Rightarrow> []
   | Some c \<Rightarrow>
       if c_Version c \<noteq> ''2'' then []
       else indexSemanticDag w c @ validateSemanticDetectors w c validExpression @ validateSemanticFixtures w c @
         validateSemanticReplay c replayFixtures)"

section \<open>The whole document\<close>

function strip_quoted :: "string \<Rightarrow> string" where
  "strip_quoted [] = []"
| "strip_quoted (c # s) =
     (if (c = CHR 0x27 \<or> c = CHR 0x22) \<and> c \<in> set s then strip_quoted (tl (dropWhile (\<lambda>d. d \<noteq> c) s))
      else c # strip_quoted s)"
  by pat_completeness auto
termination
  by (relation "measure length") (auto simp: less_Suc_eq_le intro: order.trans [OF diff_le_self length_dropWhile_le])

definition word_char :: "char \<Rightarrow> bool" where
  "word_char c \<longleftrightarrow> alnum c \<or> c = CHR ''_''"

fun inputs_reference :: "bool \<Rightarrow> string \<Rightarrow> bool" where
  "inputs_reference after_word [] = False"
| "inputs_reference after_word (c # s) =
     (\<not> after_word \<and> (prefix ''inputs.'' (c # s) \<or> prefix ''inputs['' (c # s)) \<or> inputs_reference (word_char c) s)"

definition node_checks :: "validation_platform \<Rightarrow> node_context \<Rightarrow> node \<Rightarrow> issue list" where
  "node_checks pf ctx n =
     issue_if (n_ID n = ''input'') (node_issue ''node_id_reserved'' (n_ID n)) @
     (if n_Type n \<notin> set platformNodeTypes then [node_issue ''unsupported_node_type'' (n_ID n)]
      else issue_if (n_Type n \<notin> set ExecutableNodeTypes) (node_issue ''node_type_not_executable'' (n_ID n))) @
     (case map_of (n_Config n) ''retry'' of
        None \<Rightarrow> []
      | Some r \<Rightarrow> issue_if (\<not> is_ok (ResolveRetryPolicy r)) (node_issue ''retry_invalid_config'' (n_ID n))) @
     nodeValidators pf ctx n"

fun node_loop :: "validation_platform \<Rightarrow> node_context \<Rightarrow> string list \<Rightarrow> node list \<Rightarrow> issue list" where
  "node_loop pf ctx seen [] = []"
| "node_loop pf ctx seen (n # ns) =
     issue_if (n_ID n \<in> set seen) (node_issue ''duplicate_node_id'' (n_ID n)) @ node_checks pf ctx n @
     node_loop pf ctx (n_ID n # seen) ns"

definition edge_checks :: "node_context \<Rightarrow> nat \<Rightarrow> edge \<Rightarrow> issue list" where
  "edge_checks ctx index e = (let edgeID = (if e_ID e = [] then ''edge_'' @ itoa index else e_ID e) in
     issue_if (e_From e \<notin> set (allNodeIDs ctx)) (edge_issue ''edge_invalid_from'' edgeID) @
     issue_if (e_To e \<notin> set (allNodeIDs ctx)) (edge_issue ''edge_invalid_to'' edgeID) @
     issue_if (e_OnError e \<and> e_Condition e \<noteq> []) (edge_issue ''edge_on_error_condition'' edgeID) @
     (if e_Condition e = [] then []
      else issue_if (\<not> nc_validExpression ctx (e_Condition e)) (edge_issue ''edge_invalid_condition'' edgeID) @
        issue_if (inputs_reference False (strip_quoted (e_Condition e))) (edge_issue ''edge_condition_inputs_scope'' edgeID)))"

record validation =
  vl_Valid :: bool
  vl_Issues :: "issue list"

definition document_issues ::
  "validation_platform \<Rightarrow> workflow \<Rightarrow> (string \<Rightarrow> bool) \<Rightarrow> (contract \<Rightarrow> fixture_outcome list) option \<Rightarrow> validation_options \<Rightarrow> issue list" where
  "document_issues pf w validExpression replayFixtures options =
     (let ctx = \<lparr>nc_wf = w, nc_options = options, nc_validExpression = validExpression\<rparr> in
      validateSemanticContractDAG w validExpression replayFixtures @
      issue_if (wf_Nodes w = []) (node_issue ''empty_workflow'' []) @
      node_loop pf ctx [] (wf_Nodes w) @
      concat (map (\<lambda>(index, e). edge_checks ctx index e) (enumerate 0 (wf_Edges w))) @
      (case wf_Inputs w of
         None \<Rightarrow> []
       | Some s \<Rightarrow> map (\<lambda>_. node_issue ''input_default_type_mismatch'' []) (invalidInputDefaults s ''$'')) @
      issue_if (hasCycle (wf_Nodes w) (wf_Edges w)) (node_issue ''cycle_detected'' []) @
      issue_if (wf_Nodes w \<noteq> [] \<and> roots (wf_Nodes w) (wf_Edges w) = []) (node_issue ''missing_start_node'' []))"

definition ValidateWithOptions ::
  "validation_platform \<Rightarrow> workflow \<Rightarrow> (string \<Rightarrow> bool) option \<Rightarrow> (contract \<Rightarrow> fixture_outcome list) option \<Rightarrow> validation_options \<Rightarrow> validation" where
  "ValidateWithOptions pf w validExpression replayFixtures options =
     (let issues = document_issues pf w (case validExpression of None \<Rightarrow> (\<lambda>_. True) | Some f \<Rightarrow> f) replayFixtures options in
      \<lparr>vl_Valid = (issues = []), vl_Issues = issues\<rparr>)"

section \<open>What validation guarantees\<close>

lemma issue_if_Nil: "issue_if b i = [] \<longleftrightarrow> \<not> b" by simp

lemma node_loop_Nil:
  "node_loop pf ctx seen ns = [] \<longleftrightarrow>
     distinct (node_ids ns) \<and> set (node_ids ns) \<inter> set seen = {} \<and> (\<forall>n\<in>set ns. node_checks pf ctx n = [])"
  by (induction ns arbitrary: seen) (auto simp: node_ids_def)

lemma edges_Nil:
  "concat (map (\<lambda>(index, e). edge_checks ctx index e) (enumerate i es)) = [] \<longleftrightarrow>
     (\<forall>e\<in>set es. e_From e \<in> set (allNodeIDs ctx) \<and> e_To e \<in> set (allNodeIDs ctx) \<and>
       (e_Condition e \<noteq> [] \<longrightarrow> \<not> e_OnError e \<and> nc_validExpression ctx (e_Condition e) \<and>
          \<not> inputs_reference False (strip_quoted (e_Condition e))))"
  by (induction es arbitrary: i) (auto simp: edge_checks_def Let_def)

lemma document_issues_Nil:
  assumes "document_issues pf w f replay options = []"
  defines "ctx \<equiv> \<lparr>nc_wf = w, nc_options = options, nc_validExpression = f\<rparr>"
  shows "valid_graph w" "roots (wf_Nodes w) (wf_Edges w) \<noteq> []" "validateSemanticContractDAG w f replay = []"
    "\<And>n. n \<in> set (wf_Nodes w) \<Longrightarrow> node_checks pf ctx n = []"
    "\<And>e. e \<in> set (wf_Edges w) \<Longrightarrow> e_Condition e \<noteq> [] \<Longrightarrow> \<not> e_OnError e \<and> f (e_Condition e)"
    "\<And>s. wf_Inputs w = Some s \<Longrightarrow> invalidInputDefaults s ''$'' = []"
proof -
  have parts: "validateSemanticContractDAG w f replay = []" "wf_Nodes w \<noteq> []" "node_loop pf ctx [] (wf_Nodes w) = []"
      "concat (map (\<lambda>(index, e). edge_checks ctx index e) (enumerate 0 (wf_Edges w))) = []"
      "\<not> hasCycle (wf_Nodes w) (wf_Edges w)" "roots (wf_Nodes w) (wf_Edges w) \<noteq> []"
      "\<And>s. wf_Inputs w = Some s \<Longrightarrow> invalidInputDefaults s ''$'' = []"
    using assms(1) unfolding document_issues_def Let_def ctx_def by (auto split: if_splits option.splits)
  from parts(2-5) show "valid_graph w"
    unfolding valid_graph_def node_loop_Nil edges_Nil by (auto simp: ctx_def allNodeIDs_def)
  from parts(1,6) show "validateSemanticContractDAG w f replay = []" "roots (wf_Nodes w) (wf_Edges w) \<noteq> []" .
  from parts(3) show "\<And>n. n \<in> set (wf_Nodes w) \<Longrightarrow> node_checks pf ctx n = []" unfolding node_loop_Nil by blast
  from parts(4) show "\<And>e. e \<in> set (wf_Edges w) \<Longrightarrow> e_Condition e \<noteq> [] \<Longrightarrow> \<not> e_OnError e \<and> f (e_Condition e)"
    unfolding edges_Nil by (auto simp: ctx_def)
  from parts(7) show "\<And>s. wf_Inputs w = Some s \<Longrightarrow> invalidInputDefaults s ''$'' = []" .
qed

lemma accepted_issues:
  "vl_Valid (ValidateWithOptions pf w (Some f) replay options) \<longleftrightarrow> document_issues pf w f replay options = []"
  by (simp add: ValidateWithOptions_def Let_def)

lemma node_checks_Nil:
  assumes "node_checks pf ctx n = []"
  shows "n_ID n \<noteq> ''input''" "n_Type n \<in> set ExecutableNodeTypes" "nodeValidators pf ctx n = []"
    "\<And>r. map_of (n_Config n) ''retry'' = Some r \<Longrightarrow> is_ok (ResolveRetryPolicy r)"
  using assms by (auto simp: node_checks_def split: if_splits)

definition document_ok :: "workflow \<Rightarrow> bool" where
  "document_ok w \<longleftrightarrow> valid_graph w \<and> roots (wf_Nodes w) (wf_Edges w) \<noteq> [] \<and>
     (\<forall>n\<in>set (wf_Nodes w). n_ID n \<noteq> ''input'' \<and> n_Type n \<in> set ExecutableNodeTypes \<and>
        (\<forall>r. map_of (n_Config n) ''retry'' = Some r \<longrightarrow> (\<exists>p. ResolveRetryPolicy r = Ok p \<and> policy_ok p))) \<and>
     (\<forall>e\<in>set (wf_Edges w). e_Condition e \<noteq> [] \<longrightarrow>
        \<not> e_OnError e \<and> (\<forall>sc. size_errors_only (EvaluateExpression (e_Condition e) sc))) \<and>
     (\<forall>s. wf_Inputs w = Some s \<longrightarrow> invalidInputDefaults s ''$'' = [])"

text \<open>
  C29: what acceptance by the composed validator means for the engine. The graph is one the scheduler makes
  progress on: node ids are distinct, edges join known nodes, there is no cycle and some node starts; no
  node shadows the run input, every type has an executor, every retry policy is within its bounds, and
  the condition of an edge never fails on its grammar, in any run context, nor sits on an error edge.
\<close>

theorem accepted_documents_ok:
  assumes "vl_Valid (ValidateWithOptions pf w (Some (\<lambda>e. fst (DomainValidator e))) replay options)"
  shows "document_ok w"
proof -
  note doc = document_issues_Nil [OF assms [unfolded accepted_issues]]
  have "\<exists>p. ResolveRetryPolicy r = Ok p \<and> policy_ok p"
    if "n \<in> set (wf_Nodes w)" "map_of (n_Config n) ''retry'' = Some r" for n r
    using node_checks_Nil(4) [OF doc(4) [OF that(1)] that(2)] ResolveRetryPolicy_ok by (auto simp: is_ok_iff)
  moreover have "size_errors_only (EvaluateExpression (e_Condition e) sc)"
    if "e \<in> set (wf_Edges w)" "e_Condition e \<noteq> []" for e sc
    using doc(5) [OF that] by (intro validated_runs) (simp add: DomainValidator_def Let_def)
  ultimately show ?thesis
    unfolding document_ok_def using doc(1,2,6) doc(4) [THEN node_checks_Nil(1)] doc(4) [THEN node_checks_Nil(2)] doc(5) by blast
qed

section \<open>Quarantine comes before effects\<close>

lemma semantic_rules:
  assumes "validateSemanticContractDAG w f replay = []" "wf_Contract w = Some c" "c_Version c = ''2''"
    and "d \<in> set (sf_Detectors (c_Semantic c))"
  shows "set (actualEffects w) \<subseteq> set (declaredEffects c)" "detector_source w d = []" "detector_guard w c d = []"
    "d_Kind d = ''expression'' \<Longrightarrow> f (d_PassWhen d)"
  using assms
  by (auto simp: validateSemanticContractDAG_def indexSemanticDag_def filter_empty_conv validateSemanticDetectors_def
      concat_map_Nil_iff validateSemanticDetector_def split: if_splits)

lemma guard_dominates:
  assumes "detector_guard w c d = []" "d_Action d = ''quarantine''" "v \<in> set (guardedEffectIDs w c)"
    and p: "path (edge_pairs (wf_Edges w)) p" "hd p \<in> set (roots (wf_Nodes w) (wf_Edges w))" "last p = v"
  shows "d_SourceNodeID d \<in> set (butlast p)"
proof -
  let ?x = "d_SourceNodeID d"
  have x: "?x \<noteq> v" "v \<notin> set (reachableNodesWithout (wf_Nodes w) (wf_Edges w) ?x)"
    using assms(1-3) by (auto simp: detector_guard_def Let_def filter_empty_conv)
  have "?x \<in> set p"
  proof (rule ccontr)
    assume "?x \<notin> set p"
    moreover from this p(1) have "hd p \<noteq> ?x" by (metis hd_in_set path_def)
    ultimately show False using x(2) p avoiding_path [of _ p "{?x}"] by (auto simp: set_reachableNodesWithout)
  qed
  then show ?thesis using x(1) p(1,3) by (metis append_butlast_last_id insert_iff path_def rotate1.simps(2) set_ConsD set_rotate1)
qed

text \<open>
  C30: quarantine always comes before the effect. In a document with a contract of version 2 that
  validation accepts, every path from a root to a declared effect, or to a node the classification
  without a registry takes for write-side, passes the source of each quarantine detector strictly
  before it. The source completes inline and is no router, and a detector written as an expression
  cannot fail on its grammar.
\<close>

theorem quarantine_precedes_effects:
  assumes "vl_Valid (ValidateWithOptions pf w (Some (\<lambda>e. fst (DomainValidator e))) replay options)"
    and "wf_Contract w = Some c" "c_Version c = ''2''"
    and "d \<in> set (sf_Detectors (c_Semantic c))" "d_Action d = ''quarantine''"
    and "v \<in> set (declaredEffects c) \<union> set (actualEffects w)"
    and "path (edge_pairs (wf_Edges w)) p" "hd p \<in> set (roots (wf_Nodes w) (wf_Edges w))" "last p = v"
  shows "d_SourceNodeID d \<in> set (butlast p) \<and>
    type_by_id (wf_Nodes w) (d_SourceNodeID d) \<notin> set deferredCompletionNodeTypes \<union> {''router'', ''router_llm''} \<and>
    (d_Kind d \<noteq> ''expression'' \<or> (\<forall>sc. size_errors_only (EvaluateExpression (d_PassWhen d) sc)))"
proof -
  note sem = semantic_rules [OF document_issues_Nil(3) [OF assms(1) [unfolded accepted_issues]] assms(2-4)]
  have "v \<in> set (guardedEffectIDs w c)" using assms(6) by (simp add: guardedEffectIDs_def)
  from guard_dominates [OF sem(3) assms(5) this assms(7-9)] have "d_SourceNodeID d \<in> set (butlast p)" .
  moreover have "type_by_id (wf_Nodes w) (d_SourceNodeID d) \<notin> set deferredCompletionNodeTypes \<union> {''router'', ''router_llm''}"
    using sem(2) assms(5) by (auto simp: detector_source_def type_by_id_def Let_def split: option.splits if_splits)
  moreover have "size_errors_only (EvaluateExpression (d_PassWhen d) sc)" if "d_Kind d = ''expression''" for sc
    using sem(4) [OF that] by (intro validated_runs) (simp add: DomainValidator_def Let_def)
  ultimately show ?thesis by blast
qed

section \<open>A document with a quarantine detector\<close>

definition plain_platform :: validation_platform where
  "plain_platform = \<lparr>pf_ParseRequestURI = (\<lambda>_. None), pf_ValidHeaderFieldName = (\<lambda>_. True), pf_ValidHeaderFieldValue = (\<lambda>_. True),
     pf_ToLower = ToLower, pf_Sprint = (\<lambda>_. []), pf_DecodeSchema = (\<lambda>_. None), pf_Now = 0\<rparr>"

definition guard_detector :: detector where
  "guard_detector = \<lparr>d_ID = ''d'', d_SourceNodeID = ''a'', d_Kind = ''schema'', d_PassWhen = [],
     d_Schema = Some (Schema ''boolean'' [] [] [] None [] None), d_Action = ''quarantine'', d_Message = ''not ok'', d_AutonomyLevel = None\<rparr>"

definition guard_fixture :: "string \<Rightarrow> json \<Rightarrow> string \<Rightarrow> fixture" where
  "guard_fixture i v expected = \<lparr>fx_ID = i, fx_SourceNodeID = ''a'', fx_Output = v, fx_Context = [],
     fx_Expected = expected\<rparr>"

definition guard_contract :: contract where
  "guard_contract = \<lparr>c_Version = ''2'', c_Technical = \<lparr>tf_TerminalNodeFailure = True, tf_StalledNode = True, tf_Autonomy = []\<rparr>,
     c_Semantic = \<lparr>sf_Mode = ''deterministic'', sf_Detectors = [guard_detector],
       sf_EvaluationFixtures = [guard_fixture ''good'' (JBool True) ''pass'', guard_fixture ''bad'' JNull ''violation'']\<rparr>,
     c_EvidenceRequired = [], c_Effects = [\<lparr>ef_NodeID = ''b'', ef_Kind = [], ef_Idempotency = [], ef_Receipt = []\<rparr>],
     c_RepairsAllowed = [], c_MinimumEvidenceLevel = [], c_ProductionMutation = [], c_Permission = [], c_AutonomyLevel = 0,
     c_NarrowAutonomy = None, c_VerificationKind = [], c_RecurrenceWindowDays = 0\<rparr>"

definition guard_workflow :: workflow where
  "guard_workflow = \<lparr>wf_DSLVersion = ''1.0'', wf_ID = ''w'', wf_Name = [], wf_Inputs = None, wf_Outputs = [], wf_TemplatePolicy = [],
     wf_CircuitBreaker = None, wf_Contract = Some guard_contract,
     wf_Nodes = [\<lparr>n_ID = ''a'', n_Type = ''noop'', n_Label = [], n_Config = []\<rparr>,
       \<lparr>n_ID = ''b'', n_Type = ''mcp_tool'', n_Label = [], n_Config = []\<rparr>],
     wf_Edges = [\<lparr>e_ID = [], e_From = ''a'', e_To = ''b'', e_Condition = [], e_OnError = False\<rparr>]\<rparr>"

definition strict_options :: validation_options where
  "strict_options = \<lparr>vo_ToolValidator = Some (\<lambda>_ _ _. False), vo_AllowIncompleteToolInputs = False\<rparr>"

definition guard_validation :: validation where
  "guard_validation = ValidateWithOptions plain_platform guard_workflow (Some (\<lambda>e. fst (DomainValidator e)))
     (Some (\<lambda>c. FixtureOutcomesForValidation (Some c))) strict_options"

lemma guard_accepted: "vl_Valid guard_validation"
  by code_simp

text \<open>The witness evaluates the validator on this document.\<close>

theorem accepted_documents_ok_witness: "vl_Valid guard_validation \<and> document_ok guard_workflow"
  using guard_accepted accepted_documents_ok [OF guard_accepted [unfolded guard_validation_def]] by blast

theorem quarantine_precedes_effects_witness:
  "vl_Valid guard_validation \<and> ''b'' \<in> set (declaredEffects guard_contract) \<and> ''a'' \<in> set (butlast [''a'', ''b''])"
proof -
  have "wf_Contract guard_workflow = Some guard_contract" "c_Version guard_contract = ''2''"
    "guard_detector \<in> set (sf_Detectors (c_Semantic guard_contract))" "d_Action guard_detector = ''quarantine''"
    "d_SourceNodeID guard_detector = ''a''" "''b'' \<in> set (declaredEffects guard_contract)"
    by (simp_all add: guard_workflow_def guard_contract_def guard_detector_def declaredEffects_def)
  moreover have "path (edge_pairs (wf_Edges guard_workflow)) [''a'', ''b'']"
    "hd [''a'', ''b''] \<in> set (roots (wf_Nodes guard_workflow) (wf_Edges guard_workflow))"
    by (simp_all add: guard_workflow_def path_def edge_pairs_def roots_def node_ids_def)
  ultimately show ?thesis
    using quarantine_precedes_effects [OF guard_accepted [unfolded guard_validation_def], of guard_contract guard_detector
        "''b''" "[''a'', ''b'']"] guard_accepted by auto
qed

end
