(* ===== verification/Executors.thy ===== *)
theory Executors
  imports Validate
begin

text \<open>
  The executors that only read their configuration and the run context: \<^verbatim>\<open>executors.go\<close>, \<^verbatim>\<open>forkjoin.go\<close>,
  \<^verbatim>\<open>trigger.go\<close> and the form and webhook executors of \<^verbatim>\<open>waiting.go\<close> in \<^verbatim>\<open>internal/executors\<close>, and what they do
  with the configurations validation accepts. The configuration an executor gets is the rendered one,
  which for a configuration without template references is the authored one.
\<close>

record exec_input =
  in_RunID :: string
  in_NodeID :: string
  in_Config :: jmap
  in_Context :: jmap

datatype exec_failure =
    FailWaiting waiting_error | FailFork fork_error | FailTrigger trigger_error | FailSchedule schedule_error
  | FailExpression expr_error | ConditionNotString | FormSchemaRequired | FormNotObject | FormInitial "input_error list"

datatype exec_output = Finished jmap | Paused waiting_result

definition lift_error :: "('e \<Rightarrow> exec_failure) \<Rightarrow> 'e + 'a \<Rightarrow> exec_failure + 'a" where
  "lift_error f r = (case r of Inl e \<Rightarrow> Err (f e) | Inr a \<Rightarrow> Ok a)"

lemma lift_error_simps [simp]: "lift_error f (Inl e) = Err (f e)" "lift_error f (Inr a) = Ok a"
  by (simp_all add: lift_error_def)

lemma is_ok_lift_error [simp]: "is_ok (lift_error f r) \<longleftrightarrow> is_ok r"
  by (cases r) simp_all

definition executeNoop :: "exec_input \<Rightarrow> exec_failure + exec_output" where
  "executeNoop inp = Ok (Finished [])"

definition executeCondition :: "exec_input \<Rightarrow> exec_failure + exec_output" where
  "executeCondition inp = (case get_str (in_Config inp) ''expression'' of
     None \<Rightarrow> Err ConditionNotString
   | Some e \<Rightarrow> bindE (lift_error FailExpression (EvaluateExpression e
       \<lparr>sc_Context = Val (JObj (in_Context inp)), sc_Inputs = Val (JObj (in_Config inp))\<rparr>)) (\<lambda>b.
       Ok (Finished [(''result'', JBool b)])))"

definition executeParallelFork :: "exec_input \<Rightarrow> exec_failure + exec_output" where
  "executeParallelFork inp = bindE (lift_error FailFork (ResolveParallelForkBranches (in_Config inp))) (\<lambda>branches.
     Ok (Finished [(''branches'', JArr (map JObj branches))]))"

definition executeJoin :: "exec_input \<Rightarrow> exec_failure + exec_output" where
  "executeJoin inp = bindE (lift_error FailFork (ResolveJoinSources (in_Config inp))) (\<lambda>sources.
     Ok (Finished [(''branches'', JObj (map (\<lambda>(label, predecessorID). (label,
       case map_of (in_Context inp) predecessorID of
         Some (JObj entry) \<Rightarrow> (case map_of entry ''output'' of Some v \<Rightarrow> v | None \<Rightarrow> JNull)
       | _ \<Rightarrow> JNull)) sources))]))"

definition readTriggerEvent :: "jmap \<Rightarrow> jmap" where
  "readTriggerEvent runContext = (case map_of runContext ''input'' of
     Some (JObj input) \<Rightarrow> (case map_of input ''event'' of Some (JObj event) \<Rightarrow> event | _ \<Rightarrow> [])
   | _ \<Rightarrow> [])"

definition triggerOutput :: "string \<Rightarrow> jmap \<Rightarrow> int \<Rightarrow> jmap" where
  "triggerOutput nodeType runContext now = [(''triggeredBy'', JStr nodeType), (''triggeredAt'', JStr (FormatWaitingInstant now)),
     (''event'', JObj (readTriggerEvent runContext))]"

definition executeTrigger :: "platform \<Rightarrow> string \<Rightarrow> exec_input \<Rightarrow> int \<Rightarrow> exec_failure + exec_output" where
  "executeTrigger pf nodeType inp now = (case ValidateTriggerConfig pf nodeType (in_Config inp) of
     Some e \<Rightarrow> Err (FailTrigger e)
   | None \<Rightarrow> Ok (Finished (triggerOutput nodeType (in_Context inp) now)))"

definition executeSchedule :: "exec_input \<Rightarrow> int \<Rightarrow> (exec_failure + exec_output) option" where
  "executeSchedule inp now = map_option (\<lambda>r. bindE (lift_error FailSchedule r) (\<lambda>config.
     Ok (Finished [(''triggeredAt'', JStr (FormatWaitingInstant now)), (''cronExpression'', JStr (sg_CronExpression config))])))
     (ResolveScheduleConfig (in_Config inp) now)"

definition executeWebhook :: "exec_input \<Rightarrow> exec_failure + exec_output" where
  "executeWebhook inp = Ok (Paused \<lparr>wr_Reason = ''Waiting for external webhook resume'',
     wr_Metadata = [(''kind'', JStr ''webhook''), (''resumeToken'', JStr (in_RunID inp @ '':'' @ in_NodeID inp))],
     wr_WakeAt = None\<rparr>)"

definition required_names :: "jmap \<Rightarrow> string list" where
  "required_names schema = (case map_of schema ''required'' of
     Some (JArr xs) \<Rightarrow> List.map_filter as_str xs | _ \<Rightarrow> [])"

definition form_field :: "jmap \<Rightarrow> jmap \<Rightarrow> string \<Rightarrow> json" where
  "form_field schema props name =
     (let ty = str_or_empty (object_or_empty props name) ''type'' in
      JObj [(''name'', JStr name), (''type'', JStr (if ty = [] then ''string'' else ty)),
        (''required'', JBool (name \<in> set (required_names schema)))])"

definition form_title :: "jmap \<Rightarrow> string" where
  "form_title config = (let t = trimmedString (map_of config ''title'') in if t = [] then ''Human input required'' else t)"

definition form_metadata :: "jmap \<Rightarrow> jmap \<Rightarrow> jmap \<Rightarrow> jmap" where
  "form_metadata config schema props =
     [(''kind'', JStr ''human_form''), (''title'', JStr (form_title config)), (''schema'', JObj schema),
      (''fields'', JArr (map (form_field schema props) (sorted_keys props)))] @
     (let d = trimmedString (map_of config ''description'') in if d = [] then [] else [(''description'', JStr d)])"

definition executeHumanForm :: "validation_platform \<Rightarrow> exec_input \<Rightarrow> exec_failure + exec_output" where
  "executeHumanForm pf inp =
     (let config = in_Config inp;
          raw = (case map_of config ''schema'' of Some (JObj m) \<Rightarrow> Some m | _ \<Rightarrow> None);
          schema = (case raw of Some m \<Rightarrow> m | None \<Rightarrow> []);
          props = object_or_empty schema ''properties'' in
      case ParseInputSchemaValue pf (map_option JObj raw) of
        None \<Rightarrow> Err FormSchemaRequired
      | Some inputSchema \<Rightarrow>
          if props = [] then Err FormSchemaRequired
          else if (case get_str schema ''type'' of Some t \<Rightarrow> t \<noteq> ''object'' | None \<Rightarrow> False) then Err FormNotObject
          else let paused = (\<lambda>extra. Paused \<lparr>wr_Reason = ''Waiting for form submission'',
                 wr_Metadata = form_metadata config schema props @ extra, wr_WakeAt = None\<rparr>) in
            case map_of config ''initialValues'' of
              None \<Rightarrow> Ok (paused [])
            | Some v \<Rightarrow> (let errs = ValidateInputValue inputSchema v ''$'' in
                if errs \<noteq> [] then Err (FormInitial errs) else Ok (paused [(''initialValues'', v)])))"
section \<open>Accepted nodes execute\<close>

definition form_executes :: "jmap \<Rightarrow> bool" where
  "form_executes config \<longleftrightarrow> (\<exists>schema. map_of config ''schema'' = Some (JObj schema) \<and>
     object_or_empty schema ''properties'' \<noteq> [] \<and> get_str schema ''type'' \<in> {None, Some ''object''})"

definition trigger_types :: "string list" where
  "trigger_types = [''webhook_received'', ''email_received'', ''file_dropped'', ''mcp_server_event'', ''pagerduty_incident'']"

definition condition_executes :: "exec_input \<Rightarrow> bool" where
  "condition_executes inp \<longleftrightarrow> (case executeCondition inp of
     Inr (Finished out) \<Rightarrow> out = [(''result'', JBool True)] \<or> out = [(''result'', JBool False)]
   | Inr (Paused _) \<Rightarrow> False
   | Inl e \<Rightarrow> e = FailExpression GlobPatternTooLong \<or> e = FailExpression GlobValueTooLong)"

definition executes_as_saved :: "validation_platform \<Rightarrow> string \<Rightarrow> exec_input \<Rightarrow> int \<Rightarrow> bool" where
  "executes_as_saved pf ty inp now \<longleftrightarrow>
     (if ty = ''noop'' then is_ok (executeNoop inp)
      else if ty = ''webhook'' then is_ok (executeWebhook inp)
      else if ty = ''wait_until'' then is_ok (executeWaitUntil (in_Config inp) now)
      else if ty = ''parallel_fork'' then is_ok (executeParallelFork inp)
      else if ty = ''join'' then is_ok (executeJoin inp)
      else if ty \<in> set trigger_types then is_ok (executeTrigger (platform.truncate pf) ty inp now)
      else if ty = ''condition'' then
        (if get_str (in_Config inp) ''expression'' = None then executeCondition inp = Err ConditionNotString
         else condition_executes inp)
      else if ty = ''human_form'' then is_ok (executeHumanForm pf inp) = form_executes (in_Config inp)
      else True)"

lemma accepted_wait_until: "validateWaitUntilNode n = [] \<Longrightarrow> is_ok (executeWaitUntil (n_Config n) now)"
  by (auto simp: validateWaitUntilNode_def executeWaitUntil_def resolveWaitUntilSchedule_def ValidateWaitUntilConfig_def
      str_or_empty_def get_str_def Let_def split: option.splits json.splits if_splits)

lemma accepted_fork: "validateParallelForkNode n = [] \<Longrightarrow> in_Config inp = n_Config n \<Longrightarrow> is_ok (executeParallelFork inp)"
  by (cases "ResolveParallelForkBranches (n_Config n)") (simp_all add: validateParallelForkNode_def executeParallelFork_def)

lemma accepted_join: "validateJoinNode n = [] \<Longrightarrow> in_Config inp = n_Config n \<Longrightarrow> is_ok (executeJoin inp)"
  by (cases "ResolveJoinSources (n_Config n)") (simp_all add: validateJoinNode_def executeJoin_def)

lemma accepted_trigger:
  "validateTriggerNode pf n = [] \<Longrightarrow> in_Config inp = n_Config n \<Longrightarrow>
     is_ok (executeTrigger (platform.truncate pf) (n_Type n) inp now)"
  by (cases "ValidateTriggerConfig (platform.truncate pf) (n_Type n) (n_Config n)")
    (simp_all add: validateTriggerNode_def executeTrigger_def)

lemma accepted_condition:
  assumes "validateConditionNode pf ctx n = []" "in_Config inp = n_Config n" "nc_validExpression ctx = (\<lambda>e. fst (DomainValidator e))"
    and "get_str (n_Config n) ''expression'' = Some e"
  shows "condition_executes inp"
proof -
  have "vr_Valid (ValidateExpression e)" using assms
    by (auto simp: validateConditionNode_def jsString_def DomainValidator_def Let_def split: if_splits)
  note runs = validated_runs [OF this, of "\<lparr>sc_Context = Val (JObj (in_Context inp)), sc_Inputs = Val (JObj (in_Config inp))\<rparr>"]
  show ?thesis
  proof (cases "EvaluateExpression e \<lparr>sc_Context = Val (JObj (in_Context inp)), sc_Inputs = Val (JObj (in_Config inp))\<rparr>")
    case (Inl m)
    with runs assms(2,4) show ?thesis
      by (auto simp: condition_executes_def executeCondition_def size_errors_only_def get_str_def)
  next
    case (Inr b)
    with assms(2,4) show ?thesis by (cases b) (auto simp: condition_executes_def executeCondition_def get_str_def)
  qed
qed

lemma accepted_form:
  assumes "validateHumanFormNode pf n = []" "in_Config inp = n_Config n"
  shows "is_ok (executeHumanForm pf inp) = form_executes (n_Config n)"
proof (cases "\<exists>m. map_of (n_Config n) ''schema'' = Some (JObj m)")
  case True
  then obtain m where m: "map_of (n_Config n) ''schema'' = Some (JObj m)" ..
  with assms(1) obtain s where "ParseInputSchemaValue pf (Some (JObj m)) = Some s"
    "\<And>v. map_of (n_Config n) ''initialValues'' = Some v \<Longrightarrow> ValidateInputValue s v ''$'' = []"
    by (auto simp: validateHumanFormNode_def split: option.splits if_splits)
  with m assms(2) show ?thesis
    by (auto simp: executeHumanForm_def form_executes_def Let_def split: option.splits)
next
  case False
  then have "\<not> form_executes (n_Config n)" by (auto simp: form_executes_def)
  moreover have "\<not> is_ok (executeHumanForm pf inp)"
    using False assms(2) by (auto simp: executeHumanForm_def object_or_empty_def Let_def split: option.splits json.splits)
  ultimately show ?thesis by simp
qed

text \<open>
  C31: what validation accepts, the executors accept. In an accepted document a node whose executor only
  reads its configuration runs without a configuration error on that configuration: no-ops, webhooks,
  timers, forks, joins and triggers always, and a condition up to the length bounds of globs. Two kinds
  escape: a condition whose expression is not a string is accepted and then always refused, and a form
  runs exactly when its schema is an object with properties, which acceptance does not ask of other
  schemas.
\<close>

theorem accepted_nodes_execute:
  assumes "vl_Valid (ValidateWithOptions pf w (Some (\<lambda>e. fst (DomainValidator e))) replay options)"
    and "n \<in> set (wf_Nodes w)" "in_Config inp = n_Config n"
  shows "executes_as_saved pf (n_Type n) inp now"
proof -
  define ctx where "ctx = \<lparr>nc_wf = w, nc_options = options, nc_validExpression = (\<lambda>e. fst (DomainValidator e))\<rparr>"
  have v: "nodeValidators pf ctx n = []"
    using document_issues_Nil(4) [OF assms(1) [unfolded accepted_issues] assms(2)] node_checks_Nil(3) by (simp add: ctx_def)
  note simps = executes_as_saved_def nodeValidators_def Let_def trigger_types_def assms(3)
  consider "n_Type n = ''wait_until''" | "n_Type n = ''parallel_fork''" | "n_Type n = ''join''" | "n_Type n \<in> set trigger_types"
    | "n_Type n = ''condition''" | "n_Type n = ''human_form''"
    | "n_Type n \<notin> set trigger_types \<union> {''wait_until'', ''parallel_fork'', ''join'', ''condition'', ''human_form''}" by blast
  then show ?thesis
  proof cases
    case 1
    with v show ?thesis by (simp add: simps accepted_wait_until)
  next
    case 2
    with v show ?thesis by (simp add: simps accepted_fork [OF _ assms(3)])
  next
    case 3
    with v show ?thesis by (simp add: simps accepted_join [OF _ assms(3)])
  next
    case 4
    then have "executes_as_saved pf (n_Type n) inp now = is_ok (executeTrigger (platform.truncate pf) (n_Type n) inp now)"
      "nodeValidators pf ctx n = validateTriggerNode pf n"
      by (auto simp: trigger_types_def executes_as_saved_def nodeValidators_def Let_def)
    with v accepted_trigger [OF _ assms(3)] show ?thesis by simp
  next
    case 5
    with v accepted_condition [of pf ctx n inp, OF _ assms(3)] show ?thesis
      by (auto simp: simps ctx_def executeCondition_def)
  next
    case 6
    with v show ?thesis by (simp add: simps accepted_form [OF _ assms(3)])
  next
    case 7
    then show ?thesis by (simp add: executes_as_saved_def executeNoop_def executeWebhook_def)
  qed
qed

definition bool_condition :: node where
  "bool_condition = \<lparr>n_ID = ''c'', n_Type = ''condition'', n_Label = [], n_Config = [(''expression'', JBool True)]\<rparr>"

definition bool_workflow :: workflow where
  "bool_workflow = guard_workflow\<lparr>wf_Contract := None, wf_Nodes := [bool_condition], wf_Edges := []\<rparr>"

definition bool_validation :: validation where
  "bool_validation = ValidateWithOptions plain_platform bool_workflow (Some (\<lambda>e. fst (DomainValidator e))) None strict_options"

lemma bool_accepted: "vl_Valid bool_validation"
  by code_simp

theorem accepted_nodes_execute_witness:
  "vl_Valid bool_validation \<and>
   executeCondition \<lparr>in_RunID = ''r'', in_NodeID = ''c'', in_Config = n_Config bool_condition, in_Context = []\<rparr> = Err ConditionNotString"
proof -
  let ?inp = "\<lparr>in_RunID = ''r'', in_NodeID = ''c'', in_Config = n_Config bool_condition, in_Context = []\<rparr>"
  have "bool_condition \<in> set (wf_Nodes bool_workflow)" by (simp add: bool_workflow_def)
  from accepted_nodes_execute [OF bool_accepted [unfolded bool_validation_def] this, of ?inp 0]
  have "executes_as_saved plain_platform (n_Type bool_condition) ?inp 0" by simp
  then have "executeCondition ?inp = Err ConditionNotString"
    by (simp add: executes_as_saved_def bool_condition_def trigger_types_def get_str_def)
  with bool_accepted show ?thesis by blast
qed

end
