(* ===== verification/Refinement.thy ===== *)
theory Refinement
  imports Demo
begin

text \<open>
  The life of a run as an abstract machine, and that the engine refines it. The machine knows the
  status of the run and of its nodes, and nothing else: no rows, claims, clocks, retries or dead
  letters. Every operation of the engine, with whatever updates it makes, is a finite run of this
  machine.
\<close>

section \<open>The abstract machine\<close>






section \<open>The engine's updates are moves of the machine\<close>








section \<open>Refinement\<close>







end
