(* ===== verification/Persist.thy ===== *)
theory Persist
  imports Template
begin

text \<open>
  The gate in front of every stored payload: value redaction and the redaction of sensitive keys of
  \<^verbatim>\<open>internal/grammar/redact.go\<close>, and the size bound of \<^verbatim>\<open>internal/grammar/safepersist.go\<close>. The encoder and the
  decoder of \<^verbatim>\<open>encoding/json\<close> are fields of a record of outside functions, except for the text of the
  truncation marker, which is written out here.
\<close>

section \<open>Value redaction\<close>

definition RedactedPlaceholder :: string where
  "RedactedPlaceholder = ''[redacted]''"

text \<open>\<^verbatim>\<open>strings.ReplaceAll\<close> with a pattern that is not empty: occurrences from the left, without overlap.\<close>

function ReplaceAll :: "string \<Rightarrow> string \<Rightarrow> string \<Rightarrow> string" where
  "ReplaceAll old new s = (case s of
     [] \<Rightarrow> []
   | c # r \<Rightarrow> if old \<noteq> [] \<and> prefix old s then new @ ReplaceAll old new (drop (length old) s) else c # ReplaceAll old new r)"
  by pat_completeness auto
termination
  by (relation "measure (\<lambda>(old, new, s). length s)") (auto simp: length_greater_0_conv)

declare ReplaceAll.simps [simp del]

definition RedactString :: "string \<Rightarrow> string list \<Rightarrow> string" where
  "RedactString s redactedValues =
     foldl (\<lambda>t secret. if secret = [] then t else ReplaceAll secret RedactedPlaceholder t) s redactedValues"

text \<open>
  The copy-on-write walk: the second component says whether something underneath was replaced, and
  only then a container is rebuilt.
\<close>

fun redactValuesCOW :: "string list \<Rightarrow> json \<Rightarrow> json \<times> bool" where
  "redactValuesCOW secrets (JStr s) = (let replaced = RedactString s secrets in (JStr replaced, replaced \<noteq> s))"
| "redactValuesCOW secrets (JArr xs) = (let rs = map (redactValuesCOW secrets) xs in
     if list_ex snd rs then (JArr (map2 (\<lambda>x (y, changed). if changed then y else x) xs rs), True) else (JArr xs, False))"
| "redactValuesCOW secrets (JObj m) = (let rs = map (\<lambda>(k, v). redactValuesCOW secrets v) m in
     if list_ex snd rs then (JObj (map2 (\<lambda>(k, v) (y, changed). (k, if changed then y else v)) m rs), True) else (JObj m, False))"
| "redactValuesCOW secrets v = (v, False)"

definition RedactValues :: "json \<Rightarrow> string list \<Rightarrow> json" where
  "RedactValues v redactedValues = (if redactedValues = [] then v else fst (redactValuesCOW redactedValues v))"

section \<open>Sensitive keys\<close>

text \<open>
  A word of the pattern at the start of a key, up to case: the Unicode folding of the pattern language
  also takes U+017F for s and U+212A for k. The result is the rest of the key.
\<close>

fun fold_match :: "string \<Rightarrow> string \<Rightarrow> string option" where
  "fold_match [] s = Some s"
| "fold_match (w # ws) s =
     (if w = CHR ''s'' \<and> prefix [CHR 0xC5, CHR 0xBF] s then fold_match ws (drop 2 s)
      else if w = CHR ''k'' \<and> prefix [CHR 0xE2, CHR 0x84, CHR 0xAA] s then fold_match ws (drop 3 s)
      else case s of [] \<Rightarrow> None | c # r \<Rightarrow> if lower_byte c = w then fold_match ws r else None)"

definition word_tail :: "string \<Rightarrow> bool" where
  "word_tail s = (case s of
     [] \<Rightarrow> True
   | c # r \<Rightarrow> (c = CHR ''_'' \<or> c = CHR ''-'' \<or> 65 \<le> (of_char c :: nat) \<and> (of_char c :: nat) \<le> 90) \<and> CHR 0x0A \<notin> set r)"

definition optional_separator :: "string \<Rightarrow> string \<Rightarrow> string list" where
  "optional_separator a b = [a @ b, a @ ''_'' @ b, a @ ''-'' @ b]"

definition sensitive_words :: "string list" where
  "sensitive_words = optional_separator ''api'' ''key'' @ [''authorization'', ''cookie'', ''x-api-key''] @
     optional_separator ''client'' ''secret'' @ optional_separator ''private'' ''key'' @
     concat (map (\<lambda>a. optional_separator a ''token'') [''api'', ''access'', ''refresh'', ''id'']) @
     [''x-auth-token'', ''set-cookie'', ''proxy-authorization'', ''credentials'', ''passwd''] @ optional_separator ''api'' ''secret''"

definition IsSensitiveKey :: "string \<Rightarrow> bool" where
  "IsSensitiveKey key \<longleftrightarrow>
     list_ex (\<lambda>w. case fold_match w key of Some r \<Rightarrow> word_tail r | None \<Rightarrow> False) [''secret'', ''password'', ''token''] \<or>
     list_ex (\<lambda>w. fold_match w key = Some []) sensitive_words"

fun redactKeysCOW :: "json \<Rightarrow> json \<times> bool" where
  "redactKeysCOW (JArr xs) = (let rs = map redactKeysCOW xs in
     if list_ex snd rs then (JArr (map2 (\<lambda>x (y, changed). if changed then y else x) xs rs), True) else (JArr xs, False))"
| "redactKeysCOW (JObj m) =
     (let rs = map (\<lambda>(k, v). if IsSensitiveKey k then (JStr RedactedPlaceholder, True) else redactKeysCOW v) m in
      if list_ex snd rs then (JObj (map2 (\<lambda>(k, v) (y, changed). (k, if changed then y else v)) m rs), True) else (JObj m, False))"
| "redactKeysCOW v = (v, False)"

definition RedactSensitiveKeys :: "json \<Rightarrow> json" where
  "RedactSensitiveKeys v = fst (redactKeysCOW v)"

section \<open>The size bound\<close>

definition DefaultPersistMaxBytes :: int where "DefaultPersistMaxBytes = 256000"
definition persistPreviewDivisor :: nat where "persistPreviewDivisor = 2"

text \<open>\<^verbatim>\<open>slicePersistUTF8\<close>: the cut moves left while it would fall inside a rune.\<close>

definition RuneStart :: "char \<Rightarrow> bool" where
  "RuneStart c \<longleftrightarrow> \<not> (128 \<le> (of_char c :: nat) \<and> (of_char c :: nat) < 192)"

fun cut_back :: "string \<Rightarrow> nat \<Rightarrow> nat" where
  "cut_back s 0 = 0"
| "cut_back s (Suc n) = (if RuneStart (s ! Suc n) then Suc n else cut_back s n)"

definition slicePersistUTF8 :: "string \<Rightarrow> nat \<Rightarrow> string" where
  "slicePersistUTF8 s limit = (if length s \<le> limit then s else take (cut_back s limit) s)"

text \<open>
  The string encoder of \<^verbatim>\<open>encoding/json\<close>: quotes, backslashes, control characters and the characters of
  HTML are escaped, as are the line separators U+2028 and U+2029, and a byte that starts no rune
  becomes the escape of U+FFFD.
\<close>

definition hex_digit :: "nat \<Rightarrow> char" where
  "hex_digit n = ''0123456789abcdef'' ! n"

definition escape_byte :: "nat \<Rightarrow> string" where
  "escape_byte n =
     (if n = 34 then [CHR 0x5C, CHR 0x22] else if n = 92 then [CHR 0x5C, CHR 0x5C]
      else if n = 8 then [CHR 0x5C, CHR ''b''] else if n = 12 then [CHR 0x5C, CHR ''f'']
      else if n = 10 then [CHR 0x5C, CHR ''n''] else if n = 13 then [CHR 0x5C, CHR ''r''] else if n = 9 then [CHR 0x5C, CHR ''t'']
      else if n < 32 \<or> n = 60 \<or> n = 62 \<or> n = 38 then [CHR 0x5C, CHR ''u'', CHR ''0'', CHR ''0'', hex_digit (n div 16), hex_digit (n mod 16)]
      else [char_of n])"

text \<open>The length of the rune at the start of a byte string, or 0 when there is none.\<close>

definition rune_length :: "nat list \<Rightarrow> nat" where
  "rune_length s = (case s of
     a # b # r \<Rightarrow>
       if 194 \<le> a \<and> a < 224 \<and> cont b then 2
       else (case r of
           c # r' \<Rightarrow>
             if 224 \<le> a \<and> a < 240 \<and> cont b \<and> cont c \<and> (a = 224 \<longrightarrow> 160 \<le> b) \<and> (a = 237 \<longrightarrow> b < 160) then 3
             else (case r' of
                 d # _ \<Rightarrow> if 240 \<le> a \<and> a < 245 \<and> cont b \<and> cont c \<and> cont d \<and> (a = 240 \<longrightarrow> 144 \<le> b) \<and> (a = 244 \<longrightarrow> b < 144) then 4 else 0
               | [] \<Rightarrow> 0)
         | [] \<Rightarrow> 0)
   | _ \<Rightarrow> 0)"

function quote_bytes :: "nat list \<Rightarrow> string" where
  "quote_bytes s = (case s of
     [] \<Rightarrow> []
   | a # r \<Rightarrow>
       if a < 128 then escape_byte a @ quote_bytes r
       else if rune_length s = 0 then [CHR 0x5C] @ ''ufffd'' @ quote_bytes r
       else if take 3 s = [226, 128, 168] then [CHR 0x5C] @ ''u2028'' @ quote_bytes (drop 3 s)
       else if take 3 s = [226, 128, 169] then [CHR 0x5C] @ ''u2029'' @ quote_bytes (drop 3 s)
       else map char_of (take (rune_length s) s) @ quote_bytes (drop (rune_length s) s))"
  by pat_completeness auto
termination
  by (relation "measure length") auto

declare quote_bytes.simps [simp del]

definition json_string :: "string \<Rightarrow> string" where
  "json_string s = [CHR 0x22] @ quote_bytes (map of_char s) @ [CHR 0x22]"

text \<open>The marker with its keys in byte order, as the encoder writes a map.\<close>

definition sentinel :: "string \<Rightarrow> nat \<Rightarrow> nat \<Rightarrow> string" where
  "sentinel raw maxBytes previewBytes =
     ''{'' @ json_string ''__truncated'' @ '':true,'' @ json_string ''maxBytes'' @ '':'' @ itoa maxBytes @ '','' @
     json_string ''originalBytes'' @ '':'' @ itoa (length raw) @ '','' @
     json_string ''preview'' @ '':'' @ json_string (slicePersistUTF8 raw previewBytes) @ ''}''"

function preview_search :: "string \<Rightarrow> nat \<Rightarrow> int \<Rightarrow> int \<Rightarrow> string \<Rightarrow> string" where
  "preview_search raw maxBytes low high best =
     (if low \<le> high then
        let mid = low + (high - low) div 2; candidate = sentinel raw maxBytes (nat mid) in
        if length candidate > 0 \<and> length candidate \<le> maxBytes then preview_search raw maxBytes (mid + 1) high candidate
        else preview_search raw maxBytes low (mid - 1) best
      else best)"
  by pat_completeness auto
termination
  by (relation "measure (\<lambda>(raw, maxBytes, low, high, best). nat (high - low + 1))") auto

declare preview_search.simps [simp del]

definition minimal_marker :: string where
  "minimal_marker = ''{'' @ json_string ''__truncated'' @ '':true}''"

definition BoundPersistPayload :: "string \<Rightarrow> nat \<Rightarrow> string" where
  "BoundPersistPayload raw maxBytes =
     (if length raw \<le> maxBytes then raw
      else let best = sentinel raw maxBytes 0 in
        if length best = 0 \<or> length best > maxBytes then
          if length minimal_marker \<le> maxBytes then minimal_marker else ''{}''
        else preview_search raw maxBytes 0 (int (min (length raw) (maxBytes div persistPreviewDivisor))) best)"

section \<open>The gate\<close>

record persist_library =
  pl_Marshal :: "json \<Rightarrow> string option"
  pl_Unmarshal :: "string \<Rightarrow> json option"

definition normalizeFastPathMaxDepth :: nat where "normalizeFastPathMaxDepth = 64"

fun isTransparentJSONTree :: "json \<Rightarrow> nat \<Rightarrow> bool" where
  "isTransparentJSONTree (JNum x) depth = (depth \<le> normalizeFastPathMaxDepth \<and> (case x of Fin _ \<Rightarrow> True | _ \<Rightarrow> False))"
| "isTransparentJSONTree (JArr xs) depth = (depth \<le> normalizeFastPathMaxDepth \<and> list_all (\<lambda>x. isTransparentJSONTree x (depth + 1)) xs)"
| "isTransparentJSONTree (JObj m) depth = (depth \<le> normalizeFastPathMaxDepth \<and> list_all (\<lambda>(k, v). isTransparentJSONTree v (depth + 1)) m)"
| "isTransparentJSONTree _ depth = (depth \<le> normalizeFastPathMaxDepth)"

definition NormalizeJSON :: "persist_library \<Rightarrow> json \<Rightarrow> json" where
  "NormalizeJSON lib v =
     (if isTransparentJSONTree v 0 then v
      else case pl_Marshal lib v of
        None \<Rightarrow> JObj []
      | Some raw \<Rightarrow> (case pl_Unmarshal lib raw of None \<Rightarrow> JObj [] | Some out \<Rightarrow> out))"

record persist_options =
  po_RedactedValues :: "string list"
  po_MaxBytes :: int

definition SafePersistPayload :: "persist_library \<Rightarrow> json \<Rightarrow> persist_options \<Rightarrow> string" where
  "SafePersistPayload lib v opts =
     (let working = NormalizeJSON lib v;
          working' = (if po_RedactedValues opts \<noteq> [] then RedactValues working (po_RedactedValues opts) else working) in
      case pl_Marshal lib (RedactSensitiveKeys working') of
        None \<Rightarrow> ''{}''
      | Some raw \<Rightarrow> (let cap = (if po_MaxBytes opts = 0 then DefaultPersistMaxBytes else po_MaxBytes opts) in
          if cap < 0 then raw else BoundPersistPayload raw (nat cap)))"

text \<open>The process-wide policy; a cap of 0 is the default.\<close>

definition NewPersister :: "int \<Rightarrow> int option" where
  "NewPersister maxBytes = (if maxBytes < 2 then None else Some maxBytes)"

definition MaxBytes :: "int \<Rightarrow> int" where
  "MaxBytes p = (if p = 0 then DefaultPersistMaxBytes else p)"

definition Payload :: "persist_library \<Rightarrow> int \<Rightarrow> json \<Rightarrow> persist_options \<Rightarrow> string" where
  "Payload lib p v opts =
     SafePersistPayload lib v (if po_MaxBytes opts = 0 then opts\<lparr>po_MaxBytes := MaxBytes p\<rparr> else opts)"

section \<open>The copy-on-write walks are plain maps\<close>

fun redact_leaves :: "(string \<Rightarrow> string) \<Rightarrow> json \<Rightarrow> json" where
  "redact_leaves f (JStr s) = JStr (f s)"
| "redact_leaves f (JArr xs) = JArr (map (redact_leaves f) xs)"
| "redact_leaves f (JObj m) = JObj (map (\<lambda>(k, v). (k, redact_leaves f v)) m)"
| "redact_leaves f v = v"

lemma map2_cow:
  assumes "\<And>x. x \<in> set xs \<Longrightarrow> fst (g x) = h x" "\<And>x. x \<in> set xs \<Longrightarrow> \<not> snd (g x) \<Longrightarrow> h x = x"
  shows "map2 (\<lambda>x (y, changed). if changed then y else x) xs (map g xs) = map h xs"
    and "\<not> list_ex snd (map g xs) \<Longrightarrow> map h xs = xs"
  using assms by (induction xs) (auto simp: split_def)

lemma map2_cow_entries:
  assumes "\<And>k v. (k, v) \<in> set m \<Longrightarrow> fst (g (k, v)) = h k v" "\<And>k v. (k, v) \<in> set m \<Longrightarrow> \<not> snd (g (k, v)) \<Longrightarrow> h k v = v"
  shows "map2 (\<lambda>(k, v) (y, changed). (k, if changed then y else v)) m (map g m) = map (\<lambda>(k, v). (k, h k v)) m"
    and "\<not> list_ex snd (map g m) \<Longrightarrow> map (\<lambda>(k, v). (k, h k v)) m = m"
  using assms by (induction m) (auto simp: split_def)

lemma redactValuesCOW_eq:
  "fst (redactValuesCOW secrets v) = redact_leaves (\<lambda>s. RedactString s secrets) v \<and>
   (\<not> snd (redactValuesCOW secrets v) \<longrightarrow> redact_leaves (\<lambda>s. RedactString s secrets) v = v)"
proof (induction secrets v rule: redactValuesCOW.induct)
  case (2 secrets xs)
  then have "\<And>x. x \<in> set xs \<Longrightarrow> fst (redactValuesCOW secrets x) = redact_leaves (\<lambda>s. RedactString s secrets) x"
    "\<And>x. x \<in> set xs \<Longrightarrow> \<not> snd (redactValuesCOW secrets x) \<Longrightarrow> redact_leaves (\<lambda>s. RedactString s secrets) x = x" by auto
  from map2_cow [OF this] show ?case by (simp add: Let_def)
next
  case (3 secrets m)
  let ?g = "\<lambda>(k, v). redactValuesCOW secrets v" and ?h = "\<lambda>k. redact_leaves (\<lambda>s. RedactString s secrets)"
  have "\<And>k v. (k, v) \<in> set m \<Longrightarrow> fst (?g (k, v)) = ?h k v" "\<And>k v. (k, v) \<in> set m \<Longrightarrow> \<not> snd (?g (k, v)) \<Longrightarrow> ?h k v = v"
    using 3 by auto
  from map2_cow_entries [OF this] show ?case by (simp add: Let_def)
qed (auto simp: Let_def)

lemma RedactString_none [simp]: "RedactString s [] = s"
  by (simp add: RedactString_def)

lemma redact_leaves_id: "redact_leaves (\<lambda>s. s) v = v"
  by (induction "\<lambda>s :: string. s" v rule: redact_leaves.induct) (auto intro!: map_idI)

lemma RedactValues_eq: "RedactValues v secrets = redact_leaves (\<lambda>s. RedactString s secrets) v"
  by (simp add: RedactValues_def redactValuesCOW_eq redact_leaves_id)

section \<open>No tracked secret survives\<close>

definition redactable :: "string \<Rightarrow> bool" where
  "redactable s \<longleftrightarrow> s \<noteq> [] \<and> CHR ''['' \<notin> set s \<and> CHR '']'' \<notin> set s \<and> \<not> sublist s ''redacted''"

lemma sublist_around: "c \<notin> set x \<Longrightarrow> sublist x (a @ c # b) \<Longrightarrow> sublist x a \<or> sublist x b"
  by (auto simp: sublist_append sublist_Cons_right prefix_Cons)

lemma sublist_placeholder:
  "redactable x \<Longrightarrow> sublist x (a @ RedactedPlaceholder @ b) \<Longrightarrow> sublist x a \<or> sublist x b"
proof -
  assume x: "redactable x" and "sublist x (a @ RedactedPlaceholder @ b)"
  then have "sublist x (a @ CHR ''['' # (''redacted'' @ CHR '']'' # b))" by (simp add: RedactedPlaceholder_def)
  then have "sublist x a \<or> sublist x (''redacted'' @ CHR '']'' # b)" using x by (intro sublist_around) (simp_all add: redactable_def)
  moreover have "sublist x (''redacted'' @ CHR '']'' # b) \<Longrightarrow> sublist x ''redacted'' \<or> sublist x b"
    using x by (intro sublist_around) (simp_all add: redactable_def)
  ultimately show ?thesis using x by (auto simp: redactable_def)
qed

lemma ReplaceAll_Nil [simp]: "ReplaceAll old new [] = []"
  by (subst ReplaceAll.simps) simp

lemma ReplaceAll_hit:
  "old \<noteq> [] \<Longrightarrow> prefix old s \<Longrightarrow> ReplaceAll old new s = new @ ReplaceAll old new (drop (length old) s)"
  by (subst ReplaceAll.simps) (cases s, auto)

lemma ReplaceAll_miss: "\<not> prefix old (c # r) \<Longrightarrow> ReplaceAll old new (c # r) = c # ReplaceAll old new r"
  by (subst ReplaceAll.simps) simp

text \<open>Replacing one secret creates no occurrence of another.\<close>

lemma ReplaceAll_keeps_absent:
  "redactable x \<Longrightarrow> sublist x (pre @ ReplaceAll old RedactedPlaceholder s) \<Longrightarrow> sublist x (pre @ s)"
proof (induction old RedactedPlaceholder s arbitrary: pre rule: ReplaceAll.induct)
  case (1 old s)
  show ?case
  proof (cases s)
    case Nil
    with 1 show ?thesis by simp
  next
    case (Cons c r)
    show ?thesis
    proof (cases "old \<noteq> [] \<and> prefix old s")
      case True
      with 1(4) have "sublist x (pre @ RedactedPlaceholder @ ReplaceAll old RedactedPlaceholder (drop (length old) s))"
        by (simp add: ReplaceAll_hit)
      then have "sublist x pre \<or> sublist x ([] @ ReplaceAll old RedactedPlaceholder (drop (length old) s))"
        using sublist_placeholder [OF 1(3)] by simp
      then have "sublist x pre \<or> sublist x (drop (length old) s)" using 1(1) [OF Cons True 1(3), of "[]"] by auto
      then show ?thesis
        by (meson sublist_order.order_trans sublist_append_leftI sublist_append_rightI sublist_drop)
    next
      case False
      with 1(4) Cons have "sublist x ((pre @ [c]) @ ReplaceAll old RedactedPlaceholder r)"
        by (cases "old = []") (simp_all add: ReplaceAll_miss, simp add: ReplaceAll.simps)
      from 1(2) [OF Cons False 1(3) this] Cons show ?thesis by simp
    qed
  qed
qed

lemma ReplaceAll_removes:
  assumes "redactable old" "\<And>i. i < length pre \<Longrightarrow> \<not> prefix old (drop i (pre @ s))"
  shows "\<not> sublist old (pre @ ReplaceAll old RedactedPlaceholder s)"
  using assms
proof (induction "length s" arbitrary: pre s rule: less_induct)
  case less
  have old: "old \<noteq> []" using less(2) by (simp add: redactable_def)
  have pre: "\<not> sublist old pre"
  proof
    assume "sublist old pre"
    then obtain a b where "pre = a @ old @ b" by (auto simp: sublist_def)
    with less(3) [of "length a"] old show False by simp
  qed
  show ?case
  proof (cases s)
    case Nil
    with pre show ?thesis by simp
  next
    case (Cons c r)
    show ?thesis
    proof (cases "prefix old s")
      case True
      have "length (drop (length old) s) < length s" using old Cons by simp
      from less(1) [OF this less(2), of "[]"] pre show ?thesis
        using sublist_placeholder [OF less(2), of pre] by (auto simp: ReplaceAll_hit [OF old True])
    next
      case False
      have "\<not> prefix old (drop i ((pre @ [c]) @ r))" if "i < length (pre @ [c])" for i
        using less(3) [of i] False Cons that by (cases "i = length pre") auto
      from less(1) [OF _ less(2) this] False Cons show ?thesis by (simp add: ReplaceAll_miss)
    qed
  qed
qed

lemma RedactString_absent:
  "redactable x \<Longrightarrow> \<not> sublist x s \<Longrightarrow> \<not> sublist x (RedactString s secrets)"
proof (induction secrets arbitrary: s)
  case (Cons y ys)
  have "\<not> sublist x (if y = [] then s else ReplaceAll y RedactedPlaceholder s)"
    using Cons ReplaceAll_keeps_absent [of x "[]" y s] by auto
  with Cons show ?case by (simp add: RedactString_def)
qed simp

lemma RedactString_clean:
  "list_all redactable secrets \<Longrightarrow> x \<in> set secrets \<Longrightarrow> \<not> sublist x (RedactString s secrets)"
proof (induction secrets arbitrary: s)
  case (Cons y ys)
  show ?case
  proof (cases "x = y")
    case True
    with Cons have "\<not> sublist x (ReplaceAll y RedactedPlaceholder s)" "y \<noteq> []"
      using ReplaceAll_removes [of y "[]" s] by (auto simp: redactable_def)
    with True Cons(2) RedactString_absent [of x _ ys] show ?thesis by (simp add: RedactString_def)
  next
    case False
    with Cons show ?thesis by (simp add: RedactString_def)
  qed
qed simp

fun leaves :: "json \<Rightarrow> string list" where
  "leaves (JStr s) = [s]"
| "leaves (JArr xs) = concat (map leaves xs)"
| "leaves (JObj m) = concat (map (\<lambda>(k, v). leaves v) m)"
| "leaves _ = []"

lemma leaves_redacted: "t \<in> set (leaves (redact_leaves f v)) \<Longrightarrow> \<exists>s. t = f s"
  by (induction f v rule: redact_leaves.induct) fastforce+

text \<open>
  C34: no tracked secret survives redaction. For secrets that contain no bracket and are no part of the
  placeholder, no string of a redacted value contains any of them, however the secrets overlap each
  other and the text around them.
\<close>

theorem redaction_complete:
  assumes "list_all redactable secrets" "x \<in> set secrets" "t \<in> set (leaves (RedactValues v secrets))"
  shows "\<not> sublist x t"
  using assms leaves_redacted RedactString_clean unfolding RedactValues_eq by blast

definition leaky :: json where
  "leaky = JObj [(''note'', JStr ''key hunter2 and xhunter2y''), (''list'', JArr [JStr ''hunter'', JNull])]"

theorem redaction_complete_witness:
  "list_all redactable [''hunter2''] \<and> ''key [redacted] and x[redacted]y'' \<in> set (leaves (RedactValues leaky [''hunter2''])) \<and>
   \<not> sublist ''hunter2'' ''key [redacted] and x[redacted]y''"
proof -
  have "list_all redactable [''hunter2'']" by code_simp
  moreover have "''key [redacted] and x[redacted]y'' \<in> set (leaves (RedactValues leaky [''hunter2'']))" by code_simp
  ultimately show ?thesis using redaction_complete [of "[''hunter2'']" "''hunter2''"] by auto
qed

text \<open>
  What redaction leaves readable: the rest of a secret that starts with another one listed before it,
  and secrets among the keys of an object.
\<close>

lemma redaction_remainder: "RedactString ''abcdef'' [''abcd'', ''abcdef''] = ''[redacted]ef''"
  by code_simp

lemma redaction_keeps_keys: "RedactValues (JObj [(''hunter2'', JNull)]) [''hunter2''] = JObj [(''hunter2'', JNull)]"
  by code_simp

section \<open>Stored payloads are bounded\<close>

lemma preview_search_bounded:
  assumes "length best \<le> maxBytes" "\<exists>k \<le> nat high0. best = sentinel raw maxBytes k" "high \<le> high0" "0 \<le> low"
  shows "length (preview_search raw maxBytes low high best) \<le> maxBytes \<and>
    (\<exists>k \<le> nat high0. preview_search raw maxBytes low high best = sentinel raw maxBytes k)"
  using assms
proof (induction raw maxBytes low high best rule: preview_search.induct)
  case (1 raw maxBytes low high best)
  define mid where "mid = low + (high - low) div 2"
  have mid: "low \<le> mid" "mid \<le> high" if "low \<le> high" using that by (simp_all add: mid_def)
  show ?case
  proof (cases "low \<le> high \<and> length (sentinel raw maxBytes (nat mid)) > 0 \<and> length (sentinel raw maxBytes (nat mid)) \<le> maxBytes")
    case True
    moreover have "\<exists>k \<le> nat high0. sentinel raw maxBytes (nat mid) = sentinel raw maxBytes k"
      using True mid 1(5) by (intro exI [of _ "nat mid"]) auto
    ultimately have "length (preview_search raw maxBytes (mid + 1) high (sentinel raw maxBytes (nat mid))) \<le> maxBytes \<and>
        (\<exists>k \<le> nat high0. preview_search raw maxBytes (mid + 1) high (sentinel raw maxBytes (nat mid)) = sentinel raw maxBytes k)"
      using 1(1) [OF _ mid_def refl] 1(5,6) mid by simp
    with True show ?thesis by (subst (1 2) preview_search.simps) (simp add: Let_def mid_def)
  next
    case False
    show ?thesis
    proof (cases "low \<le> high")
      case True
      with False have "\<not> (length (sentinel raw maxBytes (nat mid)) > 0 \<and> length (sentinel raw maxBytes (nat mid)) \<le> maxBytes)" by blast
      with 1(2) [OF True mid_def refl] 1(3-6) mid True
      have "length (preview_search raw maxBytes low (mid - 1) best) \<le> maxBytes \<and>
        (\<exists>k \<le> nat high0. preview_search raw maxBytes low (mid - 1) best = sentinel raw maxBytes k)" by simp
      with True False show ?thesis by (subst (1 2) preview_search.simps) (auto simp add: Let_def mid_def)
    next
      case nothing: False
      with 1(3,4) show ?thesis by (subst (1 2) preview_search.simps) auto
    qed
  qed
qed

lemma short_markers: "length minimal_marker = 20" "length (''{}'' :: string) = 2"
  by code_simp+

lemma BoundPersistPayload_cases:
  "BoundPersistPayload raw maxBytes = raw \<and> length raw \<le> maxBytes \<or>
   length (BoundPersistPayload raw maxBytes) \<le> max 2 maxBytes \<and> length raw > maxBytes \<and>
   (BoundPersistPayload raw maxBytes \<in> {minimal_marker, ''{}''} \<or>
    (\<exists>k \<le> maxBytes div 2. BoundPersistPayload raw maxBytes = sentinel raw maxBytes k))"
proof (cases "length raw \<le> maxBytes")
  case True
  then show ?thesis by (simp add: BoundPersistPayload_def)
next
  case False
  let ?best = "sentinel raw maxBytes 0" and ?high = "int (min (length raw) (maxBytes div 2))"
  show ?thesis
  proof (cases "length ?best = 0 \<or> length ?best > maxBytes")
    case True
    with False show ?thesis by (auto simp: BoundPersistPayload_def Let_def short_markers)
  next
    case fits: False
    then have "length (preview_search raw maxBytes 0 ?high ?best) \<le> maxBytes \<and>
      (\<exists>k \<le> nat ?high. preview_search raw maxBytes 0 ?high ?best = sentinel raw maxBytes k)"
      by (intro preview_search_bounded) auto
    with False fits show ?thesis by (auto simp: BoundPersistPayload_def Let_def persistPreviewDivisor_def)
  qed
qed

text \<open>
  C35: a stored payload never exceeds its cap. With a cap that can hold an empty object, what the gate
  returns is at most the cap long for every value, every set of secrets and every encoder; only the
  explicit unbounded mode and the default of the process change the cap.
\<close>

theorem payload_bounded:
  assumes "2 \<le> p" "po_MaxBytes opts \<ge> 0"
  shows "int (length (Payload lib p v opts)) \<le> max 2 (if po_MaxBytes opts = 0 then p else po_MaxBytes opts)"
proof -
  have bound: "int (length (BoundPersistPayload raw (nat cap))) \<le> max 2 cap" if "0 \<le> cap" for raw cap
    using BoundPersistPayload_cases [of raw "nat cap"] that by auto
  define cap where "cap = (if po_MaxBytes opts = 0 then p else po_MaxBytes opts)"
  have cap: "0 < cap" using assms by (simp add: cap_def)
  have "Payload lib p v opts = SafePersistPayload lib v (opts\<lparr>po_MaxBytes := cap\<rparr>)"
    using assms by (simp add: Payload_def MaxBytes_def cap_def)
  then show ?thesis
    unfolding cap_def [symmetric] using cap bound [of cap]
    by (auto simp: SafePersistPayload_def Let_def short_markers split: option.splits)
qed

definition echo_library :: persist_library where
  "echo_library = \<lparr>pl_Marshal = (\<lambda>v. case v of JStr s \<Rightarrow> Some (json_string s) | _ \<Rightarrow> Some (replicate 60 CHR ''x'')), pl_Unmarshal = (\<lambda>_. None)\<rparr>"

theorem payload_bounded_witness:
  "int (length (Payload echo_library 30 JNull \<lparr>po_RedactedValues = [], po_MaxBytes = 0\<rparr>)) \<le> 30 \<and>
   Payload echo_library 30 JNull \<lparr>po_RedactedValues = [], po_MaxBytes = 0\<rparr> = minimal_marker"
proof -
  have "Payload echo_library 30 JNull \<lparr>po_RedactedValues = [], po_MaxBytes = 0\<rparr> = minimal_marker" by code_simp
  with payload_bounded [of 30 "\<lparr>po_RedactedValues = [], po_MaxBytes = 0\<rparr>" echo_library JNull] show ?thesis by simp
qed

end
