(* ===== verification/RecoveryPolicy.thy ===== *)
theory RecoveryPolicy
  imports Inputs Graph "HOL-Library.Multiset"
begin

text \<open>
  What a workflow permits its recovery plane to do: the circuit-breaker threshold and the recovery
  contract of \<^verbatim>\<open>internal/domain/recoverycontract.go\<close> with their validation, the capability ladder of
  \<^verbatim>\<open>recoveryautonomy.go\<close>, and the classification of repairs and the seven gates of
  \<^verbatim>\<open>technicalautonomy.go\<close>. A problem of a contract is a path with its message; the index of a list entry
  and an offending value are kept as arguments.
\<close>

section \<open>Vocabularies\<close>

definition RecoveryAutonomyMin :: int where "RecoveryAutonomyMin = 0"
definition RecoveryAutonomyMax :: int where "RecoveryAutonomyMax = 4"

definition ValidationEvidenceLevels :: "string list" where
  "ValidationEvidenceLevels = [''static'', ''writes_skipped'', ''provider_simulated'', ''live_canary'']"

definition SupportsAutonomousRecovery :: "string \<Rightarrow> bool" where
  "SupportsAutonomousRecovery level \<longleftrightarrow> level = ''provider_simulated'' \<or> level = ''live_canary''"

definition ParseValidationEvidenceLevel :: "string \<Rightarrow> string" where
  "ParseValidationEvidenceLevel v = (if v \<in> set ValidationEvidenceLevels then v else ''static'')"

definition RecoveryEvidenceKinds :: "string list" where
  "RecoveryEvidenceKinds = [''failure_snapshot'', ''run_timeline'', ''audit_trail'', ''validation_receipt'', ''effect_receipt'', ''terminal_outcome'']"

definition RecoveryEffectKinds :: "string list" where
  "RecoveryEffectKinds = [''external_write'', ''financial_mutation'', ''notification'', ''human_action'']"

definition RecoveryEffectIdempotency :: "string list" where
  "RecoveryEffectIdempotency = [''required'', ''provider_guaranteed'', ''unavailable'']"

definition RecoveryEffectReceipts :: "string list" where
  "RecoveryEffectReceipts = [''runtime'', ''provider'', ''manual'']"

definition RecoveryRepairClasses :: "string list" where
  "RecoveryRepairClasses = [''retry'', ''config_patch'', ''structural_patch'', ''rollback'', ''credential_rotation'', ''upstream_wait'']"

definition requiredBaseEvidence :: "string list" where
  "requiredBaseEvidence = [''failure_snapshot'', ''audit_trail'', ''terminal_outcome'']"

definition RecoveryDetectorActions :: "string list" where
  "RecoveryDetectorActions = [''observe'', ''quarantine'']"

section \<open>Circuit-breaker threshold\<close>

definition RecoveryCircuitBreakerMin :: int where "RecoveryCircuitBreakerMin = 2"
definition RecoveryCircuitBreakerMax :: int where "RecoveryCircuitBreakerMax = 100"

datatype breaker_problem =
    BreakerNull
  | BreakerTrue
  | BreakerNumber
  | BreakerFieldMissing
  | BreakerFieldTrue
  | BreakerShape

text \<open>
  The result is the threshold, whether the breaker is on, or a problem. A number is in range when it is
  whole: the conversion \<^verbatim>\<open>int(value)\<close> of a float outside the range of int never equals it again within
  the bounds.
\<close>

definition validateBreakerNumber :: "f64 \<Rightarrow> breaker_problem + int \<times> bool" where
  "validateBreakerNumber x = (case x of
     Fin q \<Rightarrow> if whole q \<and> of_int RecoveryCircuitBreakerMin \<le> q \<and> q \<le> of_int RecoveryCircuitBreakerMax
              then Ok (\<lfloor>q\<rfloor>, True) else Err BreakerNumber
   | _ \<Rightarrow> Err BreakerNumber)"

definition ParseCircuitBreakerThreshold :: "json option \<Rightarrow> breaker_problem + int \<times> bool" where
  "ParseCircuitBreakerThreshold raw = (case raw of
     None \<Rightarrow> Ok (0, False)
   | Some JNull \<Rightarrow> Err BreakerNull
   | Some (JBool b) \<Rightarrow> if b then Err BreakerTrue else Ok (0, False)
   | Some (JNum x) \<Rightarrow> validateBreakerNumber x
   | Some (JObj m) \<Rightarrow>
       if map_len m = 1 then (case map_of m ''consecutiveFailures'' of
           None \<Rightarrow> Err BreakerFieldMissing
         | Some JNull \<Rightarrow> Err BreakerFieldMissing
         | Some (JBool b) \<Rightarrow> if b then Err BreakerFieldTrue else Ok (0, False)
         | Some (JNum x) \<Rightarrow> validateBreakerNumber x
         | Some _ \<Rightarrow> Err BreakerShape)
       else Err BreakerShape
   | Some _ \<Rightarrow> Err BreakerShape)"

section \<open>Contract validation\<close>

datatype contract_problem =
    Problem string string
  | Entry string nat string string
  | Unknown string string
  | UnknownEntry string nat string string

definition problem_if :: "bool \<Rightarrow> contract_problem \<Rightarrow> contract_problem list" where
  "problem_if b p = (if b then [p] else [])"

definition isAutonomyLevel :: "int \<Rightarrow> bool" where
  "isAutonomyLevel level \<longleftrightarrow> level \<ge> RecoveryAutonomyMin \<and> level \<le> RecoveryAutonomyMax"

fun duplicate_loop :: "string list \<Rightarrow> string list \<Rightarrow> bool" where
  "duplicate_loop [] seen = False"
| "duplicate_loop (v # vs) seen = (if v \<in> set seen then True else duplicate_loop vs (v # seen))"

definition hasDuplicateStrings :: "string list \<Rightarrow> bool" where
  "hasDuplicateStrings vs = duplicate_loop vs []"

definition bad_length :: "string \<Rightarrow> nat \<Rightarrow> bool" where
  "bad_length s n \<longleftrightarrow> s = [] \<or> length s > n"

definition technical_problem :: "int \<Rightarrow> string \<times> int \<Rightarrow> contract_problem list" where
  "technical_problem limit = (\<lambda>(failureClass, level).
     if failureClass \<noteq> ''terminalNodeFailure'' \<and> failureClass \<noteq> ''stalledNode''
     then [Unknown ''failure.technical.autonomy'' failureClass]
     else if \<not> isAutonomyLevel level then [Problem (''failure.technical.autonomy.'' @ failureClass) ''level must be 0..4'']
     else problem_if (level > limit) (Problem (''failure.technical.autonomy.'' @ failureClass)
       ''A failure-specific autonomy level cannot exceed the workflow recovery level''))"

definition detector_kind :: "nat \<Rightarrow> detector \<Rightarrow> contract_problem list" where
  "detector_kind i d = (let p = ''failure.semantic.detectors'' in
     if d_Kind d = ''expression'' then problem_if (bad_length (d_PassWhen d) 2000) (Entry p i ''passWhen'' ''must be 1..2000 chars'')
     else if d_Kind d = ''schema'' then (case d_Schema d of
         None \<Rightarrow> [Entry p i ''schema'' ''schema detectors require a schema'']
       | Some s \<Rightarrow> problem_if (\<not> validInputSchemaShape (Some s))
           (Entry p i ''schema'' ''must be a supported recursive schema''))
     else [Entry p i ''kind'' ''must be expression or schema''])"

definition detector_autonomy :: "int \<Rightarrow> nat \<Rightarrow> detector \<Rightarrow> contract_problem list" where
  "detector_autonomy limit i d = (case d_AutonomyLevel d of
     None \<Rightarrow> []
   | Some level \<Rightarrow>
       if \<not> isAutonomyLevel level then [Entry ''failure.semantic.detectors'' i ''autonomyLevel'' ''must be 0..4'']
       else problem_if (level > limit) (Entry ''failure.semantic.detectors'' i ''autonomyLevel''
         ''A failure-specific autonomy level cannot exceed the workflow recovery level''))"

definition detector_problems :: "int \<Rightarrow> nat \<times> detector \<Rightarrow> contract_problem list" where
  "detector_problems limit = (\<lambda>(i, d). let p = ''failure.semantic.detectors'' in
     problem_if (bad_length (d_ID d) 200) (Entry p i ''id'' ''must be 1..200 chars'') @
     problem_if (bad_length (d_SourceNodeID d) 200) (Entry p i ''sourceNodeId'' ''must be 1..200 chars'') @
     detector_kind i d @
     problem_if (d_Action d \<notin> set RecoveryDetectorActions) (Entry p i ''action'' ''must be observe or quarantine'') @
     problem_if (bad_length (d_Message d) 500) (Entry p i ''message'' ''must be 1..500 chars'') @
     detector_autonomy limit i d)"

definition fixture_problems :: "nat \<times> fixture \<Rightarrow> contract_problem list" where
  "fixture_problems = (\<lambda>(i, x). let p = ''failure.semantic.evaluationFixtures'' in
     problem_if (bad_length (fx_ID x) 200) (Entry p i ''id'' ''must be 1..200 chars'') @
     problem_if (bad_length (fx_SourceNodeID x) 200) (Entry p i ''sourceNodeId'' ''must be 1..200 chars'') @
     problem_if (fx_Expected x \<noteq> ''pass'' \<and> fx_Expected x \<noteq> ''violation'') (Entry p i ''expected'' ''must be pass or violation''))"

definition validateSemanticV2 :: "semantic_failure \<Rightarrow> int \<Rightarrow> contract_problem list" where
  "validateSemanticV2 s limit = (let ds = sf_Detectors s; xs = sf_EvaluationFixtures s in
     problem_if (length ds < 1 \<or> length ds > 50) (Problem ''failure.semantic.detectors'' ''must declare 1..50 detectors'') @
     concat (map (detector_problems limit) (enumerate 0 ds)) @
     problem_if (hasDuplicateStrings (map d_ID ds)) (Problem ''failure.semantic.detectors'' ''Semantic detector ids must be unique'') @
     problem_if (length xs < 2 \<or> length xs > 50) (Problem ''failure.semantic.evaluationFixtures'' ''must declare 2..50 fixtures'') @
     concat (map fixture_problems (enumerate 0 xs)) @
     problem_if (hasDuplicateStrings (map fx_ID xs)) (Problem ''failure.semantic.evaluationFixtures'' ''Semantic evaluation fixture ids must be unique''))"

definition validateRecoveryFailure :: "contract \<Rightarrow> contract_problem list" where
  "validateRecoveryFailure c = (let t = c_Technical c; s = c_Semantic c in
     problem_if (\<not> tf_TerminalNodeFailure t) (Problem ''failure.technical.terminalNodeFailure'' ''must be true'') @
     concat (map (\<lambda>k. technical_problem (c_AutonomyLevel c) (k, the (map_of (tf_Autonomy t) k))) (sorted_keys (tf_Autonomy t))) @
     (if c_Version c = ''1'' then
        problem_if (sf_Mode s \<noteq> ''disabled'') (Problem ''failure.semantic.mode'' ''contract v1 requires semantic mode disabled'') @
        problem_if (sf_Detectors s \<noteq> [] \<or> sf_EvaluationFixtures s \<noteq> [])
          (Problem ''failure.semantic'' ''contract v1 cannot declare detectors or fixtures'')
      else if c_Version c = ''2'' then
        problem_if (sf_Mode s \<noteq> ''deterministic'') (Problem ''failure.semantic.mode'' ''contract v2 requires semantic mode deterministic'') @
        validateSemanticV2 s (c_AutonomyLevel c)
      else []))"

definition validateRecoveryEvidence :: "contract \<Rightarrow> contract_problem list" where
  "validateRecoveryEvidence c = (let r = c_EvidenceRequired c; p = ''evidence.required'' in
     problem_if (length r < 1 \<or> length r > length RecoveryEvidenceKinds) (Problem p ''must declare 1..6 evidence kinds'') @
     problem_if (hasDuplicateStrings r) (Problem p ''Recovery evidence kinds must be unique'') @
     concat (map (\<lambda>kind. problem_if (kind \<notin> set RecoveryEvidenceKinds) (Unknown p kind)) r) @
     concat (map (\<lambda>base. problem_if (base \<notin> set r) (Problem p (''Recovery contract must retain '' @ base))) requiredBaseEvidence))"

definition effect_problems :: "nat \<times> effect \<Rightarrow> contract_problem list" where
  "effect_problems = (\<lambda>(i, e).
     problem_if (bad_length (ef_NodeID e) 200) (Entry ''effects'' i ''nodeId'' ''must be 1..200 chars'') @
     problem_if (ef_Kind e \<notin> set RecoveryEffectKinds) (UnknownEntry ''effects'' i ''kind'' (ef_Kind e)) @
     problem_if (ef_Idempotency e \<notin> set RecoveryEffectIdempotency) (UnknownEntry ''effects'' i ''idempotency'' (ef_Idempotency e)) @
     problem_if (ef_Receipt e \<notin> set RecoveryEffectReceipts) (UnknownEntry ''effects'' i ''receipt'' (ef_Receipt e)))"

definition validateRecoveryEffects :: "contract \<Rightarrow> contract_problem list" where
  "validateRecoveryEffects c =
     problem_if (length (c_Effects c) > 100) (Problem ''effects'' ''at most 100 declared effects'') @
     concat (map effect_problems (enumerate 0 (c_Effects c))) @
     problem_if (hasDuplicateStrings (map ef_NodeID (c_Effects c))) (Problem ''effects'' ''A workflow node may define only one recovery effect'')"

definition validateRecoveryRepairs :: "contract \<Rightarrow> contract_problem list" where
  "validateRecoveryRepairs c = (let r = c_RepairsAllowed c; p = ''repairs.allowed'' in
     problem_if (length r < 1) (Problem p ''must declare at least one repair class'') @
     problem_if (hasDuplicateStrings r) (Problem p ''Recovery repair classes must be unique'') @
     concat (map (\<lambda>repair. problem_if (repair \<notin> set RecoveryRepairClasses) (Unknown p repair)) r))"

definition validateRecoveryValidationLevel :: "contract \<Rightarrow> contract_problem list" where
  "validateRecoveryValidationLevel c = (let level = c_MinimumEvidenceLevel c; required = set (c_EvidenceRequired c) in
     problem_if (level \<notin> set ValidationEvidenceLevels) (Unknown ''validation.minimumEvidenceLevel'' level) @
     problem_if (level \<noteq> ''static'' \<and> ''validation_receipt'' \<notin> required)
       (Problem ''evidence.required'' ''Validation evidence above static requires validation_receipt retention'') @
     problem_if (SupportsAutonomousRecovery level \<and> ''effect_receipt'' \<notin> required)
       (Problem ''evidence.required'' ''Provider-simulated or live-canary validation requires effect_receipt retention''))"

definition validateRecoveryApproval :: "contract \<Rightarrow> contract_problem list" where
  "validateRecoveryApproval c =
     problem_if (c_Permission c \<noteq> ''recovery.write'') (Problem ''approval.permission'' ''must be recovery.write'') @
     problem_if (c_ProductionMutation c \<noteq> ''required'' \<and> c_ProductionMutation c \<noteq> ''autonomous_level_4'')
       (Problem ''approval.productionMutation'' ''must be required or autonomous_level_4'')"

definition narrow_problems :: "string list \<Rightarrow> narrow_autonomy \<Rightarrow> contract_problem list" where
  "narrow_problems allowedRepairs n = (let r = na_AllowedRepairClasses n; p = ''narrowAutonomy.allowedRepairClasses'' in
     problem_if (hasDuplicateStrings r) (Problem p ''Narrow-autonomy repair classes must be unique'') @
     problem_if (length r < 1) (Problem p ''must declare at least one repair class'') @
     concat (map (\<lambda>(i, repair). problem_if (repair \<notin> set allowedRepairs)
       (Entry p i [] ''Narrow-autonomy repair classes must be allowed by the recovery contract'')) (enumerate 0 r)) @
     problem_if (na_MinimumPriorVerifiedRecoveries n < 1 \<or> na_MinimumPriorVerifiedRecoveries n > 1000)
       (Problem ''narrowAutonomy.minimumPriorVerifiedRecoveries'' ''must be 1..1000'') @
     problem_if (na_MaxAffectedExecutions n < 1 \<or> na_MaxAffectedExecutions n > 100)
       (Problem ''narrowAutonomy.maxAffectedExecutions'' ''must be 1..100'') @
     problem_if (\<not> na_RollbackRequired n) (Problem ''narrowAutonomy.rollbackRequired'' ''must be true''))"

definition effect_autonomy :: "nat \<times> effect \<Rightarrow> contract_problem list" where
  "effect_autonomy = (\<lambda>(i, e).
     problem_if (ef_Idempotency e = ''unavailable'')
       (Entry ''effects'' i ''idempotency'' ''Level 4 autonomy cannot include an effect without idempotency'') @
     problem_if (ef_Receipt e = ''manual'')
       (Entry ''effects'' i ''receipt'' ''Level 4 autonomy cannot depend on a manual effect receipt''))"

definition validateRecoveryAutonomy :: "contract \<Rightarrow> contract_problem list" where
  "validateRecoveryAutonomy c =
     problem_if (\<not> isAutonomyLevel (c_AutonomyLevel c)) (Problem ''autonomyLevel'' ''must be 0..4'') @
     (if c_AutonomyLevel c = 4 then
        problem_if (\<not> SupportsAutonomousRecovery (c_MinimumEvidenceLevel c))
          (Problem ''validation.minimumEvidenceLevel'' ''Level 4 autonomy requires provider_simulated or live_canary evidence'') @
        problem_if (c_ProductionMutation c \<noteq> ''autonomous_level_4'')
          (Problem ''approval.productionMutation'' ''Level 4 autonomy requires an explicit autonomous_level_4 mutation policy'') @
        (case c_NarrowAutonomy c of
           None \<Rightarrow> [Problem ''narrowAutonomy'' ''Level 4 autonomy requires prior-evidence, blast-radius, and rollback bounds'']
         | Some n \<Rightarrow> narrow_problems (c_RepairsAllowed c) n) @
        concat (map effect_autonomy (enumerate 0 (c_Effects c)))
      else
        problem_if (c_ProductionMutation c \<noteq> ''required'')
          (Problem ''approval.productionMutation'' ''Autonomous production mutation is valid only at autonomy level 4'') @
        problem_if (c_NarrowAutonomy c \<noteq> None) (Problem ''narrowAutonomy'' ''Narrow-autonomy bounds are valid only at autonomy level 4''))"

definition validateRecoveryEnvelopes :: "contract \<Rightarrow> contract_problem list" where
  "validateRecoveryEnvelopes c =
     problem_if (c_VerificationKind c \<noteq> ''generation_bound_terminal_success'')
       (Problem ''verification.kind'' ''must be generation_bound_terminal_success'') @
     problem_if (c_RecurrenceWindowDays c < 1 \<or> c_RecurrenceWindowDays c > 30) (Problem ''recurrence.windowDays'' ''must be 1..30'')"

definition ValidateRecoveryContract :: "contract option \<Rightarrow> contract_problem list" where
  "ValidateRecoveryContract contract = (case contract of
     None \<Rightarrow> []
   | Some c \<Rightarrow>
       if c_Version c \<noteq> ''1'' \<and> c_Version c \<noteq> ''2'' then [Problem ''version'' ''recovery contract version must be 1 or 2'']
       else validateRecoveryFailure c @ validateRecoveryEvidence c @ validateRecoveryEffects c @ validateRecoveryRepairs c @
         validateRecoveryValidationLevel c @ validateRecoveryApproval c @ validateRecoveryAutonomy c @ validateRecoveryEnvelopes c)"


section \<open>Capability ladder\<close>

definition RecoveryAutonomyCapabilities :: "string list" where
  "RecoveryAutonomyCapabilities = [''observe'', ''recommend'', ''validate'', ''apply_with_approval'', ''autonomous_apply'']"

definition RecoveryAutonomyCapabilityLevel :: "(string \<times> int) list" where
  "RecoveryAutonomyCapabilityLevel = [(''observe'', 0), (''recommend'', 1), (''validate'', 2), (''apply_with_approval'', 3), (''autonomous_apply'', 4)]"

record autonomy_factor =
  af_Capability :: string
  af_RequiredLevel :: int
  af_Enabled :: bool

record capability_set =
  cp_Observe :: bool
  cp_Recommend :: bool
  cp_Validate :: bool
  cp_ApplyWithApproval :: bool
  cp_AutonomousApply :: bool

record autonomy_profile =
  ap_Level :: "int option"
  ap_Source :: string
  ap_DetectorIDs :: "string list"
  ap_UnavailableReason :: "string option"
  ap_Capabilities :: capability_set
  ap_Factors :: "autonomy_factor list"

record failure_class =
  fc_Kind :: string
  fc_Failure :: string
  fc_DetectorID :: string

definition level_enabled :: "int option \<Rightarrow> int \<Rightarrow> bool" where
  "level_enabled level base = (case level of None \<Rightarrow> False | Some l \<Rightarrow> l \<ge> base)"

definition autonomyProfile :: "int option \<Rightarrow> string \<Rightarrow> string list \<Rightarrow> string \<Rightarrow> autonomy_profile" where
  "autonomyProfile level source detectorIds unavailableReason =
     \<lparr>ap_Level = level, ap_Source = source, ap_DetectorIDs = detectorIds,
      ap_UnavailableReason = (if unavailableReason \<noteq> [] then Some unavailableReason else None),
      ap_Capabilities = \<lparr>cp_Observe = level_enabled level 0, cp_Recommend = level_enabled level 1,
        cp_Validate = level_enabled level 2, cp_ApplyWithApproval = level_enabled level 3,
        cp_AutonomousApply = level_enabled level 4\<rparr>,
      ap_Factors = map (\<lambda>capability. let base = (case map_of RecoveryAutonomyCapabilityLevel capability of Some l \<Rightarrow> l | None \<Rightarrow> 0) in
        \<lparr>af_Capability = capability, af_RequiredLevel = base, af_Enabled = level_enabled level base\<rparr>) RecoveryAutonomyCapabilities\<rparr>"

definition ResolveRecoveryAutonomyProfile :: "contract option \<Rightarrow> failure_class \<Rightarrow> autonomy_profile" where
  "ResolveRecoveryAutonomyProfile contract failureClass =
     (let semanticIds = (if fc_Kind failureClass = ''semantic'' then [fc_DetectorID failureClass] else []) in
      case contract of
        None \<Rightarrow> autonomyProfile None ''unavailable'' semanticIds ''contract_missing''
      | Some c \<Rightarrow>
          if fc_Kind failureClass = ''technical'' then
            let key = (if fc_Failure failureClass = ''stalled_node'' then ''stalledNode'' else ''terminalNodeFailure'') in
            (case map_of (tf_Autonomy (c_Technical c)) key of
               Some override \<Rightarrow> autonomyProfile (Some override) ''failure_override'' [] []
             | None \<Rightarrow> autonomyProfile (Some (c_AutonomyLevel c)) ''workflow_default'' [] [])
          else if c_Version c \<noteq> ''2'' then autonomyProfile None ''unavailable'' semanticIds ''failure_policy_missing''
          else (case find (\<lambda>d. d_ID d = fc_DetectorID failureClass) (sf_Detectors (c_Semantic c)) of
              Some d \<Rightarrow> (case d_AutonomyLevel d of
                  Some l \<Rightarrow> autonomyProfile (Some l) ''failure_override'' [d_ID d] []
                | None \<Rightarrow> autonomyProfile (Some (c_AutonomyLevel c)) ''workflow_default'' [d_ID d] [])
            | None \<Rightarrow> autonomyProfile None ''unavailable'' semanticIds ''failure_policy_missing''))"

fun keep_first :: "string list \<Rightarrow> string list \<Rightarrow> string list" where
  "keep_first [] seen = []"
| "keep_first (v # vs) seen = (if v \<in> set seen then keep_first vs seen else v # keep_first vs (v # seen))"

fun first_unavailable :: "autonomy_profile list \<Rightarrow> string option" where
  "first_unavailable [] = None"
| "first_unavailable (p # ps) = (if ap_Level p = None
     then Some (case ap_UnavailableReason p of Some (c # r) \<Rightarrow> c # r | _ \<Rightarrow> ''failure_policy_missing'')
     else first_unavailable ps)"

definition CombineRecoveryAutonomyProfiles :: "autonomy_profile list \<Rightarrow> autonomy_profile" where
  "CombineRecoveryAutonomyProfiles profiles = (case profiles of
     [] \<Rightarrow> autonomyProfile None ''unavailable'' [] ''failure_policy_missing''
   | p # ps \<Rightarrow> (let detectorIds = keep_first (concat (map ap_DetectorIDs profiles)) [] in
       case first_unavailable profiles of
         Some reason \<Rightarrow> autonomyProfile None ''unavailable'' detectorIds reason
       | None \<Rightarrow> autonomyProfile (Some (foldl (\<lambda>m q. min m (the (ap_Level q))) (the (ap_Level p)) ps))
           (if ps = [] then ap_Source p else ''strictest_failure'') detectorIds []))"

section \<open>Repair classes\<close>












section \<open>The seven gates\<close>

definition technicalEvidenceRank :: "string \<Rightarrow> int" where
  "technicalEvidenceRank level =
     (if level = ''static'' then 0 else if level = ''writes_skipped'' then 1
      else if level = ''provider_simulated'' then 2 else if level = ''live_canary'' then 3 else -1)"

record technical_factor =
  te_ID :: string
  te_Passed :: bool
  te_Reason :: string
  te_Actual :: json
  te_Required :: json

record autonomy_input =
  ai_Contract :: "contract option"
  ai_Failure :: string
  ai_RepairClass :: string
  ai_ValidationEvidenceLevel :: string
  ai_PriorVerifiedRecoveries :: int
  ai_AffectedExecutions :: int
  ai_RollbackReady :: bool

record autonomy_assessment =
  aa_Eligible :: bool
  aa_Failure :: string
  aa_RepairClass :: "string option"
  aa_Policy :: autonomy_profile
  aa_ValidationEvidenceLevel :: string
  aa_MinimumEvidenceLevel :: "string option"
  aa_PriorVerifiedRecoveries :: int
  aa_AffectedExecutions :: int
  aa_Factors :: "technical_factor list"

definition technicalFactor :: "string \<Rightarrow> bool \<Rightarrow> string \<Rightarrow> json \<Rightarrow> json \<Rightarrow> technical_factor" where
  "technicalFactor name passed blockedReason actual required =
     \<lparr>te_ID = name, te_Passed = passed, te_Reason = (if passed then ''ready'' else blockedReason), te_Actual = actual, te_Required = required\<rparr>"

definition json_int :: "int \<Rightarrow> json" where "json_int n = JNum (Fin (of_int n))"

definition json_opt :: "('a \<Rightarrow> json) \<Rightarrow> 'a option \<Rightarrow> json" where
  "json_opt f x = (case x of None \<Rightarrow> JNull | Some a \<Rightarrow> f a)"

definition policy_ready :: "autonomy_profile \<Rightarrow> contract option \<Rightarrow> bool" where
  "policy_ready policy contract \<longleftrightarrow> ap_Level policy = Some 4 \<and>
     (case contract of None \<Rightarrow> False | Some c \<Rightarrow> c_ProductionMutation c = ''autonomous_level_4'')"

definition repair_ready :: "contract option \<Rightarrow> string \<Rightarrow> bool" where
  "repair_ready contract repair \<longleftrightarrow> repair \<noteq> [] \<and> (case contract of
     None \<Rightarrow> False
   | Some c \<Rightarrow> (case c_NarrowAutonomy c of
       None \<Rightarrow> False
     | Some n \<Rightarrow> repair \<in> set (c_RepairsAllowed c) \<and> repair \<in> set (na_AllowedRepairClasses n)))"

definition evidence_ready :: "contract option \<Rightarrow> string \<Rightarrow> bool" where
  "evidence_ready contract level = (case contract of
     None \<Rightarrow> False
   | Some c \<Rightarrow> technicalEvidenceRank level \<ge> technicalEvidenceRank (c_MinimumEvidenceLevel c) \<and> SupportsAutonomousRecovery level)"

definition receipts_ready :: "contract option \<Rightarrow> bool" where
  "receipts_ready contract = (case contract of
     None \<Rightarrow> False
   | Some c \<Rightarrow> ''effect_receipt'' \<in> set (c_EvidenceRequired c) \<and>
       \<not> list_ex (\<lambda>e. ef_Idempotency e = ''unavailable'' \<or> ef_Receipt e = ''manual'') (c_Effects c))"

definition policy_reason :: "autonomy_profile \<Rightarrow> string" where
  "policy_reason policy = (case ap_Level policy of
     None \<Rightarrow> ''policy_unavailable''
   | Some l \<Rightarrow> if l < 4 then ''autonomy_level_below_4'' else ''mutation_policy_requires_approval'')"

fun join_comma :: "string list \<Rightarrow> string" where
  "join_comma [] = []"
| "join_comma [s] = s"
| "join_comma (s # t # ts) = s @ '', '' @ join_comma (t # ts)"

definition EvaluateTechnicalRecoveryAutonomy :: "autonomy_input \<Rightarrow> autonomy_assessment" where
  "EvaluateTechnicalRecoveryAutonomy inp =
     (let contract = ai_Contract inp; level = ParseValidationEvidenceLevel (ai_ValidationEvidenceLevel inp);
          repair = ai_RepairClass inp; prior = ai_PriorVerifiedRecoveries inp; affected = ai_AffectedExecutions inp;
          policy = ResolveRecoveryAutonomyProfile contract \<lparr>fc_Kind = ''technical'', fc_Failure = ai_Failure inp, fc_DetectorID = []\<rparr>;
          narrow = Option.bind contract c_NarrowAutonomy; minimum = map_option c_MinimumEvidenceLevel contract;
          priorReady = (case narrow of None \<Rightarrow> False | Some n \<Rightarrow> prior \<ge> na_MinimumPriorVerifiedRecoveries n);
          blastRadiusReady = (case narrow of None \<Rightarrow> False | Some n \<Rightarrow> affected \<ge> 1 \<and> affected \<le> na_MaxAffectedExecutions n);
          rollbackReady = (case narrow of None \<Rightarrow> False | Some n \<Rightarrow> na_RollbackRequired n \<and> ai_RollbackReady inp);
          factors =
            [technicalFactor ''policy'' (policy_ready policy contract) (policy_reason policy) (json_opt json_int (ap_Level policy)) (json_int 4),
             technicalFactor ''repair_scope'' (repair_ready contract repair) (if repair \<noteq> [] then ''repair_not_allowlisted'' else ''repair_unclassified'')
               (if repair \<noteq> [] then JStr repair else JNull) (json_opt (\<lambda>n. JStr (join_comma (na_AllowedRepairClasses n))) narrow),
             technicalFactor ''validation_evidence'' (evidence_ready contract level) ''validation_evidence_insufficient'' (JStr level) (json_opt JStr minimum),
             technicalFactor ''prior_recoveries'' priorReady ''prior_recoveries_insufficient'' (json_int prior)
               (json_opt (json_int \<circ> na_MinimumPriorVerifiedRecoveries) narrow),
             technicalFactor ''blast_radius'' blastRadiusReady ''blast_radius_exceeded'' (json_int affected)
               (json_opt (json_int \<circ> na_MaxAffectedExecutions) narrow),
             technicalFactor ''rollback'' rollbackReady ''rollback_unavailable'' (JBool (ai_RollbackReady inp))
               (json_opt (JBool \<circ> na_RollbackRequired) narrow),
             technicalFactor ''effect_receipts'' (receipts_ready contract) ''effect_receipts_unsafe'' (JBool (receipts_ready contract)) (JBool True)]
      in \<lparr>aa_Eligible = list_all te_Passed factors, aa_Failure = ai_Failure inp,
          aa_RepairClass = (if repair \<noteq> [] then Some repair else None), aa_Policy = policy,
          aa_ValidationEvidenceLevel = level, aa_MinimumEvidenceLevel = minimum,
          aa_PriorVerifiedRecoveries = prior, aa_AffectedExecutions = affected, aa_Factors = factors\<rparr>)"

section \<open>Accepted contracts\<close>

lemma problem_if_Nil [simp]: "problem_if b p = [] \<longleftrightarrow> \<not> b"
  by (simp add: problem_if_def)

lemma duplicate_loop_iff: "duplicate_loop vs seen \<longleftrightarrow> \<not> distinct vs \<or> set vs \<inter> set seen \<noteq> {}"
  by (induction vs seen rule: duplicate_loop.induct) auto

lemma hasDuplicateStrings_iff [simp]: "hasDuplicateStrings vs \<longleftrightarrow> \<not> distinct vs"
  by (simp add: hasDuplicateStrings_def duplicate_loop_iff)

lemma enumerate_all: "(\<forall>p\<in>set (enumerate n xs). P (snd p)) \<longleftrightarrow> (\<forall>x\<in>set xs. P x)"
  using snd_enumerate [of n xs] by (metis (no_types, lifting) imageE image_eqI)

lemma accepted_sections:
  "ValidateRecoveryContract (Some c) = [] \<longleftrightarrow> (c_Version c = ''1'' \<or> c_Version c = ''2'') \<and>
     validateRecoveryFailure c = [] \<and> validateRecoveryEvidence c = [] \<and> validateRecoveryEffects c = [] \<and>
     validateRecoveryRepairs c = [] \<and> validateRecoveryValidationLevel c = [] \<and> validateRecoveryApproval c = [] \<and>
     validateRecoveryAutonomy c = [] \<and> validateRecoveryEnvelopes c = []"
  by (simp add: ValidateRecoveryContract_def)

lemma accepted_technical_levels:
  assumes "validateRecoveryFailure c = []" "map_of (tf_Autonomy (c_Technical c)) k = Some l"
  shows "l \<le> c_AutonomyLevel c"
proof -
  have "k \<in> set (sorted_keys (tf_Autonomy (c_Technical c)))" using map_of_SomeD [OF assms(2)] by force
  with assms have "technical_problem (c_AutonomyLevel c) (k, l) = []"
    unfolding validateRecoveryFailure_def Let_def append_is_Nil_conv concat_map_Nil_iff by force
  then show ?thesis by (simp add: technical_problem_def split: if_split_asm)
qed

lemma accepted_detector_levels:
  assumes "ValidateRecoveryContract (Some c) = []" "d \<in> set (sf_Detectors (c_Semantic c))" "d_AutonomyLevel d = Some l"
  shows "l \<le> c_AutonomyLevel c"
proof -
  from assms(1,2) have "validateSemanticV2 (c_Semantic c) (c_AutonomyLevel c) = []"
    by (auto simp: accepted_sections validateRecoveryFailure_def Let_def split: if_splits)
  moreover obtain i where "(i, d) \<in> set (enumerate 0 (sf_Detectors (c_Semantic c)))"
    using assms(2) snd_enumerate [of 0 "sf_Detectors (c_Semantic c)"] by (metis imageE prod.collapse)
  ultimately have "detector_problems (c_AutonomyLevel c) (i, d) = []"
    unfolding validateSemanticV2_def Let_def by (simp add: concat_map_Nil_iff)
  with assms(3) show ?thesis
    by (auto simp: detector_problems_def detector_autonomy_def Let_def split: if_splits)
qed

lemma accepted_level_4:
  assumes "ValidateRecoveryContract (Some c) = []" "c_AutonomyLevel c = 4"
  obtains n where "c_NarrowAutonomy c = Some n" "na_RollbackRequired n" "1 \<le> na_MinimumPriorVerifiedRecoveries n"
    "na_MaxAffectedExecutions n \<le> 100" "set (na_AllowedRepairClasses n) \<subseteq> set (c_RepairsAllowed c)"
    "[] \<notin> set (c_RepairsAllowed c)" "c_ProductionMutation c = ''autonomous_level_4''"
    "SupportsAutonomousRecovery (c_MinimumEvidenceLevel c)" "receipts_ready (Some c)"
proof -
  from assms have a: "validateRecoveryAutonomy c = []" by (simp add: accepted_sections)
  with assms(2) obtain n where n: "c_NarrowAutonomy c = Some n" "narrow_problems (c_RepairsAllowed c) n = []"
    and effects: "\<forall>e\<in>set (enumerate 0 (c_Effects c)). effect_autonomy e = []"
    and level: "c_ProductionMutation c = ''autonomous_level_4''" "SupportsAutonomousRecovery (c_MinimumEvidenceLevel c)"
    by (auto simp: validateRecoveryAutonomy_def concat_map_Nil_iff split: option.splits)
  from effects have "\<forall>p\<in>set (enumerate 0 (c_Effects c)). ef_Idempotency (snd p) \<noteq> ''unavailable'' \<and> ef_Receipt (snd p) \<noteq> ''manual''"
    by (auto simp: effect_autonomy_def)
  then have safe: "\<not> list_ex (\<lambda>e. ef_Idempotency e = ''unavailable'' \<or> ef_Receipt e = ''manual'') (c_Effects c)"
    using enumerate_all [of 0 "c_Effects c" "\<lambda>e. ef_Idempotency e \<noteq> ''unavailable'' \<and> ef_Receipt e \<noteq> ''manual''"]
    by (auto simp: list_ex_iff)
  have receipt: "''effect_receipt'' \<in> set (c_EvidenceRequired c)"
    using assms(1) level(2) by (simp add: accepted_sections validateRecoveryValidationLevel_def Let_def)
  have "\<forall>p\<in>set (enumerate 0 (na_AllowedRepairClasses n)). snd p \<in> set (c_RepairsAllowed c)"
    using n(2) by (auto simp: narrow_problems_def Let_def concat_map_Nil_iff)
  then have subset: "set (na_AllowedRepairClasses n) \<subseteq> set (c_RepairsAllowed c)" 
    using enumerate_all [of 0 "na_AllowedRepairClasses n" "\<lambda>r. r \<in> set (c_RepairsAllowed c)"] by blast
  have "[] \<notin> set (c_RepairsAllowed c)"
    using assms(1) by (auto simp: accepted_sections validateRecoveryRepairs_def Let_def concat_map_Nil_iff RecoveryRepairClasses_def)
  then show thesis
    using n subset level safe receipt that by (simp add: narrow_problems_def Let_def receipts_ready_def)
qed

section \<open>Profiles\<close>

lemma ap_Level_autonomyProfile [simp]: "ap_Level (autonomyProfile l s ds r) = l"
  by (simp add: autonomyProfile_def)

lemma find_SomeD: "find P xs = Some x \<Longrightarrow> x \<in> set xs \<and> P x"
  by (auto simp: find_Some_iff)

lemma resolved_level_cases:
  assumes "ap_Level (ResolveRecoveryAutonomyProfile (Some c) f) = Some l"
  obtains "l = c_AutonomyLevel c"
  | k where "map_of (tf_Autonomy (c_Technical c)) k = Some l"
  | d where "d \<in> set (sf_Detectors (c_Semantic c))" "d_AutonomyLevel d = Some l"
  using assms unfolding ResolveRecoveryAutonomyProfile_def Let_def
  by (auto split: if_split_asm option.split_asm dest!: find_SomeD)

lemma resolved_level_capped:
  assumes "ValidateRecoveryContract (Some c) = []" "ap_Level (ResolveRecoveryAutonomyProfile (Some c) f) = Some l"
  shows "l \<le> c_AutonomyLevel c"
  using assms(2)
proof (cases rule: resolved_level_cases)
  case 2
  then show ?thesis using accepted_technical_levels assms(1) by (auto simp: accepted_sections)
qed (use accepted_detector_levels [OF assms(1)] in auto)

lemma first_unavailable_None_iff: "first_unavailable ps = None \<longleftrightarrow> (\<forall>p\<in>set ps. ap_Level p \<noteq> None)"
  by (induction ps) auto

lemma foldl_min_le: "foldl (\<lambda>m q. min m (f q)) a qs \<le> (a :: int)"
proof (induction qs arbitrary: a)
  case (Cons q qs)
  show ?case using Cons [of "min a (f q)"] by simp
qed simp

lemma foldl_min_le_mem: "q \<in> set qs \<Longrightarrow> foldl (\<lambda>m q. min m (f q)) a qs \<le> (f q :: int)"
proof (induction qs arbitrary: a)
  case (Cons p qs)
  show ?case
  proof (cases "q = p")
    case True
    then show ?thesis using foldl_min_le [of f "min a (f p)" qs] by simp
  qed (use Cons in simp)
qed simp

lemma foldl_min_mem: "foldl (\<lambda>m q. min m (f q)) a qs \<in> insert a (f ` set qs)" for a :: int
  by (induction qs arbitrary: a) (auto simp: min_def split: if_splits)

text \<open>
  C18: no failure acts above the ceiling of its contract. For an accepted contract and any failure
  classes, the combined profile has a level exactly when there are classes and each of them has a
  policy. That level is the lowest of theirs and at most the autonomy level of the contract.
\<close>

theorem autonomy_capped:
  assumes "ValidateRecoveryContract (Some c) = []"
  defines "resolve \<equiv> ResolveRecoveryAutonomyProfile (Some c)"
  shows "case ap_Level (CombineRecoveryAutonomyProfiles (map resolve classes)) of
      None \<Rightarrow> classes = [] \<or> list_ex (\<lambda>f. ap_Level (resolve f) = None) classes
    | Some l \<Rightarrow> l \<le> c_AutonomyLevel c \<and> list_ex (\<lambda>f. ap_Level (resolve f) = Some l) classes \<and>
        list_all (\<lambda>f. case ap_Level (resolve f) of None \<Rightarrow> False | Some m \<Rightarrow> l \<le> m) classes"
proof (cases classes)
  case Nil
  then show ?thesis by (simp add: CombineRecoveryAutonomyProfiles_def)
next
  case (Cons f fs)
  let ?ps = "map resolve classes"
  show ?thesis
  proof (cases "first_unavailable ?ps")
    case None
    define l where "l = foldl (\<lambda>m q. min m (the (ap_Level q))) (the (ap_Level (resolve f))) (map resolve fs)"
    have levels: "\<exists>m. ap_Level (resolve g) = Some m" if "g \<in> set classes" for g
      using None that by (auto simp: first_unavailable_None_iff)
    have le: "l \<le> the (ap_Level (resolve g))" if "g \<in> set classes" for g
      using that Cons foldl_min_le foldl_min_le_mem [of "resolve g" "map resolve fs" "\<lambda>q. the (ap_Level q)"]
      by (auto simp: l_def)
    have mem: "\<exists>g\<in>set classes. the (ap_Level (resolve g)) = l"
      using foldl_min_mem [of "\<lambda>q. the (ap_Level q)" "the (ap_Level (resolve f))" "map resolve fs"] Cons
      by (auto simp: l_def)
    have "ap_Level (CombineRecoveryAutonomyProfiles ?ps) = Some l"
      using None Cons by (simp add: CombineRecoveryAutonomyProfiles_def l_def Let_def)
    moreover have "l \<le> c_AutonomyLevel c"
      using mem levels resolved_level_capped [OF assms(1)] by (fastforce simp: resolve_def)
    moreover have "list_ex (\<lambda>f. ap_Level (resolve f) = Some l) classes"
      using mem levels by (fastforce simp: list_ex_iff)
    moreover have "list_all (\<lambda>f. case ap_Level (resolve f) of None \<Rightarrow> False | Some m \<Rightarrow> l \<le> m) classes"
      using le levels by (fastforce simp: list_all_iff)
    ultimately show ?thesis by simp
  next
    case (Some reason)
    then have "\<not> (\<forall>p\<in>set ?ps. ap_Level p \<noteq> None)" by (metis first_unavailable_None_iff option.distinct(1))
    with Some Cons show ?thesis
      by (auto simp: CombineRecoveryAutonomyProfiles_def Let_def list_ex_iff)
  qed
qed

section \<open>The gates\<close>

lemma eligible_iff:
  "aa_Eligible (EvaluateTechnicalRecoveryAutonomy inp) \<longleftrightarrow>
     (let contract = ai_Contract inp; policy = ResolveRecoveryAutonomyProfile contract
        \<lparr>fc_Kind = ''technical'', fc_Failure = ai_Failure inp, fc_DetectorID = []\<rparr> in
      policy_ready policy contract \<and> repair_ready contract (ai_RepairClass inp) \<and>
      evidence_ready contract (ParseValidationEvidenceLevel (ai_ValidationEvidenceLevel inp)) \<and> receipts_ready contract \<and>
      (\<exists>n. Option.bind contract c_NarrowAutonomy = Some n \<and>
         na_MinimumPriorVerifiedRecoveries n \<le> ai_PriorVerifiedRecoveries inp \<and>
         1 \<le> ai_AffectedExecutions inp \<and> ai_AffectedExecutions inp \<le> na_MaxAffectedExecutions n \<and>
         na_RollbackRequired n \<and> ai_RollbackReady inp))"
  unfolding EvaluateTechnicalRecoveryAutonomy_def Let_def
  by (cases "Option.bind (ai_Contract inp) c_NarrowAutonomy") (auto simp: technicalFactor_def)

lemma SupportsAutonomousRecovery_rank:
  "technicalEvidenceRank a \<le> technicalEvidenceRank b \<Longrightarrow> SupportsAutonomousRecovery a \<Longrightarrow> SupportsAutonomousRecovery b"
  by (auto simp: technicalEvidenceRank_def SupportsAutonomousRecovery_def split: if_split_asm)

definition technical_level :: "contract \<Rightarrow> string \<Rightarrow> int" where
  "technical_level c failure =
     (case map_of (tf_Autonomy (c_Technical c)) (if failure = ''stalled_node'' then ''stalledNode'' else ''terminalNodeFailure'') of
        Some l \<Rightarrow> l | None \<Rightarrow> c_AutonomyLevel c)"

lemma resolved_technical_level:
  "ap_Level (ResolveRecoveryAutonomyProfile (Some c) \<lparr>fc_Kind = ''technical'', fc_Failure = f, fc_DetectorID = d\<rparr>) = Some (technical_level c f)"
  by (simp add: ResolveRecoveryAutonomyProfile_def technical_level_def Let_def split: option.split)

lemma technical_level_capped:
  "ValidateRecoveryContract (Some c) = [] \<Longrightarrow> technical_level c f \<le> c_AutonomyLevel c"
  using resolved_level_capped resolved_technical_level by blast

definition runtime_ready :: "contract \<Rightarrow> autonomy_input \<Rightarrow> bool" where
  "runtime_ready c inp \<longleftrightarrow> technical_level c (ai_Failure inp) = 4 \<and>
     technicalEvidenceRank (c_MinimumEvidenceLevel c) \<le> technicalEvidenceRank (ParseValidationEvidenceLevel (ai_ValidationEvidenceLevel inp)) \<and>
     (case c_NarrowAutonomy c of
        None \<Rightarrow> False
      | Some n \<Rightarrow> ai_RepairClass inp \<in> set (na_AllowedRepairClasses n) \<and>
          na_MinimumPriorVerifiedRecoveries n \<le> ai_PriorVerifiedRecoveries inp \<and>
          1 \<le> ai_AffectedExecutions inp \<and> ai_AffectedExecutions inp \<le> na_MaxAffectedExecutions n \<and> ai_RollbackReady inp)"

definition justified :: "contract \<Rightarrow> autonomy_input \<Rightarrow> bool" where
  "justified c inp \<longleftrightarrow> c_AutonomyLevel c = 4 \<and> c_ProductionMutation c = ''autonomous_level_4'' \<and>
     SupportsAutonomousRecovery (ParseValidationEvidenceLevel (ai_ValidationEvidenceLevel inp)) \<and>
     ai_RepairClass inp \<in> set (c_RepairsAllowed c) \<and> ai_RepairClass inp \<noteq> [] \<and> 1 \<le> ai_PriorVerifiedRecoveries inp \<and>
     ai_AffectedExecutions inp \<le> 100 \<and> receipts_ready (Some c)"

lemma runtime_ready_justified:
  assumes "ValidateRecoveryContract (Some c) = []" "runtime_ready c inp"
  shows "justified c inp \<and> (\<exists>n. c_NarrowAutonomy c = Some n \<and> na_RollbackRequired n)"
proof -
  have "technical_level c (ai_Failure inp) \<le> c_AutonomyLevel c" using technical_level_capped assms(1) .
  moreover have "c_AutonomyLevel c \<le> 4"
    using assms(1) by (simp add: accepted_sections validateRecoveryAutonomy_def isAutonomyLevel_def RecoveryAutonomyMax_def)
  ultimately have level: "c_AutonomyLevel c = 4" using assms(2) by (simp add: runtime_ready_def)
  obtain n where n: "c_NarrowAutonomy c = Some n" "na_RollbackRequired n" "1 \<le> na_MinimumPriorVerifiedRecoveries n"
    "na_MaxAffectedExecutions n \<le> 100" "set (na_AllowedRepairClasses n) \<subseteq> set (c_RepairsAllowed c)"
    "[] \<notin> set (c_RepairsAllowed c)" "c_ProductionMutation c = ''autonomous_level_4''"
    "SupportsAutonomousRecovery (c_MinimumEvidenceLevel c)" "receipts_ready (Some c)"
    using accepted_level_4 [OF assms(1) level] by metis
  have "SupportsAutonomousRecovery (ParseValidationEvidenceLevel (ai_ValidationEvidenceLevel inp))"
    by (rule SupportsAutonomousRecovery_rank [OF _ n(8)]) (use assms(2) in \<open>simp add: runtime_ready_def\<close>)
  moreover have "ai_RepairClass inp \<in> set (c_RepairsAllowed c)" "1 \<le> ai_PriorVerifiedRecoveries inp" "ai_AffectedExecutions inp \<le> 100"
    using assms(2) n(1,3,4,5) by (auto simp: runtime_ready_def)
  ultimately show ?thesis using n level by (auto simp: justified_def)
qed

text \<open>
  C16: autonomous apply is granted exactly on the runtime evidence, and only under a level 4 contract.
  For an accepted contract the seven gates reduce to the level of the failure, the rank of the
  evidence, the repair class, the prior recoveries, the affected executions and a rollback; the gates on
  the mutation policy and on the effects add nothing, because acceptance implies them. An eligible
  repair is therefore within the contract: level 4 throughout, evidence that exercised the provider, a
  class the contract allows, at most a hundred executions, and effects that are idempotent with
  receipts that are not manual.
\<close>

theorem eligible_exact:
  assumes "ai_Contract inp = Some c" "ValidateRecoveryContract (Some c) = []"
  shows "aa_Eligible (EvaluateTechnicalRecoveryAutonomy inp) = runtime_ready c inp \<and> (runtime_ready c inp \<longrightarrow> justified c inp)"
proof -
  have "runtime_ready c inp" if "aa_Eligible (EvaluateTechnicalRecoveryAutonomy inp)"
    using that assms(1) by (simp add: eligible_iff Let_def runtime_ready_def policy_ready_def resolved_technical_level
      repair_ready_def evidence_ready_def split: option.split_asm)
  moreover have "aa_Eligible (EvaluateTechnicalRecoveryAutonomy inp)" if "runtime_ready c inp"
    using that runtime_ready_justified [OF assms(2) that] assms(1)
    by (auto simp: eligible_iff Let_def runtime_ready_def justified_def policy_ready_def resolved_technical_level
      repair_ready_def evidence_ready_def)
  ultimately show ?thesis using runtime_ready_justified [OF assms(2)] by blast
qed

section \<open>Repairs\<close>
















section \<open>A level 4 contract\<close>

definition narrow_bounds :: narrow_autonomy where
  "narrow_bounds = \<lparr>na_AllowedRepairClasses = [''retry''], na_MinimumPriorVerifiedRecoveries = 3,
     na_MaxAffectedExecutions = 10, na_RollbackRequired = True\<rparr>"

definition level_4_contract :: contract where
  "level_4_contract = \<lparr>c_Version = ''1'',
     c_Technical = \<lparr>tf_TerminalNodeFailure = True, tf_StalledNode = True, tf_Autonomy = [(''stalledNode'', 2)]\<rparr>,
     c_Semantic = \<lparr>sf_Mode = ''disabled'', sf_Detectors = [], sf_EvaluationFixtures = []\<rparr>,
     c_EvidenceRequired = [''failure_snapshot'', ''audit_trail'', ''terminal_outcome'', ''validation_receipt'', ''effect_receipt''],
     c_Effects = [\<lparr>ef_NodeID = ''pay'', ef_Kind = ''external_write'', ef_Idempotency = ''required'', ef_Receipt = ''provider''\<rparr>],
     c_RepairsAllowed = [''retry'', ''rollback''], c_MinimumEvidenceLevel = ''provider_simulated'',
     c_ProductionMutation = ''autonomous_level_4'', c_Permission = ''recovery.write'', c_AutonomyLevel = 4,
     c_NarrowAutonomy = Some narrow_bounds, c_VerificationKind = ''generation_bound_terminal_success'', c_RecurrenceWindowDays = 7\<rparr>"

lemma level_4_accepted: "ValidateRecoveryContract (Some level_4_contract) = []"
  by code_simp

definition canary_repair :: autonomy_input where
  "canary_repair = \<lparr>ai_Contract = Some level_4_contract, ai_Failure = ''terminal_node_failure'', ai_RepairClass = ''retry'',
     ai_ValidationEvidenceLevel = ''live_canary'', ai_PriorVerifiedRecoveries = 5, ai_AffectedExecutions = 10, ai_RollbackReady = True\<rparr>"

theorem autonomy_capped_witness:
  "case ap_Level (CombineRecoveryAutonomyProfiles (map (ResolveRecoveryAutonomyProfile (Some level_4_contract))
       [\<lparr>fc_Kind = ''technical'', fc_Failure = ''stalled_node'', fc_DetectorID = []\<rparr>,
        \<lparr>fc_Kind = ''technical'', fc_Failure = ''terminal_node_failure'', fc_DetectorID = []\<rparr>])) of
     None \<Rightarrow> False | Some l \<Rightarrow> l \<le> c_AutonomyLevel level_4_contract"
proof -
  let ?classes = "[\<lparr>fc_Kind = ''technical'', fc_Failure = ''stalled_node'', fc_DetectorID = []\<rparr>,
    \<lparr>fc_Kind = ''technical'', fc_Failure = ''terminal_node_failure'', fc_DetectorID = []\<rparr>]"
  have "ap_Level (CombineRecoveryAutonomyProfiles (map (ResolveRecoveryAutonomyProfile (Some level_4_contract)) ?classes)) = Some 2"
    by code_simp
  with autonomy_capped [OF level_4_accepted, of ?classes] show ?thesis by (simp only: option.case)
qed

theorem eligible_exact_witness:
  "aa_Eligible (EvaluateTechnicalRecoveryAutonomy canary_repair) \<and> justified level_4_contract canary_repair"
proof -
  have "runtime_ready level_4_contract canary_repair" by code_simp
  moreover have "ai_Contract canary_repair = Some level_4_contract" by (simp add: canary_repair_def)
  ultimately show ?thesis using eligible_exact [OF _ level_4_accepted, of canary_repair] by simp
qed





end
