(* ===== verification/Cases.thy ===== *)
theory Cases
  imports Lifecycle RecoveryPolicy Scrub
begin

text \<open>
  Recovery cases: the lifecycle and receipts of \<^verbatim>\<open>internal/domain/recoverycase.go\<close>, the tables of cases,
  receipts, artifacts and approval grants with the statements on them, and the
  operations of \<^verbatim>\<open>engine/recoverycases.go\<close> and \<^verbatim>\<open>recoverygovernance.go\<close>. Operations take the reading of the
  clock as an argument, in milliseconds; an operation that fails rolls back, so the tables stay as they
  were. SHA-256 and the JSON encoder are library arguments; the hash of a payload is taken of its text.
\<close>

section \<open>Lifecycle\<close>

definition RecoveryCaseStates :: "string list" where
  "RecoveryCaseStates = [''detected'', ''contained'', ''diagnosed'', ''candidates_ready'', ''validating'', ''awaiting_approval'',
     ''publishing'', ''monitoring'', ''verified_recovered'', ''recurred'', ''accepted_loss'', ''abandoned'']"

definition RecoveryCaseActorKinds :: "string list" where
  "RecoveryCaseActorKinds = [''system'', ''user'', ''agent'']"

definition RecoveryCaseArtifactKinds :: "string list" where
  "RecoveryCaseArtifactKinds = [''diagnosis'', ''candidate'', ''validation'', ''publication'', ''verification'']"

definition RecoveryCaseTerminalStates :: "string list" where
  "RecoveryCaseTerminalStates = [''verified_recovered'', ''recurred'', ''accepted_loss'', ''abandoned'']"

definition legalRecoveryCaseTransitions :: "(string \<times> string list) list" where
  "legalRecoveryCaseTransitions =
     [(''detected'', [''contained'', ''diagnosed'', ''accepted_loss'', ''abandoned'']),
      (''contained'', [''diagnosed'', ''accepted_loss'', ''abandoned'']),
      (''diagnosed'', [''candidates_ready'', ''accepted_loss'', ''abandoned'']),
      (''candidates_ready'', [''validating'', ''accepted_loss'', ''abandoned'']),
      (''validating'', [''candidates_ready'', ''awaiting_approval'', ''accepted_loss'', ''abandoned'']),
      (''awaiting_approval'', [''candidates_ready'', ''publishing'', ''accepted_loss'', ''abandoned'']),
      (''publishing'', [''monitoring'', ''abandoned'']),
      (''monitoring'', [''verified_recovered'', ''recurred'', ''accepted_loss'', ''abandoned'']),
      (''verified_recovered'', []), (''recurred'', []), (''accepted_loss'', []), (''abandoned'', [])]"

definition IsLegalRecoveryCaseTransition :: "string \<Rightarrow> string \<Rightarrow> bool" where
  "IsLegalRecoveryCaseTransition a b = (case map_of legalRecoveryCaseTransitions a of None \<Rightarrow> False | Some bs \<Rightarrow> b \<in> set bs)"

definition IsRecoveryCaseState :: "string \<Rightarrow> bool" where
  "IsRecoveryCaseState s \<longleftrightarrow> map_of legalRecoveryCaseTransitions s \<noteq> None"

definition RecoveryCaseEvidenceKinds :: "string list" where
  "RecoveryCaseEvidenceKinds = [''run'', ''run_node'', ''run_event'', ''semantic_detector'', ''dead_letter'', ''validation'',
     ''publication'', ''effect'', ''audit'', ''operator_decision'', ''case_artifact'']"

record evidence_ref =
  er_Kind :: string
  er_ID :: string
  er_Sha256 :: string

record transition_receipt =
  rp_CaseID :: string
  rp_From :: string
  rp_To :: string
  rp_ActorKind :: string
  rp_ActorID :: string
  rp_Evidence :: "evidence_ref list"
  rp_Reason :: string

datatype receipt_problem =
    UnknownCaseState
  | IllegalTransition string string
  | UnknownActorKind
  | ActorIDRequired
  | EvidenceCount
  | UnknownEvidenceKind string
  | EvidenceID
  | EvidenceSha256
  | ReasonLength
  | CaseIDLength

definition isHex64 :: "string \<Rightarrow> bool" where
  "isHex64 v \<longleftrightarrow> length v = 64 \<and> list_all (\<lambda>c. digit c \<or> 97 \<le> (of_char c :: nat) \<and> (of_char c :: nat) \<le> 102) v"

definition evidence_problems :: "evidence_ref \<Rightarrow> receipt_problem list" where
  "evidence_problems e =
     (if er_Kind e \<notin> set RecoveryCaseEvidenceKinds then [UnknownEvidenceKind (er_Kind e)] else []) @
     (if er_ID e = [] \<or> length (er_ID e) > 500 then [EvidenceID] else []) @
     (if er_Sha256 e \<noteq> [] \<and> \<not> isHex64 (er_Sha256 e) then [EvidenceSha256] else [])"

definition ValidateRecoveryCaseTransitionReceipt :: "transition_receipt \<Rightarrow> receipt_problem list" where
  "ValidateRecoveryCaseTransitionReceipt r =
     (if \<not> IsRecoveryCaseState (rp_From r) \<or> \<not> IsRecoveryCaseState (rp_To r) then [UnknownCaseState]
      else if \<not> IsLegalRecoveryCaseTransition (rp_From r) (rp_To r) then [IllegalTransition (rp_From r) (rp_To r)] else []) @
     (if rp_ActorKind r \<notin> set RecoveryCaseActorKinds then [UnknownActorKind]
      else if rp_ActorKind r \<noteq> ''system'' \<and> rp_ActorID r = [] then [ActorIDRequired] else []) @
     (if length (rp_Evidence r) < 1 \<or> length (rp_Evidence r) > 100 then [EvidenceCount] else []) @
     concat (map evidence_problems (rp_Evidence r)) @
     (if RuneCount (rp_Reason r) > 1000 then [ReasonLength] else []) @
     (if rp_CaseID r = [] \<or> length (rp_CaseID r) > 200 then [CaseIDLength] else [])"

section \<open>Tables\<close>

text \<open>
  Columns no operation here reads back are left out (details, creators, creation and update times).
  The payload column is \<^verbatim>\<open>jsonb\<close>, so it holds a decoded value. A statement that breaks a primary key or a
  \<^verbatim>\<open>CHECK\<close> of the schema fails, which is \<^const>\<open>None\<close>.
\<close>

record case_row =
  rc_ID :: string
  rc_OrgID :: string
  rc_RunID :: string
  rc_WorkflowID :: "string option"
  rc_WorkflowVersionID :: string
  rc_Source :: string
  rc_DetectorID :: string
  rc_SourceNodeID :: string
  rc_DetectorKind :: string
  rc_Action :: string
  rc_Message :: string
  rc_State :: string
  rc_Revision :: int
  rc_ResolvedAt :: "int option"

record transition_row =
  tr_ID :: string
  tr_OrgID :: string
  tr_Receipt :: transition_receipt
  tr_OccurredAt :: int

record artifact_row =
  at_ID :: string
  at_OrgID :: string
  at_CaseID :: string
  at_Kind :: string
  at_Payload :: json
  at_Sha256 :: string
  at_ActorKind :: string
  at_ActorID :: string
  at_CreatedAt :: int

record grant_row =
  gr_ID :: string
  gr_OrgID :: string
  gr_CaseID :: string
  gr_Candidate :: string
  gr_Validation :: string
  gr_CaseRevision :: int
  gr_GrantedBy :: string
  gr_ExpiresAt :: int
  gr_ConsumedAt :: "int option"
  gr_ConsumedBy :: "string option"
  gr_RevokedAt :: "int option"
  gr_CreatedAt :: int

record plane =
  pl_Cases :: "case_row list"
  pl_Transitions :: "transition_row list"
  pl_Artifacts :: "artifact_row list"
  pl_Grants :: "grant_row list"
  pl_Audit :: "(string \<times> string) list"

section \<open>Statements\<close>

definition GetRecoveryCase :: "string \<Rightarrow> string \<Rightarrow> plane \<Rightarrow> case_row option" where
  "GetRecoveryCase org cid p = find (\<lambda>c. rc_OrgID c = org \<and> rc_ID c = cid) (pl_Cases p)"

text \<open>A conflict on organisation, run and detector keeps the row that is there.\<close>

definition InsertRecoveryCaseRow :: "case_row \<Rightarrow> plane \<Rightarrow> plane option" where
  "InsertRecoveryCaseRow c p =
     (if rc_Action c \<notin> {''observe'', ''quarantine''} \<or> rc_State c \<notin> set RecoveryCaseStates then None
      else if list_ex (\<lambda>d. rc_OrgID d = rc_OrgID c \<and> rc_RunID d = rc_RunID c \<and> rc_DetectorID d = rc_DetectorID c) (pl_Cases p) then Some p
      else if list_ex (\<lambda>d. rc_ID d = rc_ID c) (pl_Cases p) then None
      else Some (p\<lparr>pl_Cases := pl_Cases p @ [c]\<rparr>))"

definition move_row :: "string \<Rightarrow> int option \<Rightarrow> case_row \<Rightarrow> case_row" where
  "move_row to resolved c = c\<lparr>rc_State := to, rc_Revision := rc_Revision c + 1,
     rc_ResolvedAt := (if resolved = None then rc_ResolvedAt c else resolved)\<rparr>"

definition TransitionRecoveryCaseState :: "string \<Rightarrow> string \<Rightarrow> string \<Rightarrow> string \<Rightarrow> int option \<Rightarrow> plane \<Rightarrow> nat \<times> plane" where
  "TransitionRecoveryCaseState org cid to frm resolved p =
     (let P = (\<lambda>c. rc_OrgID c = org \<and> rc_ID c = cid \<and> rc_State c = frm) in
      (length (filter P (pl_Cases p)), p\<lparr>pl_Cases := map (\<lambda>c. if P c then move_row to resolved c else c) (pl_Cases p)\<rparr>))"

definition AdvanceRecoveryCaseStateAtRevision ::
    "string \<Rightarrow> string \<Rightarrow> string \<Rightarrow> string \<Rightarrow> int \<Rightarrow> int option \<Rightarrow> plane \<Rightarrow> (case_row \<times> plane) option" where
  "AdvanceRecoveryCaseStateAtRevision org cid to frm revision resolved p =
     (let P = (\<lambda>c. rc_OrgID c = org \<and> rc_ID c = cid \<and> rc_State c = frm \<and> rc_Revision c = revision) in
      case find P (pl_Cases p) of
        None \<Rightarrow> None
      | Some c \<Rightarrow> Some (move_row to resolved c,
          p\<lparr>pl_Cases := map (\<lambda>c. if P c then move_row to resolved c else c) (pl_Cases p)\<rparr>))"

definition InsertRecoveryCaseTransition :: "transition_row \<Rightarrow> plane \<Rightarrow> nat \<times> plane" where
  "InsertRecoveryCaseTransition t p = (if list_ex (\<lambda>u. tr_ID u = tr_ID t) (pl_Transitions p) then (0, p)
     else (1, p\<lparr>pl_Transitions := pl_Transitions p @ [t]\<rparr>))"

definition GetLatestRecoveryCaseTransitionAt :: "string \<Rightarrow> string \<Rightarrow> plane \<Rightarrow> int" where
  "GetLatestRecoveryCaseTransitionAt org cid p =
     (let ts = map tr_OccurredAt (filter (\<lambda>t. tr_OrgID t = org \<and> rp_CaseID (tr_Receipt t) = cid) (pl_Transitions p)) in
      if ts = [] then 0 else Max (set ts))"

text \<open>Artifacts are addressed by their content: an equal one of the case is returned as it is.\<close>

definition InsertRecoveryCaseArtifact :: "artifact_row \<Rightarrow> plane \<Rightarrow> (artifact_row \<times> plane) option" where
  "InsertRecoveryCaseArtifact a p =
     (if at_Kind a \<notin> set RecoveryCaseArtifactKinds \<or> \<not> isHex64 (at_Sha256 a) then None
      else case find (\<lambda>b. at_OrgID b = at_OrgID a \<and> at_CaseID b = at_CaseID a \<and> at_Kind b = at_Kind a \<and> at_Sha256 b = at_Sha256 a) (pl_Artifacts p) of
        Some b \<Rightarrow> Some (b, p)
      | None \<Rightarrow> if list_ex (\<lambda>b. at_ID b = at_ID a) (pl_Artifacts p) then None
                else Some (a, p\<lparr>pl_Artifacts := pl_Artifacts p @ [a]\<rparr>))"

definition GetRecoveryCaseArtifact :: "string \<Rightarrow> string \<Rightarrow> string \<Rightarrow> plane \<Rightarrow> artifact_row option" where
  "GetRecoveryCaseArtifact org cid aid p = find (\<lambda>a. at_OrgID a = org \<and> at_CaseID a = cid \<and> at_ID a = aid) (pl_Artifacts p)"

definition grant_open :: "grant_row \<Rightarrow> bool" where
  "grant_open g \<longleftrightarrow> gr_ConsumedAt g = None \<and> gr_RevokedAt g = None"

definition RevokeRecoveryApprovalGrants :: "int \<Rightarrow> string \<Rightarrow> string \<Rightarrow> plane \<Rightarrow> plane option" where
  "RevokeRecoveryApprovalGrants tm org cid p =
     (let P = (\<lambda>g. gr_OrgID g = org \<and> gr_CaseID g = cid \<and> grant_open g) in
      if list_ex (\<lambda>g. P g \<and> tm < gr_CreatedAt g) (pl_Grants p) then None
      else Some (p\<lparr>pl_Grants := map (\<lambda>g. if P g then g\<lparr>gr_RevokedAt := Some tm\<rparr> else g) (pl_Grants p)\<rparr>))"

definition InsertRecoveryApprovalGrant :: "grant_row \<Rightarrow> plane \<Rightarrow> plane option" where
  "InsertRecoveryApprovalGrant g p =
     (if list_ex (\<lambda>h. gr_ID h = gr_ID g) (pl_Grants p) \<or> gr_CaseRevision g \<le> 0 \<or> gr_ExpiresAt g \<noteq> gr_CreatedAt g + 1800000 then None
      else Some (p\<lparr>pl_Grants := pl_Grants p @ [g]\<rparr>))"

definition WriteAudit :: "string \<Rightarrow> string \<Rightarrow> plane \<Rightarrow> plane" where
  "WriteAudit action target p = p\<lparr>pl_Audit := pl_Audit p @ [(action, target)]\<rparr>"

section \<open>Identifiers and artifacts\<close>

record case_library = persist_library +
  cl_Sha256Hex :: "string \<Rightarrow> string"

fun join_zero :: "string list \<Rightarrow> string" where
  "join_zero [] = []"
| "join_zero [s] = s"
| "join_zero (s # t # ts) = s @ [CHR 0x00] @ join_zero (t # ts)"

definition StableSemanticID :: "case_library \<Rightarrow> string \<Rightarrow> string list \<Rightarrow> string" where
  "StableSemanticID lib pre parts = pre @ ''_'' @ take 32 (cl_Sha256Hex lib (join_zero parts))"

definition recoveryArtifactMaxBytes :: int where "recoveryArtifactMaxBytes = 64000"

fun scrub_json :: "json \<Rightarrow> json" where
  "scrub_json (JStr s) = JStr (ScrubSecretShapes s)"
| "scrub_json (JArr xs) = JArr (map scrub_json xs)"
| "scrub_json (JObj m) = JObj (map (\<lambda>(k, v). (k, scrub_json v)) m)"
| "scrub_json v = v"

definition sanitizeRecoveryArtifact :: "case_library \<Rightarrow> json \<Rightarrow> json" where
  "sanitizeRecoveryArtifact lib v = scrub_json (NormalizeJSON (persist_library.truncate lib) v)"

definition truncated :: "case_library \<Rightarrow> string \<Rightarrow> bool" where
  "truncated lib raw = (case pl_Unmarshal lib raw of Some (JObj m) \<Rightarrow> map_of m ''__truncated'' = Some (JBool True) | _ \<Rightarrow> False)"

datatype governance_error =
    ErrRecoverySemanticInputInvalid
  | ErrRecoveryArtifactTooLarge
  | ErrRecoveryCaseNotFound
  | ErrRecoveryCaseConflict
  | ErrRecoveryCaseReceiptGone
  | ErrRecoveryHumanApprovalRequired
  | InvalidReceipt "receipt_problem list"
  | StatementFailed
  | RecoveryPolicyBlocked
  | RecoverySemanticOutput string "violation list"

definition boundedRecoveryArtifact :: "case_library \<Rightarrow> json \<Rightarrow> governance_error + string \<times> string" where
  "boundedRecoveryArtifact lib v =
     (let raw = SafePersistPayload (persist_library.truncate lib) (sanitizeRecoveryArtifact lib v)
        \<lparr>po_RedactedValues = [], po_MaxBytes = recoveryArtifactMaxBytes\<rparr> in
      if truncated lib raw then Err ErrRecoveryArtifactTooLarge else Ok (raw, cl_Sha256Hex lib raw))"

text \<open>
  The row of an artifact: its id is made of the case, the kind and the hash. The text goes into a \<^verbatim>\<open>jsonb\<close>
  column, so it has to be JSON.
\<close>

definition insert_artifact ::
    "case_library \<Rightarrow> string \<Rightarrow> string \<Rightarrow> string \<Rightarrow> string \<Rightarrow> string \<Rightarrow> string \<times> string \<Rightarrow> int \<Rightarrow> plane \<Rightarrow> (artifact_row \<times> plane) option" where
  "insert_artifact lib org cid kind actorKind actorID rawHash createdAt p =
     (let (raw, hash) = rawHash in
      case pl_Unmarshal lib raw of
        None \<Rightarrow> None
      | Some v \<Rightarrow> InsertRecoveryCaseArtifact
          \<lparr>at_ID = StableSemanticID lib ''rca'' [cid, kind, hash], at_OrgID = org, at_CaseID = cid, at_Kind = kind,
           at_Payload = v, at_Sha256 = hash, at_ActorKind = actorKind, at_ActorID = actorID, at_CreatedAt = createdAt\<rparr> p)"

section \<open>Opening a case\<close>

definition semanticRecoveryCaseSource :: string where "semanticRecoveryCaseSource = ''semantic_violation''"

record case_input =
  ci_OrgID :: string
  ci_RunID :: string
  ci_WorkflowID :: string
  ci_WorkflowVersionID :: string
  ci_Source :: string
  ci_DetectorID :: string
  ci_SourceNodeID :: string
  ci_DetectorKind :: string
  ci_Action :: string
  ci_Message :: string

definition CreateRecoveryCase :: "case_library \<Rightarrow> case_input \<Rightarrow> plane \<Rightarrow> governance_error + string \<times> plane" where
  "CreateRecoveryCase lib i p =
     (let cid = StableSemanticID lib ''sem'' [ci_OrgID i, ci_RunID i, ci_DetectorID i] in
      case InsertRecoveryCaseRow \<lparr>rc_ID = cid, rc_OrgID = ci_OrgID i, rc_RunID = ci_RunID i,
             rc_WorkflowID = (if ci_WorkflowID i = [] then None else Some (ci_WorkflowID i)),
             rc_WorkflowVersionID = ci_WorkflowVersionID i, rc_Source = ci_Source i, rc_DetectorID = ci_DetectorID i,
             rc_SourceNodeID = ci_SourceNodeID i, rc_DetectorKind = ci_DetectorKind i, rc_Action = ci_Action i,
             rc_Message = ci_Message i, rc_State = ''detected'', rc_Revision = 1, rc_ResolvedAt = None\<rparr> p of
        None \<Rightarrow> Err StatementFailed
      | Some q \<Rightarrow> Ok (cid, q))"

text \<open>
  What a completion writes for one violation: the case, and for a quarantine its containment receipt. The
  receipt's id leaves out the revision, and a receipt that is already there stays.
\<close>

record completion_identity =
  cm_OrgID :: string
  cm_RunID :: string
  cm_NodeID :: string
  cm_WorkflowID :: "string option"
  cm_WorkflowVersionID :: string

definition containment_id :: "case_library \<Rightarrow> string \<Rightarrow> string" where
  "containment_id lib cid = StableSemanticID lib ''sct'' [cid, ''contained'']"

definition containment_receipt :: "completion_identity \<Rightarrow> string \<Rightarrow> string \<Rightarrow> transition_receipt" where
  "containment_receipt m cid detector = \<lparr>rp_CaseID = cid, rp_From = ''detected'', rp_To = ''contained'', rp_ActorKind = ''system'', rp_ActorID = [],
     rp_Evidence = [\<lparr>er_Kind = ''run_node'', er_ID = cm_RunID m @ '':'' @ cm_NodeID m, er_Sha256 = []\<rparr>,
                    \<lparr>er_Kind = ''semantic_detector'', er_ID = detector, er_Sha256 = []\<rparr>],
     rp_Reason = []\<rparr>"

definition open_semantic_case :: "case_library \<Rightarrow> completion_identity \<Rightarrow> violation \<Rightarrow> int \<Rightarrow> plane \<Rightarrow> plane option" where
  "open_semantic_case lib m v finishedAt p =
     (let cid = StableSemanticID lib ''sem'' [cm_OrgID m, cm_RunID m, vi_DetectorID v];
          quarantine = (vi_Action v = ''quarantine'') in
      case InsertRecoveryCaseRow \<lparr>rc_ID = cid, rc_OrgID = cm_OrgID m, rc_RunID = cm_RunID m, rc_WorkflowID = cm_WorkflowID m,
             rc_WorkflowVersionID = cm_WorkflowVersionID m, rc_Source = semanticRecoveryCaseSource, rc_DetectorID = vi_DetectorID v,
             rc_SourceNodeID = vi_SourceNodeID v, rc_DetectorKind = vi_Kind v, rc_Action = vi_Action v, rc_Message = vi_Message v,
             rc_State = (if quarantine then ''contained'' else ''detected''), rc_Revision = 1, rc_ResolvedAt = None\<rparr> p of
        None \<Rightarrow> None
      | Some q \<Rightarrow> Some (if quarantine then snd (InsertRecoveryCaseTransition
            \<lparr>tr_ID = containment_id lib cid, tr_OrgID = cm_OrgID m, tr_Receipt = containment_receipt m cid (vi_DetectorID v),
             tr_OccurredAt = finishedAt\<rparr> q) else q))"

section \<open>One move with its receipt\<close>

text \<open>The id of a receipt: case, edge and revision.\<close>

definition receipt_id :: "case_library \<Rightarrow> transition_receipt \<Rightarrow> int \<Rightarrow> string" where
  "receipt_id lib r revision = StableSemanticID lib ''sct'' [rp_CaseID r, rp_From r, rp_To r, itoa_int revision]"

definition resolved_time :: "string \<Rightarrow> int \<Rightarrow> int option" where
  "resolved_time to tm = (if to \<in> set RecoveryCaseTerminalStates then Some tm else None)"

definition TransitionRecoveryCase :: "case_library \<Rightarrow> string \<Rightarrow> transition_receipt \<Rightarrow> int \<Rightarrow> int \<Rightarrow> plane \<Rightarrow> governance_error + plane" where
  "TransitionRecoveryCase lib org r now dbNow p =
     (let problems = ValidateRecoveryCaseTransitionReceipt r in
      if problems \<noteq> [] then Err (InvalidReceipt problems)
      else case GetRecoveryCase org (rp_CaseID r) p of
        None \<Rightarrow> Err ErrRecoveryCaseNotFound
      | Some current \<Rightarrow> (case RevokeRecoveryApprovalGrants now org (rp_CaseID r) p of
          None \<Rightarrow> Err StatementFailed
        | Some p1 \<Rightarrow>
            let last = GetLatestRecoveryCaseTransitionAt org (rp_CaseID r) p1;
                occurredAt = (if now \<le> last then last + 1 else now);
                (moved, p2) = TransitionRecoveryCaseState org (rp_CaseID r) (rp_To r) (rp_From r) (resolved_time (rp_To r) dbNow) p1 in
            if moved = 0 then Err ErrRecoveryCaseConflict
            else let (inserted, p3) = InsertRecoveryCaseTransition
                   \<lparr>tr_ID = receipt_id lib r (rc_Revision current), tr_OrgID = org, tr_Receipt = r, tr_OccurredAt = occurredAt\<rparr> p2 in
              if inserted = 0 then Err ErrRecoveryCaseReceiptGone else Ok p3))"

text \<open>The governed move: the receipt is validated, the state and the revision are compared and set, the receipt is appended.\<close>

datatype move_error = BadReceipt "receipt_problem list" | CasLost | ReceiptTaken

definition move_with_receipt ::
    "case_library \<Rightarrow> string \<Rightarrow> transition_receipt \<Rightarrow> int \<Rightarrow> int \<Rightarrow> plane \<Rightarrow> move_error + case_row \<times> plane" where
  "move_with_receipt lib org r revision occurredAt p =
     (let problems = ValidateRecoveryCaseTransitionReceipt r in
      if problems \<noteq> [] then Err (BadReceipt problems)
      else case AdvanceRecoveryCaseStateAtRevision org (rp_CaseID r) (rp_To r) (rp_From r) revision (resolved_time (rp_To r) occurredAt) p of
        None \<Rightarrow> Err CasLost
      | Some (moved, p1) \<Rightarrow>
          let (inserted, p2) = InsertRecoveryCaseTransition
                \<lparr>tr_ID = receipt_id lib r revision, tr_OrgID = org, tr_Receipt = r, tr_OccurredAt = occurredAt\<rparr> p1 in
          if inserted = 1 then Ok (moved, p2) else Err ReceiptTaken)"

section \<open>Governed advance\<close>

record auth_context =
  au_OrgID :: string
  au_UserID :: string
  au_Mode :: string
  au_Source :: string
  au_ServiceTokenSuffix :: string

definition recoveryActorKind :: "auth_context \<Rightarrow> string" where
  "recoveryActorKind a = (if au_Source a = ''mcp'' \<or> au_Source a = ''service'' then ''agent'' else ''user'')"

definition actor_missing :: "auth_context option \<Rightarrow> bool" where
  "actor_missing a = (case a of None \<Rightarrow> True | Some c \<Rightarrow> au_OrgID c = [] \<or> au_UserID c = [])"

record transition_step =
  ts_From :: string
  ts_To :: string
  ts_Reason :: string

record advance_input =
  av_Auth :: "auth_context option"
  av_CaseID :: string
  av_ExpectedRevision :: int
  av_Artifacts :: "(string \<times> json) list"
  av_Steps :: "transition_step list"
  av_AuditAction :: string

fun prepare_artifacts :: "case_library \<Rightarrow> (string \<times> json) list \<Rightarrow> governance_error + (string \<times> string \<times> string) list" where
  "prepare_artifacts lib [] = Ok []"
| "prepare_artifacts lib ((kind, payload) # rest) =
     (if kind \<notin> set RecoveryCaseArtifactKinds then Err ErrRecoverySemanticInputInvalid
      else case boundedRecoveryArtifact lib payload of
        Err e \<Rightarrow> Err e
      | Ok rawHash \<Rightarrow> (case prepare_artifacts lib rest of Err e \<Rightarrow> Err e | Ok xs \<Rightarrow> Ok ((kind, rawHash) # xs)))"

fun insert_artifacts ::
    "case_library \<Rightarrow> string \<Rightarrow> string \<Rightarrow> string \<Rightarrow> string \<Rightarrow> int \<Rightarrow> (string \<times> string \<times> string) list \<Rightarrow> plane \<Rightarrow> (artifact_row list \<times> plane) option" where
  "insert_artifacts lib org cid actorKind actorID now [] p = Some ([], p)"
| "insert_artifacts lib org cid actorKind actorID now ((kind, rawHash) # rest) p =
     (case insert_artifact lib org cid kind actorKind actorID rawHash now p of
        None \<Rightarrow> None
      | Some (a, p1) \<Rightarrow> (case insert_artifacts lib org cid actorKind actorID now rest p1 of
          None \<Rightarrow> None | Some (as, p2) \<Rightarrow> Some (a # as, p2)))"

definition step_receipt :: "auth_context \<Rightarrow> string \<Rightarrow> artifact_row list \<Rightarrow> string \<Rightarrow> transition_step \<Rightarrow> transition_receipt" where
  "step_receipt a cid artifacts run s = \<lparr>rp_CaseID = cid, rp_From = ts_From s, rp_To = ts_To s, rp_ActorKind = recoveryActorKind a,
     rp_ActorID = au_UserID a,
     rp_Evidence = \<lparr>er_Kind = ''run'', er_ID = run, er_Sha256 = []\<rparr> #
       map (\<lambda>x. \<lparr>er_Kind = ''case_artifact'', er_ID = at_ID x, er_Sha256 = at_Sha256 x\<rparr>) artifacts,
     rp_Reason = TrimSpace (ts_Reason s)\<rparr>"

text \<open>The loop over the steps, from the one at an index after a previous one: \<^verbatim>\<open>current\<close> is the row the last step returned.\<close>

fun advance_steps ::
    "case_library \<Rightarrow> auth_context \<Rightarrow> string \<Rightarrow> artifact_row list \<Rightarrow> int \<Rightarrow> nat \<Rightarrow> string option \<Rightarrow> case_row \<Rightarrow> int \<Rightarrow> transition_step list \<Rightarrow>
     plane \<Rightarrow> governance_error + case_row \<times> plane" where
  "advance_steps lib a cid artifacts now idx prev current revision [] p = Ok (current, p)"
| "advance_steps lib a cid artifacts now idx prev current revision (s # rest) p =
     (if prev \<noteq> None \<and> prev \<noteq> Some (ts_From s) then Err ErrRecoverySemanticInputInvalid
      else case move_with_receipt lib (au_OrgID a) (step_receipt a cid artifacts (rc_RunID current) s) revision (now + int idx) p of
        Err (BadReceipt problems) \<Rightarrow> Err (InvalidReceipt problems)
      | Err CasLost \<Rightarrow> Err ErrRecoveryCaseConflict
      | Err ReceiptTaken \<Rightarrow> Err ErrRecoveryCaseReceiptGone
      | Ok (moved, p1) \<Rightarrow> advance_steps lib a cid artifacts now (idx + 1) (Some (ts_To s)) moved (rc_Revision moved) rest p1)"

definition step_refused :: "transition_step \<Rightarrow> bool" where
  "step_refused s \<longleftrightarrow> \<not> IsLegalRecoveryCaseTransition (ts_From s) (ts_To s) \<or> TrimSpace (ts_Reason s) = []"

definition AdvanceRecoveryCase ::
    "case_library \<Rightarrow> advance_input \<Rightarrow> int \<Rightarrow> plane \<Rightarrow> governance_error + (case_row \<times> artifact_row list) \<times> plane" where
  "AdvanceRecoveryCase lib i now p =
     (case av_Auth i of None \<Rightarrow> Err ErrRecoverySemanticInputInvalid | Some a \<Rightarrow>
      case av_Steps i of [] \<Rightarrow> Err ErrRecoverySemanticInputInvalid | first # _ \<Rightarrow>
      if actor_missing (Some a) \<or> av_CaseID i = [] \<or> av_ExpectedRevision i < 1 then Err ErrRecoverySemanticInputInvalid
      else if list_ex step_refused (av_Steps i) then Err ErrRecoverySemanticInputInvalid
      else case prepare_artifacts lib (av_Artifacts i) of Err e \<Rightarrow> Err e | Ok prepared \<Rightarrow>
      case GetRecoveryCase (au_OrgID a) (av_CaseID i) p of None \<Rightarrow> Err ErrRecoveryCaseNotFound | Some current \<Rightarrow>
      if rc_Revision current \<noteq> av_ExpectedRevision i \<or> rc_State current \<noteq> ts_From first then Err ErrRecoveryCaseConflict
      else case RevokeRecoveryApprovalGrants now (au_OrgID a) (av_CaseID i) p of None \<Rightarrow> Err StatementFailed | Some p1 \<Rightarrow>
      case insert_artifacts lib (au_OrgID a) (av_CaseID i) (recoveryActorKind a) (au_UserID a) now prepared p1 of
        None \<Rightarrow> Err StatementFailed | Some (artifacts, p2) \<Rightarrow>
      case advance_steps lib a (av_CaseID i) artifacts now 0 None current (rc_Revision current) (av_Steps i) p2 of Err e \<Rightarrow> Err e
      | Ok (final, p3) \<Rightarrow> Ok ((final, artifacts), WriteAudit (av_AuditAction i) (av_CaseID i) p3))"

end
