(* ===== verification/Governance.thy ===== *)
theory Governance
  imports Cases
begin

text \<open>
  The governed road of a recovery case: the payloads of candidates and validations
  (\<^verbatim>\<open>engine/semanticrecovery.go\<close>), approval (\<^verbatim>\<open>recoverygovernance.go\<close>), diagnosis
  (\<^verbatim>\<open>recoverydiagnosis.go\<close>), candidates and validation (\<^verbatim>\<open>recoveryoperations.go\<close>). The second half shows that
  every operation on the tables keeps their invariant, and states as locales what any relation between
  tables has to allow so that all operations keep it.
\<close>

section \<open>Candidate and validation payloads\<close>

text \<open>
  The envelopes decoded strictly from a stored payload. A field that is missing or null reads as its zero
  value, one of another type or of another name refuses the document; \<^verbatim>\<open>nil\<close> of an \<^verbatim>\<open>any\<close> is \<^const>\<open>JNull\<close>. Go also
  matches keys that differ in case, which this program's encoder never writes; here they are unknown.
\<close>

record candidate_target =
  ct_WorkflowID :: string
  ct_WorkflowVersionID :: string
  ct_DetectorID :: string

record candidate_payload =
  sp_Kind :: string
  sp_Decision :: string
  sp_Output :: json
  sp_Target :: "candidate_target option"
  sp_Reason :: string
  sp_Risk :: string
  sp_Evidence :: "evidence_ref list"
  sp_ExpectedResult :: string
  sp_RequiredPermissions :: "string list"

record validation_payload =
  vp_CandidateArtifactID :: string
  vp_CandidateSha256 :: string
  vp_CaseRevision :: int
  vp_Passed :: bool
  vp_Summary :: string

definition string_field :: "string \<Rightarrow> jmap \<Rightarrow> string option" where
  "string_field k m = (case map_of m k of None \<Rightarrow> Some [] | Some JNull \<Rightarrow> Some [] | Some (JStr s) \<Rightarrow> Some s | Some _ \<Rightarrow> None)"

definition bool_field :: "string \<Rightarrow> jmap \<Rightarrow> bool option" where
  "bool_field k m = (case map_of m k of None \<Rightarrow> Some False | Some JNull \<Rightarrow> Some False | Some (JBool b) \<Rightarrow> Some b | Some _ \<Rightarrow> None)"

definition int64_field :: "string \<Rightarrow> jmap \<Rightarrow> int option" where
  "int64_field k m = (case map_of m k of None \<Rightarrow> Some 0 | Some JNull \<Rightarrow> Some 0
     | Some (JNum (Fin x)) \<Rightarrow> if whole x \<and> - (2 ^ 63) \<le> \<lfloor>x\<rfloor> \<and> \<lfloor>x\<rfloor> < 2 ^ 63 then Some \<lfloor>x\<rfloor> else None | Some _ \<Rightarrow> None)"

definition known_fields :: "string list \<Rightarrow> jmap \<Rightarrow> bool" where
  "known_fields ks m \<longleftrightarrow> list_all (\<lambda>(k, v). k \<in> set ks) m"

fun decode_all :: "('a \<Rightarrow> 'b option) \<Rightarrow> 'a list \<Rightarrow> 'b list option" where
  "decode_all f [] = Some []"
| "decode_all f (x # xs) = (case (f x, decode_all f xs) of (Some y, Some ys) \<Rightarrow> Some (y # ys) | _ \<Rightarrow> None)"

definition list_field :: "(json \<Rightarrow> 'b option) \<Rightarrow> string \<Rightarrow> jmap \<Rightarrow> 'b list option" where
  "list_field f k m = (case map_of m k of None \<Rightarrow> Some [] | Some JNull \<Rightarrow> Some [] | Some (JArr xs) \<Rightarrow> decode_all f xs | Some _ \<Rightarrow> None)"

fun decode_string :: "json \<Rightarrow> string option" where
  "decode_string (JStr s) = Some s"
| "decode_string JNull = Some []"
| "decode_string _ = None"

fun decode_evidence :: "json \<Rightarrow> evidence_ref option" where
  "decode_evidence (JObj m) = (if \<not> known_fields [''kind'', ''id'', ''sha256''] m then None
     else case (string_field ''kind'' m, string_field ''id'' m, string_field ''sha256'' m) of
       (Some k, Some i, Some h) \<Rightarrow> Some \<lparr>er_Kind = k, er_ID = i, er_Sha256 = h\<rparr> | _ \<Rightarrow> None)"
| "decode_evidence JNull = Some \<lparr>er_Kind = [], er_ID = [], er_Sha256 = []\<rparr>"
| "decode_evidence _ = None"

definition decode_target :: "jmap \<Rightarrow> candidate_target option option" where
  "decode_target m = (case map_of m ''target'' of None \<Rightarrow> Some None | Some JNull \<Rightarrow> Some None
     | Some (JObj t) \<Rightarrow> if \<not> known_fields [''workflowId'', ''workflowVersionId'', ''detectorId''] t then None
         else (case (string_field ''workflowId'' t, string_field ''workflowVersionId'' t, string_field ''detectorId'' t) of
           (Some w, Some v, Some d) \<Rightarrow> Some (Some \<lparr>ct_WorkflowID = w, ct_WorkflowVersionID = v, ct_DetectorID = d\<rparr>) | _ \<Rightarrow> None)
     | Some _ \<Rightarrow> None)"

fun decode_candidate :: "json \<Rightarrow> candidate_payload option" where
  "decode_candidate (JObj m) =
     (if \<not> known_fields [''kind'', ''decision'', ''output'', ''target'', ''reason'', ''risk'', ''evidence'', ''expectedResult'', ''requiredPermissions''] m then None
      else case (string_field ''kind'' m, string_field ''decision'' m, decode_target m, string_field ''reason'' m, string_field ''risk'' m,
                 list_field decode_evidence ''evidence'' m, string_field ''expectedResult'' m, list_field decode_string ''requiredPermissions'' m) of
        (Some k, Some d, Some t, Some r, Some ri, Some ev, Some ex, Some pm) \<Rightarrow>
          Some \<lparr>sp_Kind = k, sp_Decision = d, sp_Output = (case map_of m ''output'' of None \<Rightarrow> JNull | Some v \<Rightarrow> v), sp_Target = t,
            sp_Reason = r, sp_Risk = ri, sp_Evidence = ev, sp_ExpectedResult = ex, sp_RequiredPermissions = pm\<rparr>
      | _ \<Rightarrow> None)"
| "decode_candidate JNull = Some \<lparr>sp_Kind = [], sp_Decision = [], sp_Output = JNull, sp_Target = None, sp_Reason = [], sp_Risk = [],
     sp_Evidence = [], sp_ExpectedResult = [], sp_RequiredPermissions = []\<rparr>"
| "decode_candidate _ = None"

definition isLowerHexSha256 :: "string \<Rightarrow> bool" where
  "isLowerHexSha256 v \<longleftrightarrow> length v = 64 \<and> list_all (\<lambda>c. digit c \<or> 97 \<le> (of_char c :: nat) \<and> (of_char c :: nat) \<le> 102) v"

definition currentRecoveryValidation :: "int \<Rightarrow> int \<Rightarrow> bool" where
  "currentRecoveryValidation validationRevision caseRevision \<longleftrightarrow> caseRevision > 2 \<and> validationRevision = caseRevision - 2"

definition validSemanticRecoveryCandidateEnvelope :: "candidate_payload \<Rightarrow> bool" where
  "validSemanticRecoveryCandidateEnvelope c \<longleftrightarrow>
     TrimSpace (sp_Reason c) \<noteq> [] \<and> RuneCount (sp_Reason c) \<le> 1000 \<and>
     TrimSpace (sp_ExpectedResult c) \<noteq> [] \<and> RuneCount (sp_ExpectedResult c) \<le> 500 \<and>
     sp_Risk c \<in> {''low'', ''medium'', ''high''} \<and>
     0 < length (sp_RequiredPermissions c) \<and> length (sp_RequiredPermissions c) \<le> 4 \<and>
     0 < length (sp_Evidence c) \<and> length (sp_Evidence c) \<le> 20 \<and>
     list_all (\<lambda>x. x = ''recovery.write'' \<or> x = ''workflows.write'') (sp_RequiredPermissions c) \<and> distinct (sp_RequiredPermissions c) \<and>
     ''recovery.write'' \<in> set (sp_RequiredPermissions c) \<and>
     (sp_Kind c \<in> {''repair_workflow'', ''adjust_detector''} \<longrightarrow> ''workflows.write'' \<in> set (sp_RequiredPermissions c)) \<and>
     list_all (\<lambda>e. er_Kind e \<in> set RecoveryCaseEvidenceKinds \<and> er_ID e \<noteq> [] \<and> length (er_ID e) \<le> 500 \<and>
       (er_Sha256 e = [] \<or> isLowerHexSha256 (er_Sha256 e))) (sp_Evidence c)"

definition follow_up_target_ok :: "candidate_payload \<Rightarrow> candidate_target \<Rightarrow> bool" where
  "follow_up_target_ok c t \<longleftrightarrow> ct_WorkflowID t \<noteq> [] \<and> ct_WorkflowVersionID t \<noteq> [] \<and> RuneCount (ct_WorkflowID t) \<le> 200 \<and>
     RuneCount (ct_WorkflowVersionID t) \<le> 200 \<and> RuneCount (ct_DetectorID t) \<le> 200 \<and>
     (sp_Kind c = ''repair_workflow'' \<and> ct_DetectorID t = [] \<or> sp_Kind c = ''adjust_detector'' \<and> ct_DetectorID t \<noteq> [])"

definition ParseSemanticRecoveryCandidatePayload :: "json \<Rightarrow> candidate_payload option" where
  "ParseSemanticRecoveryCandidatePayload v = (case decode_candidate v of
     None \<Rightarrow> None
   | Some c \<Rightarrow>
       if \<not> validSemanticRecoveryCandidateEnvelope c then None
       else if sp_Decision c = ''accept_loss'' then
         (if sp_Kind c \<noteq> ''accept_loss'' \<or> sp_Output c \<noteq> JNull \<or> sp_Target c \<noteq> None then None else Some c)
       else if sp_Decision c = ''replace'' then (if sp_Kind c \<noteq> ''replace_output'' \<or> sp_Target c \<noteq> None then None else Some c)
       else if sp_Decision c = ''manual_follow_up'' then
         (case sp_Target c of None \<Rightarrow> None | Some t \<Rightarrow> if sp_Output c \<noteq> JNull \<or> \<not> follow_up_target_ok c t then None else Some c)
       else None)"

definition validation_fields :: "string list" where
  "validation_fields = [''candidateArtifactId'', ''candidateSha256'', ''caseRevision'', ''passed'', ''summary'']"

fun ParseSemanticRecoveryValidationPayload :: "json \<Rightarrow> validation_payload option" where
  "ParseSemanticRecoveryValidationPayload (JObj m) =
     (if length m \<noteq> 5 \<or> \<not> list_all (\<lambda>k. map_of m k \<noteq> None) validation_fields then None
      else case (string_field ''candidateArtifactId'' m, string_field ''candidateSha256'' m, int64_field ''caseRevision'' m,
                 bool_field ''passed'' m, string_field ''summary'' m) of
        (Some c, Some h, Some r, Some b, Some s) \<Rightarrow>
          if TrimSpace c = [] \<or> length c > 256 \<or> \<not> isLowerHexSha256 h \<or> r < 1 \<or> TrimSpace s = [] \<or> RuneCount s > 500 then None
          else Some \<lparr>vp_CandidateArtifactID = c, vp_CandidateSha256 = h, vp_CaseRevision = r, vp_Passed = b, vp_Summary = s\<rparr>
      | _ \<Rightarrow> None)"
| "ParseSemanticRecoveryValidationPayload _ = None"

text \<open>The encoders of the two envelopes and of evidence references.\<close>

definition omit_empty :: "string \<Rightarrow> string \<Rightarrow> jmap" where
  "omit_empty k s = (if s = [] then [] else [(k, JStr s)])"

definition encode_evidence :: "evidence_ref \<Rightarrow> json" where
  "encode_evidence e = JObj ([(''kind'', JStr (er_Kind e)), (''id'', JStr (er_ID e))] @ omit_empty ''sha256'' (er_Sha256 e))"

definition encode_candidate :: "candidate_payload \<Rightarrow> json" where
  "encode_candidate c = JObj ([(''kind'', JStr (sp_Kind c)), (''decision'', JStr (sp_Decision c))] @
     (if sp_Output c = JNull then [] else [(''output'', sp_Output c)]) @
     (case sp_Target c of None \<Rightarrow> [] | Some t \<Rightarrow> [(''target'', JObj (omit_empty ''workflowId'' (ct_WorkflowID t) @
        omit_empty ''workflowVersionId'' (ct_WorkflowVersionID t) @ omit_empty ''detectorId'' (ct_DetectorID t)))]) @
     [(''reason'', JStr (sp_Reason c)), (''risk'', JStr (sp_Risk c)), (''evidence'', JArr (map encode_evidence (sp_Evidence c))),
      (''expectedResult'', JStr (sp_ExpectedResult c)), (''requiredPermissions'', JArr (map JStr (sp_RequiredPermissions c)))])"

definition encode_validation :: "validation_payload \<Rightarrow> json" where
  "encode_validation v = JObj [(''candidateArtifactId'', JStr (vp_CandidateArtifactID v)), (''candidateSha256'', JStr (vp_CandidateSha256 v)),
     (''caseRevision'', JNum (Fin (of_int (vp_CaseRevision v)))), (''passed'', JBool (vp_Passed v)), (''summary'', JStr (vp_Summary v))]"

section \<open>Approval\<close>

record approve_input =
  pi_Auth :: "auth_context option"
  pi_CaseID :: string
  pi_ExpectedRevision :: int
  pi_Candidate :: string
  pi_Validation :: string

text \<open>The validation cited for a candidate: it passed, of exactly that content, two revisions before the case's.\<close>

definition validation_binds :: "artifact_row \<Rightarrow> artifact_row \<Rightarrow> int \<Rightarrow> bool" where
  "validation_binds candidate validation caseRevision = (case ParseSemanticRecoveryValidationPayload (at_Payload validation) of
     None \<Rightarrow> False
   | Some v \<Rightarrow> vp_Passed v \<and> vp_CandidateArtifactID v = at_ID candidate \<and> vp_CandidateSha256 v = at_Sha256 candidate \<and>
       currentRecoveryValidation (vp_CaseRevision v) caseRevision)"

definition artifact_of_kind :: "string \<Rightarrow> string \<Rightarrow> string \<Rightarrow> string \<Rightarrow> plane \<Rightarrow> artifact_row option" where
  "artifact_of_kind kind org cid aid p = (case GetRecoveryCaseArtifact org cid aid p of
     None \<Rightarrow> None | Some a \<Rightarrow> if at_Kind a \<noteq> kind then None else Some a)"

definition ApproveRecoveryCandidate :: "approve_input \<Rightarrow> int \<Rightarrow> string \<Rightarrow> plane \<Rightarrow> governance_error + grant_row \<times> plane" where
  "ApproveRecoveryCandidate i now gid p =
     (case pi_Auth i of None \<Rightarrow> Err ErrRecoverySemanticInputInvalid | Some a \<Rightarrow>
      if actor_missing (Some a) \<or> pi_CaseID i = [] \<or> pi_ExpectedRevision i < 1 \<or> pi_Candidate i = [] \<or> pi_Validation i = []
      then Err ErrRecoverySemanticInputInvalid
      else if au_Mode a = ''service-token'' then Err ErrRecoveryHumanApprovalRequired
      else case GetRecoveryCase (au_OrgID a) (pi_CaseID i) p of None \<Rightarrow> Err ErrRecoveryCaseNotFound | Some c \<Rightarrow>
      if rc_State c \<noteq> ''awaiting_approval'' \<or> rc_Revision c \<noteq> pi_ExpectedRevision i then Err ErrRecoveryCaseConflict
      else if rc_Source c \<noteq> semanticRecoveryCaseSource then Err ErrRecoveryCaseConflict
      else case artifact_of_kind ''candidate'' (au_OrgID a) (pi_CaseID i) (pi_Candidate i) p of None \<Rightarrow> Err ErrRecoveryCaseConflict | Some candidate \<Rightarrow>
      case artifact_of_kind ''validation'' (au_OrgID a) (pi_CaseID i) (pi_Validation i) p of None \<Rightarrow> Err ErrRecoveryCaseConflict | Some validation \<Rightarrow>
      if \<not> validation_binds candidate validation (rc_Revision c) then Err ErrRecoveryCaseConflict
      else case RevokeRecoveryApprovalGrants now (au_OrgID a) (pi_CaseID i) p of None \<Rightarrow> Err StatementFailed | Some p1 \<Rightarrow>
      let g = \<lparr>gr_ID = gid, gr_OrgID = au_OrgID a, gr_CaseID = pi_CaseID i, gr_Candidate = at_ID candidate, gr_Validation = at_ID validation,
               gr_CaseRevision = rc_Revision c, gr_GrantedBy = au_UserID a, gr_ExpiresAt = now + 30 * 60 * 1000, gr_ConsumedAt = None,
               gr_ConsumedBy = None, gr_RevokedAt = None, gr_CreatedAt = now\<rparr> in
      case InsertRecoveryApprovalGrant g p1 of None \<Rightarrow> Err StatementFailed
      | Some p2 \<Rightarrow> Ok (g, WriteAudit ''recovery.case.approved'' (pi_CaseID i) p2))"

section \<open>Diagnosis, candidates and validation\<close>

text \<open>
  \<^verbatim>\<open>DiagnoseRecoveryCase\<close>. The diagnosis itself (its mode and payload, from the case, the run and an optional
  enrichment by a model) is an argument; the lifecycle it drives is not.
\<close>

record case_request =
  cq_Auth :: "auth_context option"
  cq_CaseID :: string
  cq_ExpectedRevision :: int

definition request_refused :: "case_request \<Rightarrow> bool" where
  "request_refused i \<longleftrightarrow> actor_missing (cq_Auth i) \<or> cq_CaseID i = [] \<or> cq_ExpectedRevision i < 1"

definition loadRecoveryDiagnosisFacts :: "string \<Rightarrow> string \<Rightarrow> int \<Rightarrow> plane \<Rightarrow> governance_error + case_row" where
  "loadRecoveryDiagnosisFacts org cid expectedRevision p =
     (if org = [] \<or> cid = [] \<or> expectedRevision < 1 then Err ErrRecoverySemanticInputInvalid
      else case GetRecoveryCase org cid p of
        None \<Rightarrow> Err ErrRecoveryCaseNotFound
      | Some c \<Rightarrow> if rc_Source c \<noteq> semanticRecoveryCaseSource \<or> rc_Revision c \<noteq> expectedRevision \<or> rc_State c \<notin> {''detected'', ''contained''}
          then Err ErrRecoveryCaseConflict else Ok c)"

definition diagnosis_steps :: "case_row \<Rightarrow> string \<Rightarrow> transition_step list" where
  "diagnosis_steps c mode =
     (let reason = (if mode = ''ai_enriched'' then ''AI-enriched diagnosis recorded from bounded evidence''
            else ''Deterministic evidence diagnosis recorded'') in
      if rc_State c = ''detected'' \<and> rc_Action c = ''observe'' then [\<lparr>ts_From = ''detected'', ts_To = ''diagnosed'', ts_Reason = reason\<rparr>]
      else (if rc_State c = ''detected'' then [\<lparr>ts_From = ''detected'', ts_To = ''contained'',
              ts_Reason = ''Contained before diagnosis to prevent unverified downstream effects''\<rparr>] else []) @
           [\<lparr>ts_From = ''contained'', ts_To = ''diagnosed'', ts_Reason = reason\<rparr>])"

definition DiagnoseRecoveryCase ::
    "case_library \<Rightarrow> case_request \<Rightarrow> (case_row \<Rightarrow> string \<times> json) \<Rightarrow> int \<Rightarrow> plane \<Rightarrow> governance_error + (case_row \<times> artifact_row list) \<times> plane" where
  "DiagnoseRecoveryCase lib i diagnosis now p =
     (if request_refused i then Err ErrRecoverySemanticInputInvalid
      else case loadRecoveryDiagnosisFacts (au_OrgID (the (cq_Auth i))) (cq_CaseID i) (cq_ExpectedRevision i) p of
        Err e \<Rightarrow> Err e
      | Ok c \<Rightarrow> AdvanceRecoveryCase lib \<lparr>av_Auth = cq_Auth i, av_CaseID = cq_CaseID i, av_ExpectedRevision = cq_ExpectedRevision i,
          av_Artifacts = [(''diagnosis'', snd (diagnosis c))], av_Steps = diagnosis_steps c (fst (diagnosis c)),
          av_AuditAction = ''recovery.case.diagnosed''\<rparr> now p)"

record candidates_input = case_request +
  cq_ManualReplacement :: "(json \<times> string) option"
  cq_AcceptLossReason :: string

definition recoveryReasonMaxRunes :: nat where "recoveryReasonMaxRunes = 1000"

definition candidate_evidence :: "case_row \<Rightarrow> evidence_ref list" where
  "candidate_evidence c = [\<lparr>er_Kind = ''run'', er_ID = rc_RunID c, er_Sha256 = []\<rparr>,
     \<lparr>er_Kind = ''run_node'', er_ID = rc_RunID c @ '':'' @ rc_SourceNodeID c, er_Sha256 = []\<rparr>,
     \<lparr>er_Kind = ''semantic_detector'', er_ID = rc_DetectorID c, er_Sha256 = []\<rparr>]"

definition replacement_candidate :: "case_row \<Rightarrow> json \<times> string \<Rightarrow> governance_error + candidate_payload list" where
  "replacement_candidate c r =
     (let reason = TrimSpace (snd r) in
      if rc_Action c \<noteq> ''quarantine'' \<or> reason = [] \<or> RuneCount reason > recoveryReasonMaxRunes then Err ErrRecoverySemanticInputInvalid
      else Ok [\<lparr>sp_Kind = ''replace_output'', sp_Decision = ''replace'', sp_Output = fst r, sp_Target = None, sp_Reason = reason, sp_Risk = ''medium'',
        sp_Evidence = candidate_evidence c,
        sp_ExpectedResult = ''The source output satisfies every deterministic semantic detector before downstream work resumes'',
        sp_RequiredPermissions = [''recovery.write'']\<rparr>])"

definition follow_up_candidates :: "case_row \<Rightarrow> bool \<Rightarrow> candidate_payload list" where
  "follow_up_candidates c withoutReplacement = (case rc_WorkflowID c of
     None \<Rightarrow> []
   | Some w \<Rightarrow> if TrimSpace w = [] then [] else
       [\<lparr>sp_Kind = ''repair_workflow'', sp_Decision = ''manual_follow_up'', sp_Output = JNull,
         sp_Target = Some \<lparr>ct_WorkflowID = w, ct_WorkflowVersionID = rc_WorkflowVersionID c, ct_DetectorID = []\<rparr>,
         sp_Reason = ''Create and qualify a successor from the exact incident workflow version before changing future executions'',
         sp_Risk = ''medium'', sp_Evidence = candidate_evidence c,
         sp_ExpectedResult = ''A separately saved and qualified successor workflow addresses the failure without mutating this immutable run snapshot'',
         sp_RequiredPermissions = [''recovery.write'', ''workflows.write'']\<rparr>] @
       (if withoutReplacement then
         [\<lparr>sp_Kind = ''adjust_detector'', sp_Decision = ''manual_follow_up'', sp_Output = JNull,
           sp_Target = Some \<lparr>ct_WorkflowID = w, ct_WorkflowVersionID = rc_WorkflowVersionID c, ct_DetectorID = rc_DetectorID c\<rparr>,
           sp_Reason = ''Review the exact detector against labeled pass and violation fixtures in a successor workflow version'',
           sp_Risk = ''high'', sp_Evidence = candidate_evidence c,
           sp_ExpectedResult = ''A qualified detector revision reduces false classification without rewriting incident evidence'',
           sp_RequiredPermissions = [''recovery.write'', ''workflows.write'']\<rparr>] else []))"

definition accept_loss_candidate :: "case_row \<Rightarrow> string \<Rightarrow> candidate_payload" where
  "accept_loss_candidate c reason = \<lparr>sp_Kind = ''accept_loss'', sp_Decision = ''accept_loss'', sp_Output = JNull, sp_Target = None,
     sp_Reason = (if reason = [] then ''Explicitly accept the business outcome loss after human review'' else reason), sp_Risk = ''high'',
     sp_Evidence = candidate_evidence c, sp_ExpectedResult = ''The case closes as an explicitly accepted loss without changing the source output'',
     sp_RequiredPermissions = [''recovery.write'']\<rparr>"

definition buildRecoveryCandidateArtifacts :: "case_row \<Rightarrow> candidates_input \<Rightarrow> governance_error + candidate_payload list" where
  "buildRecoveryCandidateArtifacts c i =
     (case (case cq_ManualReplacement i of None \<Rightarrow> Ok [] | Some r \<Rightarrow> replacement_candidate c r) of
        Err e \<Rightarrow> Err e
      | Ok replacement \<Rightarrow>
          let acceptReason = TrimSpace (cq_AcceptLossReason i);
              artifacts = replacement @ follow_up_candidates c (cq_ManualReplacement i = None) @ [accept_loss_candidate c acceptReason] in
          if RuneCount acceptReason > recoveryReasonMaxRunes then Err ErrRecoverySemanticInputInvalid
          else if length artifacts < 1 \<or> length artifacts > 3 then Err ErrRecoverySemanticInputInvalid
          else Ok artifacts)"

definition candidate_artifacts :: "candidate_payload list \<Rightarrow> (string \<times> json) list" where
  "candidate_artifacts cs = map (\<lambda>c. (''candidate'', encode_candidate c)) cs"

text \<open>The preflight: every candidate can be written before anything else happens.\<close>

definition PreflightRecoveryCandidates :: "case_library \<Rightarrow> candidates_input \<Rightarrow> plane \<Rightarrow> governance_error + unit" where
  "PreflightRecoveryCandidates lib i p =
     (if request_refused (case_request.truncate i) then Err ErrRecoverySemanticInputInvalid
      else case GetRecoveryCase (au_OrgID (the (cq_Auth i))) (cq_CaseID i) p of
        None \<Rightarrow> Err ErrRecoveryCaseNotFound
      | Some c \<Rightarrow>
          if rc_Source c \<noteq> semanticRecoveryCaseSource \<or> rc_Revision c \<noteq> cq_ExpectedRevision i \<or>
             rc_State c \<notin> {''detected'', ''contained'', ''diagnosed''} then Err ErrRecoveryCaseConflict
          else case buildRecoveryCandidateArtifacts c i of
            Err e \<Rightarrow> Err e
          | Ok cs \<Rightarrow> (case prepare_artifacts lib (candidate_artifacts cs) of Err e \<Rightarrow> Err e | Ok _ \<Rightarrow> Ok ()))"

definition CreateRecoveryCandidates ::
    "case_library \<Rightarrow> candidates_input \<Rightarrow> int \<Rightarrow> plane \<Rightarrow> governance_error + (case_row \<times> artifact_row list) \<times> plane" where
  "CreateRecoveryCandidates lib i now p =
     (if request_refused (case_request.truncate i) then Err ErrRecoverySemanticInputInvalid
      else case GetRecoveryCase (au_OrgID (the (cq_Auth i))) (cq_CaseID i) p of
        None \<Rightarrow> Err ErrRecoveryCaseNotFound
      | Some c \<Rightarrow>
          if rc_Source c \<noteq> semanticRecoveryCaseSource \<or> rc_Revision c \<noteq> cq_ExpectedRevision i \<or> rc_State c \<noteq> ''diagnosed'' then Err ErrRecoveryCaseConflict
          else case buildRecoveryCandidateArtifacts c i of
            Err e \<Rightarrow> Err e
          | Ok cs \<Rightarrow> AdvanceRecoveryCase lib \<lparr>av_Auth = cq_Auth i, av_CaseID = cq_CaseID i, av_ExpectedRevision = cq_ExpectedRevision i,
              av_Artifacts = candidate_artifacts cs,
              av_Steps = [\<lparr>ts_From = ''diagnosed'', ts_To = ''candidates_ready'', ts_Reason = ''Bounded recovery candidates recorded''\<rparr>],
              av_AuditAction = ''recovery.case.candidates_created''\<rparr> now p)"

text \<open>The node state a replacement is persisted as, and the output read back from it.\<close>

definition stateJSONMaxBytes :: int where "stateJSONMaxBytes = 1000000"

definition safePersist :: "case_library \<Rightarrow> json \<Rightarrow> int \<Rightarrow> string" where
  "safePersist lib v maxBytes = SafePersistPayload (persist_library.truncate lib) v
     \<lparr>po_RedactedValues = [], po_MaxBytes = (if maxBytes \<le> 0 then - 1 else maxBytes)\<rparr>"

definition prepareSemanticReplacement :: "case_library \<Rightarrow> json \<Rightarrow> string + json \<times> json" where
  "prepareSemanticReplacement lib v =
     (let state = safePersist lib (JObj [(''output'', scrub_json (NormalizeJSON (persist_library.truncate lib) v))]) stateJSONMaxBytes in
      case pl_Unmarshal lib state of
        Some (JObj m) \<Rightarrow>
          if map_of m ''__truncated'' = Some (JBool True) then Err ''Replacement output exceeds the durable node-state limit''
          else (case map_of m ''output'' of None \<Rightarrow> Err ''Replacement output could not be persisted safely'' | Some x \<Rightarrow> Ok (x, JObj m))
      | _ \<Rightarrow> Err ''Replacement output could not be persisted safely'')"

definition semantic_class :: "string \<Rightarrow> failure_class" where
  "semantic_class detector = \<lparr>fc_Kind = ''semantic'', fc_Failure = [], fc_DetectorID = detector\<rparr>"

text \<open>The contract of the run's snapshot, when it is of version 2.\<close>

definition resolvable_contract :: "run_db \<Rightarrow> contract option" where
  "resolvable_contract db = (case wf_Contract (r_Workflow db) of None \<Rightarrow> None | Some k \<Rightarrow> if c_Version k \<noteq> ''2'' then None else Some k)"

definition target_mismatch :: "case_row \<Rightarrow> candidate_payload \<Rightarrow> bool" where
  "target_mismatch c x = (case (rc_WorkflowID c, sp_Target x) of
     (Some w, Some t) \<Rightarrow> ct_WorkflowID t \<noteq> w \<or> ct_WorkflowVersionID t \<noteq> rc_WorkflowVersionID c \<or>
        sp_Kind x = ''adjust_detector'' \<and> ct_DetectorID t \<noteq> rc_DetectorID c
   | _ \<Rightarrow> True)"

definition replacement_verdict :: "case_library \<Rightarrow> run_db \<Rightarrow> case_row \<Rightarrow> contract \<Rightarrow> candidate_payload \<Rightarrow> bool \<times> string" where
  "replacement_verdict lib db c k x =
     (if \<not> cp_ApplyWithApproval (ap_Capabilities (ResolveRecoveryAutonomyProfile (Some k) (semantic_class (rc_DetectorID c))))
      then (False, ''Recovery contract does not permit replacement output'')
      else case prepareSemanticReplacement lib (sp_Output x) of
        Err reason \<Rightarrow> (False, reason)
      | Ok (persisted, _) \<Rightarrow>
          let ev = EvaluateSemanticOutcome (Some k) (rc_SourceNodeID c) persisted (runContextFromRows (r_Nodes db)) in
          if ev_Evaluated ev = 0 then (False, ''No deterministic detector evaluated the replacement output'')
          else if ev_Violations ev \<noteq> [] then (False, ''Replacement output still violates the business outcome contract'')
          else (True, ''Replacement output passed every deterministic detector''))"

definition follow_up_summary :: "candidate_payload \<Rightarrow> string" where
  "follow_up_summary x =
     (if sp_Kind x = ''repair_workflow'' then ''Workflow repair requires an independently saved and qualified successor version before recovery can be applied''
      else if sp_Kind x = ''adjust_detector'' then
        ''Detector adjustment requires an independently saved and qualified successor version and cannot rewrite this immutable run snapshot''
      else [])"

text \<open>The run is the one of the case in its organisation, or none when it is gone.\<close>

definition ValidateSemanticRecoveryCandidate ::
    "case_library \<Rightarrow> run_db option \<Rightarrow> string \<Rightarrow> string \<Rightarrow> string \<Rightarrow> plane \<Rightarrow> governance_error + validation_payload" where
  "ValidateSemanticRecoveryCandidate lib run org cid candidateID p =
     (case GetRecoveryCase org cid p of None \<Rightarrow> Err ErrRecoveryCaseNotFound | Some c \<Rightarrow>
      if rc_Source c \<noteq> semanticRecoveryCaseSource then Err ErrRecoveryCaseConflict
      else case artifact_of_kind ''candidate'' org cid candidateID p of None \<Rightarrow> Err ErrRecoveryCaseConflict | Some a \<Rightarrow>
      let result = (\<lambda>(passed, summary). \<lparr>vp_CandidateArtifactID = at_ID a, vp_CandidateSha256 = at_Sha256 a, vp_CaseRevision = rc_Revision c,
            vp_Passed = passed, vp_Summary = summary\<rparr>) in
      case ParseSemanticRecoveryCandidatePayload (at_Payload a) of None \<Rightarrow> Err ErrRecoverySemanticInputInvalid | Some x \<Rightarrow>
      if sp_Decision x = ''accept_loss'' then Ok (result (True, ''Loss acknowledgement is structurally valid and still requires human approval''))
      else if sp_Decision x = ''manual_follow_up'' then
        (if target_mismatch c x then Err ErrRecoverySemanticInputInvalid else Ok (result (False, follow_up_summary x)))
      else if sp_Decision x \<noteq> ''replace'' then Err ErrRecoverySemanticInputInvalid
      else case Option.bind run resolvable_contract of None \<Rightarrow> Err ErrRecoveryCaseConflict
      | Some k \<Rightarrow> Ok (result (replacement_verdict lib (the run) c k x)))"

definition ValidateRecoveryCaseCandidate ::
    "case_library \<Rightarrow> run_db option \<Rightarrow> case_request \<Rightarrow> string \<Rightarrow> int \<Rightarrow> plane \<Rightarrow> governance_error + ((case_row \<times> artifact_row list) \<times> bool) \<times> plane" where
  "ValidateRecoveryCaseCandidate lib run i candidateID now p =
     (if request_refused i \<or> candidateID = [] then Err ErrRecoverySemanticInputInvalid
      else case ValidateSemanticRecoveryCandidate lib run (au_OrgID (the (cq_Auth i))) (cq_CaseID i) candidateID p of
        Err e \<Rightarrow> Err e
      | Ok v \<Rightarrow>
          if vp_CaseRevision v \<noteq> cq_ExpectedRevision i then Err ErrRecoveryCaseConflict
          else case AdvanceRecoveryCase lib \<lparr>av_Auth = cq_Auth i, av_CaseID = cq_CaseID i, av_ExpectedRevision = cq_ExpectedRevision i,
              av_Artifacts = [(''validation'', encode_validation v)],
              av_Steps = [\<lparr>ts_From = ''candidates_ready'', ts_To = ''validating'', ts_Reason = ''Candidate validation started''\<rparr>,
                \<lparr>ts_From = ''validating'', ts_To = (if vp_Passed v then ''awaiting_approval'' else ''candidates_ready''), ts_Reason = vp_Summary v\<rparr>],
              av_AuditAction = ''recovery.case.validated''\<rparr> now p of
            Err e \<Rightarrow> Err e
          | Ok (r, p1) \<Rightarrow> Ok ((r, vp_Passed v), p1))"

section \<open>The invariant\<close>

text \<open>The edges of a case's receipts, in the order they were appended, and what it means that they lead from one state to another.\<close>

definition receipts :: "string \<Rightarrow> plane \<Rightarrow> transition_receipt list" where
  "receipts cid p = filter (\<lambda>r. rp_CaseID r = cid) (map tr_Receipt (pl_Transitions p))"

fun ladder :: "string \<Rightarrow> transition_receipt list \<Rightarrow> string \<Rightarrow> bool" where
  "ladder a [] b = (a = b)"
| "ladder a (r # rs) b = (rp_From r = a \<and> IsLegalRecoveryCaseTransition a (rp_To r) \<and> ladder (rp_To r) rs b)"

text \<open>
  A case is opened at revision 1, a quarantined one with its containment receipt; then every receipt
  is one revision. Only a terminal case has a resolution time.
\<close>

definition case_ok :: "case_library \<Rightarrow> plane \<Rightarrow> case_row \<Rightarrow> bool" where
  "case_ok lib p c \<longleftrightarrow>
     rc_ID c = StableSemanticID lib ''sem'' [rc_OrgID c, rc_RunID c, rc_DetectorID c] \<and>
     ladder ''detected'' (receipts (rc_ID c) p) (rc_State c) \<and>
     rc_Revision c = int (length (receipts (rc_ID c) p)) + (if rc_Action c = ''quarantine'' then 0 else 1) \<and>
     (rc_Action c = ''quarantine'' \<longrightarrow> containment_id lib (rc_ID c) \<in> tr_ID ` set (pl_Transitions p) \<and> receipts (rc_ID c) p \<noteq> []) \<and>
     (rc_ResolvedAt c \<noteq> None \<longleftrightarrow> rc_State c \<in> set RecoveryCaseTerminalStates)"

text \<open>An open grant is of a case that awaits approval at exactly the grant's revision, for a validated candidate.\<close>

definition grant_current :: "plane \<Rightarrow> grant_row \<Rightarrow> bool" where
  "grant_current p g \<longleftrightarrow>
     (\<exists>c\<in>set (pl_Cases p). rc_ID c = gr_CaseID g \<and> rc_OrgID c = gr_OrgID g \<and> rc_State c = ''awaiting_approval'' \<and> rc_Revision c = gr_CaseRevision g) \<and>
     (\<exists>candidate\<in>set (pl_Artifacts p). \<exists>validation\<in>set (pl_Artifacts p).
        at_ID candidate = gr_Candidate g \<and> at_ID validation = gr_Validation g \<and> at_CaseID candidate = gr_CaseID g \<and> at_CaseID validation = gr_CaseID g \<and>
        validation_binds candidate validation (gr_CaseRevision g))"

definition plane_ok :: "case_library \<Rightarrow> plane \<Rightarrow> bool" where
  "plane_ok lib p \<longleftrightarrow> distinct (map rc_ID (pl_Cases p)) \<and> (\<forall>c\<in>set (pl_Cases p). case_ok lib p c) \<and>
     (\<forall>t\<in>set (pl_Transitions p). \<exists>c\<in>set (pl_Cases p). rc_ID c = rp_CaseID (tr_Receipt t) \<and> rc_OrgID c = tr_OrgID t) \<and>
     (\<forall>g\<in>set (pl_Grants p). grant_open g \<longrightarrow> grant_current p g)"

definition no_open_grant :: "string \<Rightarrow> plane \<Rightarrow> bool" where
  "no_open_grant cid p \<longleftrightarrow> (\<forall>g\<in>set (pl_Grants p). gr_CaseID g = cid \<longrightarrow> \<not> grant_open g)"

subsection \<open>Ladders\<close>

lemma ladder_append: "ladder a (rs @ qs) b \<longleftrightarrow> (\<exists>m. ladder a rs m \<and> ladder m qs b)"
  by (induction rs arbitrary: a) auto

lemma terminal_final: "IsLegalRecoveryCaseTransition a b \<Longrightarrow> a \<notin> set RecoveryCaseTerminalStates"
  by (auto simp: IsLegalRecoveryCaseTransition_def RecoveryCaseTerminalStates_def legalRecoveryCaseTransitions_def)

lemma ladder_terminal: "ladder a rs b \<Longrightarrow> a \<in> set RecoveryCaseTerminalStates \<Longrightarrow> rs = [] \<and> b = a"
  by (cases rs) (auto dest: terminal_final)

lemma valid_receipt_legal: "ValidateRecoveryCaseTransitionReceipt r = [] \<Longrightarrow> IsLegalRecoveryCaseTransition (rp_From r) (rp_To r)"
  by (auto simp: ValidateRecoveryCaseTransitionReceipt_def split: if_splits)

subsection \<open>Statements on the plane\<close>

lemma plane_fields [simp]:
  "pl_Cases (WriteAudit x y p) = pl_Cases p" "pl_Transitions (WriteAudit x y p) = pl_Transitions p"
  "pl_Artifacts (WriteAudit x y p) = pl_Artifacts p" "pl_Grants (WriteAudit x y p) = pl_Grants p"
  by (simp_all add: WriteAudit_def)

lemma find_in: "find P xs = Some x \<Longrightarrow> x \<in> set xs \<and> P x"
  by (induction xs) (auto split: if_splits)

lemma GetRecoveryCase_SomeD: "GetRecoveryCase org cid p = Some c \<Longrightarrow> c \<in> set (pl_Cases p) \<and> rc_OrgID c = org \<and> rc_ID c = cid"
  by (auto simp: GetRecoveryCase_def dest!: find_in)

lemma plane_ok_same:
  "pl_Cases q = pl_Cases p \<Longrightarrow> pl_Transitions q = pl_Transitions p \<Longrightarrow> set (pl_Artifacts p) \<subseteq> set (pl_Artifacts q) \<Longrightarrow>
   \<forall>g\<in>set (pl_Grants q). grant_open g \<longrightarrow> g \<in> set (pl_Grants p) \<Longrightarrow> plane_ok lib p \<Longrightarrow> plane_ok lib q"
  unfolding plane_ok_def grant_current_def case_ok_def receipts_def by (smt (verit, ccfv_threshold) subset_iff)

lemma case_by_id: "plane_ok lib p \<Longrightarrow> c \<in> set (pl_Cases p) \<Longrightarrow> d \<in> set (pl_Cases p) \<Longrightarrow> rc_ID c = rc_ID d \<Longrightarrow> c = d"
  unfolding plane_ok_def by (metis distinct_map inj_onD)

lemma revoke_frame:
  assumes "RevokeRecoveryApprovalGrants tm org cid p = Some q"
  shows "pl_Cases q = pl_Cases p" "pl_Transitions q = pl_Transitions p" "pl_Artifacts q = pl_Artifacts p"
    "\<forall>g\<in>set (pl_Grants q). grant_open g \<longrightarrow> g \<in> set (pl_Grants p)"
  using assms by (auto simp: RevokeRecoveryApprovalGrants_def Let_def grant_open_def split: if_splits)

lemma revoke_ok: "RevokeRecoveryApprovalGrants tm org cid p = Some q \<Longrightarrow> plane_ok lib p \<Longrightarrow> plane_ok lib q"
  by (rule plane_ok_same [of q p]) (use revoke_frame in auto)

lemma revoked_grant:
  assumes "RevokeRecoveryApprovalGrants tm org cid p = Some q" "h \<in> set (pl_Grants q)" "grant_open h"
  shows "h \<in> set (pl_Grants p) \<and> \<not> (gr_OrgID h = org \<and> gr_CaseID h = cid)"
proof -
  have "pl_Grants q = map (\<lambda>g. if gr_OrgID g = org \<and> gr_CaseID g = cid \<and> grant_open g then g\<lparr>gr_RevokedAt := Some tm\<rparr> else g) (pl_Grants p)"
    using assms(1) by (auto simp: RevokeRecoveryApprovalGrants_def Let_def split: if_split_asm)
  then obtain g where g: "g \<in> set (pl_Grants p)" "h = (if gr_OrgID g = org \<and> gr_CaseID g = cid \<and> grant_open g then g\<lparr>gr_RevokedAt := Some tm\<rparr> else g)"
    using assms(2) by auto
  show ?thesis
  proof (cases "gr_OrgID g = org \<and> gr_CaseID g = cid \<and> grant_open g")
    case True
    then have "\<not> grant_open h" using g(2) by (simp add: grant_open_def)
    then show ?thesis using assms(3) by simp
  next
    case False
    then have "h = g" using g(2) by (simp only: if_False)
    then show ?thesis using False g(1) assms(3) by blast
  qed
qed

lemma revoke_closes:
  assumes "RevokeRecoveryApprovalGrants tm org cid p = Some q" "plane_ok lib p" "c \<in> set (pl_Cases p)" "rc_ID c = cid" "rc_OrgID c = org"
  shows "no_open_grant cid q"
  unfolding no_open_grant_def
proof (intro ballI impI notI)
  fix h assume h: "h \<in> set (pl_Grants q)" "gr_CaseID h = cid" "grant_open h"
  then have "h \<in> set (pl_Grants p)" "gr_OrgID h \<noteq> org" using revoked_grant [OF assms(1)] by auto
  then obtain d where "d \<in> set (pl_Cases p)" "rc_ID d = cid" "rc_OrgID d \<noteq> org"
    using assms(2) h unfolding plane_ok_def grant_current_def by metis
  then show False using case_by_id [OF assms(2) _ assms(3)] assms(4,5) by metis
qed

lemma insert_artifact_row:
  assumes "InsertRecoveryCaseArtifact a0 p = Some (a, q)"
  shows "(q = p \<and> a \<in> set (pl_Artifacts p) \<or> q = p\<lparr>pl_Artifacts := pl_Artifacts p @ [a]\<rparr>) \<and>
    at_CaseID a = at_CaseID a0 \<and> at_Kind a = at_Kind a0 \<and> at_OrgID a = at_OrgID a0"
  using assms unfolding InsertRecoveryCaseArtifact_def
  by (auto split: option.split_asm if_split_asm dest!: find_in)

lemma insert_artifact_cases:
  assumes "insert_artifact lib org cid kind ak ai rh tm p = Some (a, q)"
  shows "(q = p \<and> a \<in> set (pl_Artifacts p) \<or> q = p\<lparr>pl_Artifacts := pl_Artifacts p @ [a]\<rparr>) \<and>
    at_CaseID a = cid \<and> at_Kind a = kind \<and> at_OrgID a = org"
proof (cases rh)
  case (Pair raw hash)
  then obtain v where "pl_Unmarshal lib raw = Some v"
    "InsertRecoveryCaseArtifact \<lparr>at_ID = StableSemanticID lib ''rca'' [cid, kind, hash], at_OrgID = org, at_CaseID = cid, at_Kind = kind,
       at_Payload = v, at_Sha256 = hash, at_ActorKind = ak, at_ActorID = ai, at_CreatedAt = tm\<rparr> p = Some (a, q)"
    using assms by (simp add: insert_artifact_def split: option.split_asm)
  then show ?thesis using insert_artifact_row by fastforce
qed

definition grows :: "plane \<Rightarrow> plane \<Rightarrow> bool" where
  "grows p q \<longleftrightarrow> pl_Cases q = pl_Cases p \<and> pl_Transitions q = pl_Transitions p \<and> pl_Grants q = pl_Grants p \<and>
     (\<exists>xs. pl_Artifacts q = pl_Artifacts p @ xs)"

lemma grows_ok: "grows p q \<Longrightarrow> plane_ok lib p \<Longrightarrow> plane_ok lib q"
  by (rule plane_ok_same [of q p]) (auto simp: grows_def)

lemma insert_artifact_grows: "insert_artifact lib org cid kind ak ai rh tm p = Some (a, q) \<Longrightarrow> grows p q"
  by (drule insert_artifact_cases) (auto simp: grows_def)

lemma grows_refl [simp]: "grows p p"
  by (simp add: grows_def)

lemma grows_trans: "grows p q \<Longrightarrow> grows q r \<Longrightarrow> grows p r"
  by (auto simp: grows_def)

lemma insert_artifacts_grows: "insert_artifacts lib org cid ak ai tm xs p = Some (as, q) \<Longrightarrow> grows p q"
proof (induction xs arbitrary: p as)
  case (Cons x xs)
  obtain kind rh where x: "x = (kind, rh)" by (cases x) auto
  from Cons.prems obtain a p1 as1 where "insert_artifact lib org cid kind ak ai rh tm p = Some (a, p1)"
    "insert_artifacts lib org cid ak ai tm xs p1 = Some (as1, q)"
    by (auto simp: x split: option.split_asm)
  then show ?case using Cons.IH insert_artifact_grows grows_trans by blast
qed simp

subsection \<open>One move\<close>

text \<open>The row of one case moves along a legal edge, its receipt is appended, and the case has no open grant.\<close>

lemma move_row_fields [simp]:
  "rc_ID (move_row to res c) = rc_ID c" "rc_OrgID (move_row to res c) = rc_OrgID c" "rc_RunID (move_row to res c) = rc_RunID c"
  "rc_DetectorID (move_row to res c) = rc_DetectorID c" "rc_Action (move_row to res c) = rc_Action c" "rc_State (move_row to res c) = to"
  "rc_Revision (move_row to res c) = rc_Revision c + 1" "rc_ResolvedAt (move_row to res c) = (if res = None then rc_ResolvedAt c else res)"
  by (simp_all add: move_row_def)

lemma receipts_append: "receipts cid (p\<lparr>pl_Cases := cs, pl_Transitions := pl_Transitions p @ [t]\<rparr>) =
    receipts cid p @ (if rp_CaseID (tr_Receipt t) = cid then [tr_Receipt t] else [])"
  by (simp add: receipts_def)

lemma moved_case_ok:
  assumes "case_ok lib p c" "rp_CaseID (tr_Receipt t) = rc_ID c" "rp_From (tr_Receipt t) = rc_State c" "rp_To (tr_Receipt t) = to"
    "IsLegalRecoveryCaseTransition (rc_State c) to"
  shows "case_ok lib (p\<lparr>pl_Cases := cs, pl_Transitions := pl_Transitions p @ [t]\<rparr>) (move_row to (resolved_time to tm) c)"
  using assms terminal_final [OF assms(5)] by (auto simp: case_ok_def receipts_append ladder_append resolved_time_def)

lemma move_ok:
  fixes p c t to tm cid P
  defines "q \<equiv> p\<lparr>pl_Cases := map (\<lambda>d. if P d then move_row to (resolved_time to tm) d else d) (pl_Cases p), pl_Transitions := pl_Transitions p @ [t]\<rparr>"
  assumes ok: "plane_ok lib p" and c: "c \<in> set (pl_Cases p)" "rc_ID c = cid" "P c" and P: "\<And>d. P d \<Longrightarrow> rc_ID d = cid"
    and t: "rp_CaseID (tr_Receipt t) = cid" "tr_OrgID t = rc_OrgID c" "rp_From (tr_Receipt t) = rc_State c" "rp_To (tr_Receipt t) = to"
    and legal: "IsLegalRecoveryCaseTransition (rc_State c) to" and closed: "no_open_grant cid p"
  shows "plane_ok lib q"
proof -
  have one: "P d \<longleftrightarrow> d = c" if "d \<in> set (pl_Cases p)" for d
    using case_by_id [OF ok that c(1)] c P by metis
  have ids: "map rc_ID (pl_Cases q) = map rc_ID (pl_Cases p)" by (simp add: q_def comp_def if_distrib)
  have cases: "d \<in> set (pl_Cases q) \<longleftrightarrow> d = move_row to (resolved_time to tm) c \<or> (d \<in> set (pl_Cases p) \<and> d \<noteq> c)" for d
    using one c(1) by (auto simp: q_def image_iff)
  have other: "case_ok lib q d" if "d \<in> set (pl_Cases p)" "d \<noteq> c" for d
  proof -
    have "rc_ID d \<noteq> cid" using case_by_id [OF ok that(1) c(1)] that c(2) by auto
    then show ?thesis using ok that(1) t(1) by (auto simp: plane_ok_def case_ok_def q_def receipts_append)
  qed
  have moved: "case_ok lib q (move_row to (resolved_time to tm) c)"
    unfolding q_def by (rule moved_case_ok) (use ok c t legal in \<open>auto simp: plane_ok_def\<close>)
  have kept: "\<exists>d\<in>set (pl_Cases q). rc_ID d = rc_ID e \<and> rc_OrgID d = rc_OrgID e" if "e \<in> set (pl_Cases p)" for e
    using that cases [of e] cases [of "move_row to (resolved_time to tm) c"] by (cases "e = c") (auto intro: bexI [of _ "move_row to (resolved_time to tm) c"])
  have grants: "grant_current q g" if "g \<in> set (pl_Grants q)" "grant_open g" for g
  proof -
    have g: "g \<in> set (pl_Grants p)" using that by (simp add: q_def)
    then have cur: "grant_current p g" using ok that(2) by (auto simp: plane_ok_def)
    have "gr_CaseID g \<noteq> cid" using closed g that(2) by (auto simp: no_open_grant_def)
    moreover have "pl_Artifacts q = pl_Artifacts p" by (simp add: q_def)
    ultimately show ?thesis using cur c(2) cases unfolding grant_current_def by metis
  qed
  have rcpts: "\<exists>d\<in>set (pl_Cases q). rc_ID d = rp_CaseID (tr_Receipt u) \<and> rc_OrgID d = tr_OrgID u" if u: "u \<in> set (pl_Transitions q)" for u
  proof (cases "u = t")
    case True then show ?thesis using kept [OF c(1)] c(2) t(1,2) by simp
  next
    case False
    then have "u \<in> set (pl_Transitions p)" using u by (simp add: q_def)
    then obtain e where "e \<in> set (pl_Cases p)" "rc_ID e = rp_CaseID (tr_Receipt u)" "rc_OrgID e = tr_OrgID u"
      using ok unfolding plane_ok_def by blast
    then show ?thesis using kept by metis
  qed
  show ?thesis using ids ok other moved cases grants rcpts by (auto simp: plane_ok_def)
qed

subsection \<open>Opening, moving and approving keep the invariant\<close>

lemma InsertTransition_cases:
  assumes "InsertRecoveryCaseTransition t p = (n, q)"
  obtains "n = 0" "q = p" "tr_ID t \<in> tr_ID ` set (pl_Transitions p)"
  | "n = 1" "q = p\<lparr>pl_Transitions := pl_Transitions p @ [t]\<rparr>" "tr_ID t \<notin> tr_ID ` set (pl_Transitions p)"
proof -
  have e: "list_ex (\<lambda>u. tr_ID u = tr_ID t) (pl_Transitions p) \<longleftrightarrow> tr_ID t \<in> tr_ID ` set (pl_Transitions p)"
    by (simp add: list_ex_iff image_iff) metis
  show ?thesis using assms that by (cases "tr_ID t \<in> tr_ID ` set (pl_Transitions p)") (simp_all add: InsertRecoveryCaseTransition_def e)
qed

lemma move_with_receipt_Ok:
  assumes "move_with_receipt lib org r revision tm p = Ok (moved, q)"
  obtains c where "c \<in> set (pl_Cases p)" "rc_OrgID c = org" "rc_ID c = rp_CaseID r" "rc_State c = rp_From r" "rc_Revision c = revision"
    "moved = move_row (rp_To r) (resolved_time (rp_To r) tm) c" "IsLegalRecoveryCaseTransition (rp_From r) (rp_To r)"
    "q = p\<lparr>pl_Cases := map (\<lambda>d. if rc_OrgID d = org \<and> rc_ID d = rp_CaseID r \<and> rc_State d = rp_From r \<and> rc_Revision d = revision
           then move_row (rp_To r) (resolved_time (rp_To r) tm) d else d) (pl_Cases p),
         pl_Transitions := pl_Transitions p @ [\<lparr>tr_ID = receipt_id lib r revision, tr_OrgID = org, tr_Receipt = r, tr_OccurredAt = tm\<rparr>]\<rparr>"
proof -
  let ?t = "\<lparr>tr_ID = receipt_id lib r revision, tr_OrgID = org, tr_Receipt = r, tr_OccurredAt = tm\<rparr>"
  from assms have valid: "ValidateRecoveryCaseTransitionReceipt r = []"
    by (auto simp: move_with_receipt_def Let_def split: if_split_asm)
  with assms obtain p1 where adv: "AdvanceRecoveryCaseStateAtRevision org (rp_CaseID r) (rp_To r) (rp_From r) revision (resolved_time (rp_To r) tm) p = Some (moved, p1)"
    and ins: "InsertRecoveryCaseTransition ?t p1 = (1, q)"
    by (auto simp: move_with_receipt_def Let_def split: option.split_asm prod.split_asm if_split_asm)
  from ins have q: "q = p1\<lparr>pl_Transitions := pl_Transitions p1 @ [?t]\<rparr>" by (rule InsertTransition_cases) auto
  from adv obtain c where c: "find (\<lambda>c. rc_OrgID c = org \<and> rc_ID c = rp_CaseID r \<and> rc_State c = rp_From r \<and> rc_Revision c = revision) (pl_Cases p) = Some c"
    "moved = move_row (rp_To r) (resolved_time (rp_To r) tm) c"
    "p1 = p\<lparr>pl_Cases := map (\<lambda>d. if rc_OrgID d = org \<and> rc_ID d = rp_CaseID r \<and> rc_State d = rp_From r \<and> rc_Revision d = revision
           then move_row (rp_To r) (resolved_time (rp_To r) tm) d else d) (pl_Cases p)\<rparr>"
    by (auto simp: AdvanceRecoveryCaseStateAtRevision_def Let_def split: option.split_asm)
  show ?thesis by (rule that [of c]) (use find_in [OF c(1)] c(2,3) q valid_receipt_legal [OF valid] in auto)
qed

text \<open>What a move leaves alone: every other case, the grants, the artifacts and the receipts before it.\<close>

definition moves_only :: "string \<Rightarrow> plane \<Rightarrow> plane \<Rightarrow> bool" where
  "moves_only cid p q \<longleftrightarrow> pl_Grants q = pl_Grants p \<and> pl_Artifacts q = pl_Artifacts p \<and> (\<exists>ts. pl_Transitions q = pl_Transitions p @ ts) \<and>
     map rc_ID (pl_Cases q) = map rc_ID (pl_Cases p) \<and>
     (\<forall>c. rc_ID c \<noteq> cid \<longrightarrow> (c \<in> set (pl_Cases q) \<longleftrightarrow> c \<in> set (pl_Cases p)))"

lemma move_with_receipt_ok:
  assumes "move_with_receipt lib org r revision tm p = Ok (moved, q)" "plane_ok lib p" "no_open_grant (rp_CaseID r) p"
  shows "plane_ok lib q" "no_open_grant (rp_CaseID r) q" "moves_only (rp_CaseID r) p q"
    "moved \<in> set (pl_Cases q)" "rc_ID moved = rp_CaseID r" "rc_OrgID moved = org" "rc_State moved = rp_To r" "rc_Revision moved = revision + 1"
proof -
  from assms(1) obtain c where c: "c \<in> set (pl_Cases p)" "rc_OrgID c = org" "rc_ID c = rp_CaseID r" "rc_State c = rp_From r" "rc_Revision c = revision"
    "moved = move_row (rp_To r) (resolved_time (rp_To r) tm) c" "IsLegalRecoveryCaseTransition (rp_From r) (rp_To r)"
    and q: "q = p\<lparr>pl_Cases := map (\<lambda>d. if rc_OrgID d = org \<and> rc_ID d = rp_CaseID r \<and> rc_State d = rp_From r \<and> rc_Revision d = revision
           then move_row (rp_To r) (resolved_time (rp_To r) tm) d else d) (pl_Cases p),
         pl_Transitions := pl_Transitions p @ [\<lparr>tr_ID = receipt_id lib r revision, tr_OrgID = org, tr_Receipt = r, tr_OccurredAt = tm\<rparr>]\<rparr>"
    by (rule move_with_receipt_Ok)
  show "plane_ok lib q" unfolding q
    by (rule move_ok [where c = c and cid = "rp_CaseID r"]) (use assms c in auto)
  show "no_open_grant (rp_CaseID r) q" using assms(3) by (simp add: no_open_grant_def q)
  show "moves_only (rp_CaseID r) p q" by (auto simp: moves_only_def q comp_def if_distrib image_iff)
  show "moved \<in> set (pl_Cases q)" using c by (auto simp: q image_iff)
  show "rc_ID moved = rp_CaseID r" "rc_OrgID moved = org" "rc_State moved = rp_To r" "rc_Revision moved = revision + 1" using c by auto
qed

lemma moves_only_refl [simp]: "moves_only cid p p"
  by (simp add: moves_only_def)

lemma moves_only_trans: "moves_only cid p q \<Longrightarrow> moves_only cid q r \<Longrightarrow> moves_only cid p r"
  by (auto simp: moves_only_def)

lemma advance_steps_ok:
  assumes "advance_steps lib a cid arts now idx prev current revision steps p = Ok (row, q)" "plane_ok lib p" "no_open_grant cid p"
  shows "plane_ok lib q \<and> no_open_grant cid q \<and> moves_only cid p q"
  using assms
proof (induction steps arbitrary: idx prev current revision p)
  case (Cons s rest)
  let ?r = "step_receipt a cid arts (rc_RunID current) s"
  have id: "rp_CaseID ?r = cid" by (simp add: step_receipt_def)
  from Cons.prems(1) obtain moved p1 where
    m: "move_with_receipt lib (au_OrgID a) ?r revision (now + int idx) p = Ok (moved, p1)"
    and rest: "advance_steps lib a cid arts now (idx + 1) (Some (ts_To s)) moved (rc_Revision moved) rest p1 = Ok (row, q)"
    by (auto split: if_split_asm sum.split_asm move_error.split_asm)
  from move_with_receipt_ok [OF m] Cons.prems(2,3) have "plane_ok lib p1" "no_open_grant cid p1" "moves_only cid p p1" unfolding id by auto
  then show ?case using Cons.IH [OF rest] moves_only_trans by blast
qed simp

lemma AdvanceRecoveryCase_Ok:
  assumes "AdvanceRecoveryCase lib i now p = Ok (res, q)"
  obtains a first rest prepared c p1 arts p2 row p3 where "av_Auth i = Some a" "av_Steps i = first # rest" "\<not> actor_missing (Some a)"
    "\<not> list_ex step_refused (av_Steps i)" "GetRecoveryCase (au_OrgID a) (av_CaseID i) p = Some c" "rc_Revision c = av_ExpectedRevision i"
    "rc_State c = ts_From first" "RevokeRecoveryApprovalGrants now (au_OrgID a) (av_CaseID i) p = Some p1"
    "insert_artifacts lib (au_OrgID a) (av_CaseID i) (recoveryActorKind a) (au_UserID a) now prepared p1 = Some (arts, p2)"
    "advance_steps lib a (av_CaseID i) arts now 0 None c (rc_Revision c) (av_Steps i) p2 = Ok (row, p3)"
    "res = (row, arts)" "q = WriteAudit (av_AuditAction i) (av_CaseID i) p3"
  using assms unfolding AdvanceRecoveryCase_def
  by (auto split: option.split_asm list.split_asm if_split_asm sum.split_asm prod.split_asm)

lemma AdvanceRecoveryCase_ok:
  assumes adv: "AdvanceRecoveryCase lib i now p = Ok (res, q)" and ok: "plane_ok lib p"
  shows "plane_ok lib q" "no_open_grant (av_CaseID i) q"
proof -
  from adv obtain a first rest prepared c p1 arts p2 row p3 where
    get: "GetRecoveryCase (au_OrgID a) (av_CaseID i) p = Some c" and
    rev: "RevokeRecoveryApprovalGrants now (au_OrgID a) (av_CaseID i) p = Some p1" and
    ins: "insert_artifacts lib (au_OrgID a) (av_CaseID i) (recoveryActorKind a) (au_UserID a) now prepared p1 = Some (arts, p2)" and
    steps: "advance_steps lib a (av_CaseID i) arts now 0 None c (rc_Revision c) (av_Steps i) p2 = Ok (row, p3)" and
    q: "q = WriteAudit (av_AuditAction i) (av_CaseID i) p3"
    by (rule AdvanceRecoveryCase_Ok)
  have "plane_ok lib p1" "no_open_grant (av_CaseID i) p1"
    using revoke_ok [OF rev ok] revoke_closes [OF rev ok] GetRecoveryCase_SomeD [OF get] by auto
  then have "plane_ok lib p2" "no_open_grant (av_CaseID i) p2"
    using grows_ok [OF insert_artifacts_grows [OF ins]] insert_artifacts_grows [OF ins] by (auto simp: grows_def no_open_grant_def)
  then have "plane_ok lib p3" "no_open_grant (av_CaseID i) p3" using advance_steps_ok [OF steps] by auto
  then show "plane_ok lib q" "no_open_grant (av_CaseID i) q"
    unfolding q by (auto intro: plane_ok_same [where p = p3] simp: no_open_grant_def)
qed

lemma TransitionRecoveryCase_Ok:
  assumes "TransitionRecoveryCase lib org r now dbNow p = Ok q"
  obtains c p1 tm where "GetRecoveryCase org (rp_CaseID r) p = Some c" "RevokeRecoveryApprovalGrants now org (rp_CaseID r) p = Some p1"
    "IsLegalRecoveryCaseTransition (rp_From r) (rp_To r)" "\<exists>d\<in>set (pl_Cases p1). rc_OrgID d = org \<and> rc_ID d = rp_CaseID r \<and> rc_State d = rp_From r"
    "q = p1\<lparr>pl_Cases := map (\<lambda>d. if rc_OrgID d = org \<and> rc_ID d = rp_CaseID r \<and> rc_State d = rp_From r
           then move_row (rp_To r) (resolved_time (rp_To r) dbNow) d else d) (pl_Cases p1),
         pl_Transitions := pl_Transitions p1 @ [\<lparr>tr_ID = receipt_id lib r (rc_Revision c), tr_OrgID = org, tr_Receipt = r, tr_OccurredAt = tm\<rparr>]\<rparr>"
    "\<forall>u\<in>set (pl_Transitions p1). tr_OrgID u = org \<longrightarrow> rp_CaseID (tr_Receipt u) = rp_CaseID r \<longrightarrow> tr_OccurredAt u < tm"
proof -
  from assms have legal: "IsLegalRecoveryCaseTransition (rp_From r) (rp_To r)"
    by (auto simp: TransitionRecoveryCase_def Let_def intro!: valid_receipt_legal split: if_split_asm)
  from assms obtain c p1 where get: "GetRecoveryCase org (rp_CaseID r) p = Some c" and rev: "RevokeRecoveryApprovalGrants now org (rp_CaseID r) p = Some p1"
    by (auto simp: TransitionRecoveryCase_def Let_def split: if_split_asm option.split_asm)
  define l where "l = GetLatestRecoveryCaseTransitionAt org (rp_CaseID r) p1"
  define tm where "tm = (if now \<le> l then l + 1 else now)"
  let ?t = "\<lparr>tr_ID = receipt_id lib r (rc_Revision c), tr_OrgID = org, tr_Receipt = r, tr_OccurredAt = tm\<rparr>"
  from assms obtain n p2 where tr: "TransitionRecoveryCaseState org (rp_CaseID r) (rp_To r) (rp_From r) (resolved_time (rp_To r) dbNow) p1 = (n, p2)" "n \<noteq> 0"
    and ins: "fst (InsertRecoveryCaseTransition ?t p2) \<noteq> 0" "q = snd (InsertRecoveryCaseTransition ?t p2)"
    by (auto simp: TransitionRecoveryCase_def Let_def get rev l_def tm_def split: if_split_asm prod.split_asm)
  have q: "q = p2\<lparr>pl_Transitions := pl_Transitions p2 @ [?t]\<rparr>" using ins by (auto simp: InsertRecoveryCaseTransition_def split: if_split_asm)
  have "tr_OccurredAt u \<le> l" if "u \<in> set (pl_Transitions p1)" "tr_OrgID u = org" "rp_CaseID (tr_Receipt u) = rp_CaseID r" for u
    using that by (auto simp: l_def GetLatestRecoveryCaseTransitionAt_def Let_def filter_empty_conv intro: Max_ge)
  then have later: "\<forall>u\<in>set (pl_Transitions p1). tr_OrgID u = org \<longrightarrow> rp_CaseID (tr_Receipt u) = rp_CaseID r \<longrightarrow> tr_OccurredAt u < tm"
    by (force simp: tm_def)
  show ?thesis
    by (rule that [OF get rev legal _ _ later])
      (use tr q in \<open>auto simp: TransitionRecoveryCaseState_def Let_def filter_empty_conv\<close>)
qed

lemma TransitionRecoveryCase_ok:
  assumes tr: "TransitionRecoveryCase lib org r now dbNow p = Ok q" and ok: "plane_ok lib p"
  shows "plane_ok lib q"
proof -
  from tr obtain c p1 tm where get: "GetRecoveryCase org (rp_CaseID r) p = Some c" and rev: "RevokeRecoveryApprovalGrants now org (rp_CaseID r) p = Some p1"
    and legal: "IsLegalRecoveryCaseTransition (rp_From r) (rp_To r)" and ex: "\<exists>d\<in>set (pl_Cases p1). rc_OrgID d = org \<and> rc_ID d = rp_CaseID r \<and> rc_State d = rp_From r"
    and q: "q = p1\<lparr>pl_Cases := map (\<lambda>d. if rc_OrgID d = org \<and> rc_ID d = rp_CaseID r \<and> rc_State d = rp_From r
           then move_row (rp_To r) (resolved_time (rp_To r) dbNow) d else d) (pl_Cases p1),
         pl_Transitions := pl_Transitions p1 @ [\<lparr>tr_ID = receipt_id lib r (rc_Revision c), tr_OrgID = org, tr_Receipt = r, tr_OccurredAt = tm\<rparr>]\<rparr>"
    by (rule TransitionRecoveryCase_Ok)
  from ex obtain d where d: "d \<in> set (pl_Cases p1)" "rc_OrgID d = org" "rc_ID d = rp_CaseID r" "rc_State d = rp_From r" by blast
  have "no_open_grant (rp_CaseID r) p1" using revoke_closes [OF rev ok] GetRecoveryCase_SomeD [OF get] by auto
  then show ?thesis unfolding q
    by (intro move_ok [where c = d and cid = "rp_CaseID r"]) (use d legal revoke_ok [OF rev ok] in auto)
qed

text \<open>A new case has no receipt and no open grant, so adding its row keeps the other cases' facts.\<close>

lemma receipts_none: "plane_ok lib p \<Longrightarrow> \<forall>c\<in>set (pl_Cases p). rc_ID c \<noteq> cid \<Longrightarrow> receipts cid p = []"
  unfolding plane_ok_def receipts_def by (auto simp: filter_empty_conv)

lemma InsertRow_cases:
  assumes "InsertRecoveryCaseRow c p = Some q"
  obtains d where "q = p" "d \<in> set (pl_Cases p)" "rc_OrgID d = rc_OrgID c" "rc_RunID d = rc_RunID c" "rc_DetectorID d = rc_DetectorID c"
  | "q = p\<lparr>pl_Cases := pl_Cases p @ [c]\<rparr>" "\<forall>d\<in>set (pl_Cases p). rc_ID d \<noteq> rc_ID c" "rc_Action c \<in> {''observe'', ''quarantine''}"
  using assms unfolding InsertRecoveryCaseRow_def by (auto simp: list_ex_iff split: if_split_asm)

lemma add_case_ok:
  fixes p c ts
  defines "q \<equiv> p\<lparr>pl_Cases := pl_Cases p @ [c], pl_Transitions := pl_Transitions p @ ts\<rparr>"
  assumes ok: "plane_ok lib p" and new: "\<forall>d\<in>set (pl_Cases p). rc_ID d \<noteq> rc_ID c" and c: "case_ok lib q c"
    and ts: "\<forall>t\<in>set ts. rp_CaseID (tr_Receipt t) = rc_ID c \<and> tr_OrgID t = rc_OrgID c"
  shows "plane_ok lib q"
proof -
  have same: "receipts (rc_ID d) q = receipts (rc_ID d) p" if "d \<in> set (pl_Cases p)" for d
    using that new ts by (auto simp: receipts_def q_def filter_empty_conv)
  have "case_ok lib q d" if "d \<in> set (pl_Cases p)" for d
    using that ok same [OF that] by (auto simp: plane_ok_def case_ok_def q_def image_Un)
  moreover have "grant_current q g" if "grant_current p g" for g
    using that unfolding grant_current_def q_def by auto
  ultimately show ?thesis using ok new c ts by (auto simp: plane_ok_def q_def)
qed

lemma CreateRecoveryCase_ok:
  assumes cr: "CreateRecoveryCase lib i p = Ok (cid, q)" and ok: "plane_ok lib p" and act: "ci_Action i \<noteq> ''quarantine''"
  shows "plane_ok lib q"
proof -
  define c where "c = \<lparr>rc_ID = StableSemanticID lib ''sem'' [ci_OrgID i, ci_RunID i, ci_DetectorID i], rc_OrgID = ci_OrgID i, rc_RunID = ci_RunID i,
     rc_WorkflowID = (if ci_WorkflowID i = [] then None else Some (ci_WorkflowID i)), rc_WorkflowVersionID = ci_WorkflowVersionID i,
     rc_Source = ci_Source i, rc_DetectorID = ci_DetectorID i, rc_SourceNodeID = ci_SourceNodeID i, rc_DetectorKind = ci_DetectorKind i,
     rc_Action = ci_Action i, rc_Message = ci_Message i, rc_State = ''detected'', rc_Revision = 1, rc_ResolvedAt = None\<rparr>"
  have "InsertRecoveryCaseRow c p = Some q"
    using cr unfolding CreateRecoveryCase_def c_def by (auto simp: Let_def split: option.split_asm)
  then show ?thesis
  proof (cases rule: InsertRow_cases)
    case 2
    then have q: "q = p\<lparr>pl_Cases := pl_Cases p @ [c], pl_Transitions := pl_Transitions p @ []\<rparr>" by simp
    have "receipts (rc_ID c) q = []" using receipts_none [OF ok 2(2)] by (simp add: q receipts_def)
    then have "case_ok lib q c" using act by (simp add: case_ok_def c_def RecoveryCaseTerminalStates_def)
    then show ?thesis using add_case_ok [OF ok 2(2), of "[]"] unfolding q by simp
  qed (use ok in auto)
qed

text \<open>
  A completion opens a case. The premises say that the receipt's id is not taken by another case's (SHA-256
  does not collide on them) and that a detector keeps its action within a run.
\<close>

definition opens_safely :: "case_library \<Rightarrow> completion_identity \<Rightarrow> violation \<Rightarrow> plane \<Rightarrow> bool" where
  "opens_safely lib m v p \<longleftrightarrow>
     (let cid = StableSemanticID lib ''sem'' [cm_OrgID m, cm_RunID m, vi_DetectorID v] in
      (\<forall>c\<in>set (pl_Cases p). rc_ID c = cid \<longrightarrow> rc_Action c = vi_Action v) \<and>
      (\<forall>t\<in>set (pl_Transitions p). tr_ID t = containment_id lib cid \<longrightarrow> rp_CaseID (tr_Receipt t) = cid))"

lemma open_semantic_case_ok:
  assumes op: "open_semantic_case lib m v tm p = Some q" and ok: "plane_ok lib p" and safe: "opens_safely lib m v p"
  shows "plane_ok lib q"
proof -
  define cid where "cid = StableSemanticID lib ''sem'' [cm_OrgID m, cm_RunID m, vi_DetectorID v]"
  define c where "c = \<lparr>rc_ID = cid, rc_OrgID = cm_OrgID m, rc_RunID = cm_RunID m, rc_WorkflowID = cm_WorkflowID m,
     rc_WorkflowVersionID = cm_WorkflowVersionID m, rc_Source = semanticRecoveryCaseSource, rc_DetectorID = vi_DetectorID v,
     rc_SourceNodeID = vi_SourceNodeID v, rc_DetectorKind = vi_Kind v, rc_Action = vi_Action v, rc_Message = vi_Message v,
     rc_State = (if vi_Action v = ''quarantine'' then ''contained'' else ''detected''), rc_Revision = 1, rc_ResolvedAt = None\<rparr>"
  define t where "t = \<lparr>tr_ID = containment_id lib cid, tr_OrgID = cm_OrgID m, tr_Receipt = containment_receipt m cid (vi_DetectorID v), tr_OccurredAt = tm\<rparr>"
  from op obtain p1 where row: "InsertRecoveryCaseRow c p = Some p1"
    and q: "q = (if vi_Action v = ''quarantine'' then snd (InsertRecoveryCaseTransition t p1) else p1)"
    unfolding open_semantic_case_def c_def t_def cid_def by (auto simp: Let_def split: option.split_asm)
  from row show ?thesis
  proof (cases rule: InsertRow_cases)
    case (1 d)
    have d: "case_ok lib p d" using ok 1 by (auto simp: plane_ok_def)
    then have id: "rc_ID d = cid" using 1 by (simp add: case_ok_def c_def cid_def)
    then have "rc_Action d = vi_Action v" using safe 1 by (auto simp: opens_safely_def Let_def cid_def)
    then have "vi_Action v = ''quarantine'' \<longrightarrow> tr_ID t \<in> tr_ID ` set (pl_Transitions p)" using d id by (auto simp: case_ok_def t_def)
    then have "q = p" using 1 q by (auto simp: InsertRecoveryCaseTransition_def list_ex_iff)
    then show ?thesis using ok by simp
  next
    case 2
    have none: "receipts cid p = []" using receipts_none [OF ok] 2(2) by (simp add: c_def)
    have fresh: "tr_ID t \<notin> tr_ID ` set (pl_Transitions p)"
    proof
      assume "tr_ID t \<in> tr_ID ` set (pl_Transitions p)"
      then obtain u where "u \<in> set (pl_Transitions p)" "tr_ID u = containment_id lib cid" by (auto simp: t_def)
      then have "tr_Receipt u \<in> set (receipts cid p)" using safe by (auto simp: opens_safely_def Let_def cid_def receipts_def)
      then show False using none by simp
    qed
    define ts where "ts = (if vi_Action v = ''quarantine'' then [t] else [])"
    have q': "q = p\<lparr>pl_Cases := pl_Cases p @ [c], pl_Transitions := pl_Transitions p @ ts\<rparr>"
      using 2(1) q fresh by (auto simp: ts_def InsertRecoveryCaseTransition_def list_ex_iff image_iff)
    have "receipts (rc_ID c) q = map tr_Receipt ts" using none by (simp add: q' receipts_def c_def ts_def t_def containment_receipt_def)
    then have "case_ok lib q c"
      by (auto simp: case_ok_def q' ts_def c_def t_def containment_receipt_def cid_def RecoveryCaseTerminalStates_def
          IsLegalRecoveryCaseTransition_def legalRecoveryCaseTransitions_def)
    then show ?thesis using add_case_ok [OF ok 2(2), of ts] unfolding q' by (auto simp: ts_def t_def c_def containment_receipt_def)
  qed
qed

lemma artifact_of_kind_SomeD:
  "artifact_of_kind kind org cid aid p = Some a \<Longrightarrow> a \<in> set (pl_Artifacts p) \<and> at_OrgID a = org \<and> at_CaseID a = cid \<and> at_ID a = aid \<and> at_Kind a = kind"
  by (auto simp: artifact_of_kind_def GetRecoveryCaseArtifact_def dest!: find_in split: option.split_asm if_split_asm)

text \<open>Everything a grant rests on.\<close>

lemma ApproveRecoveryCandidate_Ok:
  assumes "ApproveRecoveryCandidate i now gid p = Ok (g, q)"
  obtains a c candidate validation p1 where "pi_Auth i = Some a" "\<not> actor_missing (Some a)" "au_Mode a \<noteq> ''service-token''"
    "GetRecoveryCase (au_OrgID a) (pi_CaseID i) p = Some c" "rc_State c = ''awaiting_approval''" "rc_Revision c = pi_ExpectedRevision i"
    "artifact_of_kind ''candidate'' (au_OrgID a) (pi_CaseID i) (pi_Candidate i) p = Some candidate"
    "artifact_of_kind ''validation'' (au_OrgID a) (pi_CaseID i) (pi_Validation i) p = Some validation"
    "validation_binds candidate validation (rc_Revision c)" "RevokeRecoveryApprovalGrants now (au_OrgID a) (pi_CaseID i) p = Some p1"
    "g = \<lparr>gr_ID = gid, gr_OrgID = au_OrgID a, gr_CaseID = pi_CaseID i, gr_Candidate = at_ID candidate, gr_Validation = at_ID validation,
               gr_CaseRevision = rc_Revision c, gr_GrantedBy = au_UserID a, gr_ExpiresAt = now + 30 * 60 * 1000, gr_ConsumedAt = None,
               gr_ConsumedBy = None, gr_RevokedAt = None, gr_CreatedAt = now\<rparr>"
    "q = WriteAudit ''recovery.case.approved'' (pi_CaseID i) (p1\<lparr>pl_Grants := pl_Grants p1 @ [g]\<rparr>)"
  using assms unfolding ApproveRecoveryCandidate_def InsertRecoveryApprovalGrant_def
  by (auto simp: Let_def split: option.split_asm if_split_asm)

lemma ApproveRecoveryCandidate_ok:
  assumes ap: "ApproveRecoveryCandidate i now gid p = Ok (g, q)" and ok: "plane_ok lib p"
  shows "plane_ok lib q"
  using ap
proof (cases rule: ApproveRecoveryCandidate_Ok)
  case (1 a c candidate validation p1)
  have p1: "plane_ok lib p1" "pl_Cases p1 = pl_Cases p" "pl_Artifacts p1 = pl_Artifacts p"
    using revoke_ok [OF 1(10) ok] revoke_frame [OF 1(10)] by auto
  have "grant_current q g"
    unfolding grant_current_def 1(11,12)
    using GetRecoveryCase_SomeD [OF 1(4)] artifact_of_kind_SomeD [OF 1(7)] artifact_of_kind_SomeD [OF 1(8)] 1(5,9) p1 by auto
  moreover have "grant_current q h" if "grant_current p1 h" for h using that by (simp add: grant_current_def 1(12))
  moreover have "case_ok lib q d \<longleftrightarrow> case_ok lib p1 d" for d by (simp add: case_ok_def receipts_def 1(12))
  ultimately show ?thesis using p1(1) by (auto simp: plane_ok_def 1(12))
qed

section \<open>A contract of the tables\<close>

text \<open>
  What every operation keeps is shown once, from what the statements keep that it is made of. The
  organisation is the actor's; a governed move is one statement here.
\<close>

locale plane_contract =
  fixes K :: "plane \<Rightarrow> plane \<Rightarrow> bool" and org :: string
  assumes refl: "K p p"
    and trans: "K p q \<Longrightarrow> K q r \<Longrightarrow> K p r"
    and audit: "K p (WriteAudit x y p)"
    and row: "InsertRecoveryCaseRow c p = Some q \<Longrightarrow> rc_OrgID c = org \<Longrightarrow> K p q"
    and receipt: "tr_OrgID t = org \<Longrightarrow> K p (snd (InsertRecoveryCaseTransition t p))"
    and revoke: "RevokeRecoveryApprovalGrants tm org cid p = Some q \<Longrightarrow> K p q"
    and artifact: "insert_artifact lib org cid kind ak ai rh tm p = Some (a, q) \<Longrightarrow> K p q"
    and move: "IsLegalRecoveryCaseTransition frm to \<Longrightarrow> (\<And>d. P d \<Longrightarrow> rc_OrgID d = org \<and> rc_State d = frm) \<Longrightarrow> tr_OrgID t = org \<Longrightarrow>
      K p (p\<lparr>pl_Cases := map (\<lambda>d. if P d then move_row to res d else d) (pl_Cases p), pl_Transitions := pl_Transitions p @ [t]\<rparr>)"
begin

lemma move_with_receipt_keeps:
  assumes "move_with_receipt lib org r revision tm p = Ok (moved, q)"
  shows "K p q"
  using assms
proof (cases rule: move_with_receipt_Ok)
  case (1 c)
  show ?thesis unfolding 1(8) by (rule move [OF 1(7)]) auto
qed

lemma insert_artifacts_keeps: "insert_artifacts lib org cid ak ai tm xs p = Some (as, q) \<Longrightarrow> K p q"
proof (induction xs arbitrary: p as)
  case (Cons x xs)
  obtain kind rh where x: "x = (kind, rh)" by (cases x) auto
  from Cons.prems obtain a p1 as1 where "insert_artifact lib org cid kind ak ai rh tm p = Some (a, p1)"
    "insert_artifacts lib org cid ak ai tm xs p1 = Some (as1, q)"
    by (auto simp: x split: option.split_asm)
  then show ?case using Cons.IH artifact trans by blast
qed (simp add: refl)

lemma advance_steps_keeps:
  "advance_steps lib a cid arts now idx prev current revision steps p = Ok (row, q) \<Longrightarrow> au_OrgID a = org \<Longrightarrow> K p q"
proof (induction steps arbitrary: idx prev current revision p)
  case (Cons s rest)
  from Cons.prems(1) obtain moved p1 where
    m: "move_with_receipt lib (au_OrgID a) (step_receipt a cid arts (rc_RunID current) s) revision (now + int idx) p = Ok (moved, p1)"
    and rest: "advance_steps lib a cid arts now (idx + 1) (Some (ts_To s)) moved (rc_Revision moved) rest p1 = Ok (row, q)"
    by (auto split: if_split_asm sum.split_asm move_error.split_asm)
  show ?case using move_with_receipt_keeps m Cons.IH [OF rest] Cons.prems(2) trans by blast
qed (simp add: refl)

lemma AdvanceRecoveryCase_keeps:
  assumes "AdvanceRecoveryCase lib i now p = Ok (res, q)" "av_Auth i = Some a" "au_OrgID a = org"
  shows "K p q"
  using assms(1)
proof (cases rule: AdvanceRecoveryCase_Ok)
  case (1 a' first rest prepared c p1 arts p2 row p3)
  have o: "au_OrgID a' = org" using 1(1) assms(2,3) by simp
  have "K p p1" "K p1 p2" "K p2 p3"
    using revoke 1(8) insert_artifacts_keeps 1(9) advance_steps_keeps [OF 1(10) o] o by blast+
  then show ?thesis using audit trans unfolding 1(12) by blast
qed

lemma TransitionRecoveryCase_keeps:
  assumes "TransitionRecoveryCase lib org r now dbNow p = Ok q"
  shows "K p q"
  using assms
proof (cases rule: TransitionRecoveryCase_Ok)
  case (1 c p1 tm)
  have "K p1 q" unfolding 1(5) by (rule move [OF 1(3)]) auto
  then show ?thesis using revoke 1(2) trans by blast
qed

lemma CreateRecoveryCase_keeps: "CreateRecoveryCase lib i p = Ok (cid, q) \<Longrightarrow> ci_OrgID i = org \<Longrightarrow> K p q"
  by (auto simp: CreateRecoveryCase_def Let_def split: option.split_asm intro: row)

lemma open_semantic_case_keeps:
  assumes "open_semantic_case lib m v tm p = Some q" "cm_OrgID m = org"
  shows "K p q"
proof -
  from assms obtain c p1 where "InsertRecoveryCaseRow c p = Some p1" "rc_OrgID c = org"
    "q = p1 \<or> (\<exists>t. tr_OrgID t = org \<and> q = snd (InsertRecoveryCaseTransition t p1))"
    unfolding open_semantic_case_def Let_def
    by (auto split: option.split_asm if_split_asm) (metis case_row.select_convs(2) transition_row.select_convs(2))+
  then show ?thesis using row receipt trans by metis
qed

end

text \<open>Approval adds a grant, which not every contract allows.\<close>

locale approval_contract = plane_contract +
  assumes grant: "gr_OrgID g = org \<Longrightarrow> K p (p\<lparr>pl_Grants := pl_Grants p @ [g]\<rparr>)"
begin

lemma ApproveRecoveryCandidate_keeps:
  assumes "ApproveRecoveryCandidate i now gid p = Ok (g, q)" "pi_Auth i = Some a" "au_OrgID a = org"
  shows "K p q"
  using assms(1)
proof (cases rule: ApproveRecoveryCandidate_Ok)
  case (1 a' c candidate validation p1)
  have "K p p1" "K p1 (p1\<lparr>pl_Grants := pl_Grants p1 @ [g]\<rparr>)" using 1(1,10) assms(2,3) revoke grant [of g] by (auto simp: 1(11))
  then show ?thesis using audit trans unfolding 1(12) by blast
qed

end

section \<open>What no operation undoes\<close>

text \<open>
  Receipts and artifacts are only appended, a grant that was consumed or revoked stays as it is, and the row
  of a case in a terminal state never changes.
\<close>

definition kept :: "plane \<Rightarrow> plane \<Rightarrow> bool" where
  "kept p q \<longleftrightarrow> (\<exists>ts. pl_Transitions q = pl_Transitions p @ ts) \<and> (\<exists>xs. pl_Artifacts q = pl_Artifacts p @ xs) \<and>
     (\<forall>g\<in>set (pl_Grants p). \<not> grant_open g \<longrightarrow> g \<in> set (pl_Grants q)) \<and>
     (\<forall>c\<in>set (pl_Cases p). rc_State c \<in> set RecoveryCaseTerminalStates \<longrightarrow> c \<in> set (pl_Cases q))"

text \<open>No grant is open that was not open before.\<close>

definition no_new_grant :: "plane \<Rightarrow> plane \<Rightarrow> bool" where
  "no_new_grant p q \<longleftrightarrow> (\<forall>g\<in>set (pl_Grants q). grant_open g \<longrightarrow> g \<in> set (pl_Grants p))"

text \<open>The rows of every other organisation stay as they are.\<close>

definition isolated :: "string \<Rightarrow> plane \<Rightarrow> plane \<Rightarrow> bool" where
  "isolated org p q \<longleftrightarrow> filter (\<lambda>c. rc_OrgID c \<noteq> org) (pl_Cases q) = filter (\<lambda>c. rc_OrgID c \<noteq> org) (pl_Cases p) \<and>
     filter (\<lambda>t. tr_OrgID t \<noteq> org) (pl_Transitions q) = filter (\<lambda>t. tr_OrgID t \<noteq> org) (pl_Transitions p) \<and>
     filter (\<lambda>a. at_OrgID a \<noteq> org) (pl_Artifacts q) = filter (\<lambda>a. at_OrgID a \<noteq> org) (pl_Artifacts p) \<and>
     filter (\<lambda>g. gr_OrgID g \<noteq> org) (pl_Grants q) = filter (\<lambda>g. gr_OrgID g \<noteq> org) (pl_Grants p)"

lemma filter_map_if: "(\<And>d. P d \<Longrightarrow> \<not> Q d \<and> \<not> Q (f d)) \<Longrightarrow> filter Q (map (\<lambda>d. if P d then f d else d) xs) = filter Q xs"
  by (induction xs) auto

lemma revoked_grants:
  "RevokeRecoveryApprovalGrants tm org cid p = Some q \<Longrightarrow>
     pl_Grants q = map (\<lambda>g. if gr_OrgID g = org \<and> gr_CaseID g = cid \<and> grant_open g then g\<lparr>gr_RevokedAt := Some tm\<rparr> else g) (pl_Grants p)"
  by (auto simp: RevokeRecoveryApprovalGrants_def Let_def split: if_split_asm)

lemma kept_trans: "kept p q \<Longrightarrow> kept q r \<Longrightarrow> kept p r"
  unfolding kept_def by (metis append.assoc)

lemma no_new_grant_trans: "no_new_grant p q \<Longrightarrow> no_new_grant q r \<Longrightarrow> no_new_grant p r"
  by (auto simp: no_new_grant_def)

interpretation history: approval_contract kept org
proof
  show "kept p q" if "RevokeRecoveryApprovalGrants tm org cid p = Some q" for tm cid p q
  proof -
    have "g \<in> set (pl_Grants q)" if "g \<in> set (pl_Grants p)" "\<not> grant_open g" for g
      using that by (force simp: revoked_grants [OF \<open>_ = Some q\<close>] image_iff)
    then show ?thesis using revoke_frame [OF that] by (simp add: kept_def)
  qed
  show "kept p (p\<lparr>pl_Cases := map (\<lambda>d. if P d then move_row to res d else d) (pl_Cases p), pl_Transitions := pl_Transitions p @ [t]\<rparr>)"
    if "IsLegalRecoveryCaseTransition frm to" "\<And>d. P d \<Longrightarrow> rc_OrgID d = org \<and> rc_State d = frm" for frm to P t p res
  proof -
    have "\<not> P d" if "rc_State d \<in> set RecoveryCaseTerminalStates" for d
      using that terminal_final \<open>IsLegalRecoveryCaseTransition frm to\<close> \<open>\<And>d. P d \<Longrightarrow> rc_OrgID d = org \<and> rc_State d = frm\<close> by metis
    then show ?thesis by (force simp: kept_def image_iff)
  qed
qed (auto simp: kept_def grows_def InsertRecoveryCaseTransition_def elim!: InsertRow_cases dest!: insert_artifact_grows intro: kept_trans [unfolded kept_def])

interpretation granting: plane_contract no_new_grant org
proof
  show "no_new_grant p q" if "RevokeRecoveryApprovalGrants tm org cid p = Some q" for tm cid p q
    using revoke_frame [OF that] by (simp add: no_new_grant_def)
qed (auto simp: no_new_grant_def grows_def InsertRecoveryCaseTransition_def elim!: InsertRow_cases dest!: insert_artifact_grows)

interpretation tenancy: approval_contract "isolated org" org
proof
  show "isolated org p q" if "RevokeRecoveryApprovalGrants tm org cid p = Some q" for tm cid p q
    unfolding isolated_def revoked_grants [OF that] using revoke_frame [OF that] by (auto intro!: filter_map_if)
  show "isolated org p q" if "insert_artifact lib org cid kind ak ai rh tm p = Some (a, q)" for lib cid kind ak ai rh tm p a q
    using insert_artifact_cases [OF that] by (auto simp: isolated_def)
  show "isolated org p (p\<lparr>pl_Cases := map (\<lambda>d. if P d then move_row to res d else d) (pl_Cases p), pl_Transitions := pl_Transitions p @ [t]\<rparr>)"
    if "\<And>d. P d \<Longrightarrow> rc_OrgID d = org \<and> rc_State d = frm" "tr_OrgID t = org" for frm to P t p res
    using that by (auto simp: isolated_def intro!: filter_map_if)
qed (auto simp: isolated_def InsertRecoveryCaseTransition_def elim!: InsertRow_cases)

lemma approved_grant:
  assumes "ApproveRecoveryCandidate i now gid p = Ok (g, q)" "h \<in> set (pl_Grants q)" "grant_open h"
  shows "h \<in> set (pl_Grants p) \<or> h = g"
  using assms(1)
proof (cases rule: ApproveRecoveryCandidate_Ok)
  case (1 a c candidate validation p1)
  show ?thesis using revoke_frame(4) [OF 1(10)] assms(2,3) by (auto simp: 1(12))
qed

end
