(* ===== verification/Resolution.thy ===== *)
theory Resolution
  imports Governance Invariants
begin

text \<open>
  Resolving a recovery case: \<^verbatim>\<open>engine/semanticresolution.go\<close> and \<^verbatim>\<open>semanticmonitoring.go\<close> on a run together with
  the tables of the recovery cases. The run's own list of cases is what the tables say of the run.
  An operation is one transaction: it returns the new state or an error that leaves the state alone.
\<close>

section \<open>A run with its recovery cases\<close>

record recovery_state =
  rs_RunID :: string
  rs_Run :: run_db
  rs_Plane :: plane

definition case_view :: "case_row \<Rightarrow> semantic_case" where
  "case_view c = \<lparr>cs_DetectorID = rc_DetectorID c, cs_SourceNodeID = rc_SourceNodeID c, cs_Action = rc_Action c, cs_State = rc_State c\<rparr>"

definition run_cases :: "string \<Rightarrow> string \<Rightarrow> plane \<Rightarrow> semantic_case list" where
  "run_cases org run p = map case_view (filter (\<lambda>c. rc_OrgID c = org \<and> rc_RunID c = run) (pl_Cases p))"

definition with_cases :: "string \<Rightarrow> plane \<Rightarrow> run_db \<Rightarrow> run_db" where
  "with_cases run p db = db\<lparr>r_Cases := run_cases (r_OrgID db) run p\<rparr>"

section \<open>Statements\<close>

definition LockRunForSemanticResolution :: "string \<Rightarrow> string \<Rightarrow> recovery_state \<Rightarrow> run_db option" where
  "LockRunForSemanticResolution run org s = (if rs_RunID s = run \<and> r_OrgID (rs_Run s) = org then Some (rs_Run s) else None)"

definition LockRunNodesForSemanticResolution :: "run_db \<Rightarrow> run_node list" where
  "LockRunNodesForSemanticResolution db = sort_key rn_ID (r_Nodes db)"

definition LockOpenSemanticRecoveryCases :: "string \<Rightarrow> string \<Rightarrow> string \<Rightarrow> plane \<Rightarrow> case_row list" where
  "LockOpenSemanticRecoveryCases org run node p = sort_key rc_ID (filter (\<lambda>c. rc_OrgID c = org \<and> rc_RunID c = run \<and> rc_SourceNodeID c = node \<and>
     rc_Source c = ''semantic_violation'' \<and> rc_State c \<notin> {''verified_recovered'', ''recurred'', ''accepted_loss'', ''abandoned''}) (pl_Cases p))"

definition LockMonitoringSemanticRecoveryCases :: "string \<Rightarrow> string \<Rightarrow> plane \<Rightarrow> case_row list" where
  "LockMonitoringSemanticRecoveryCases org run p = sort_key rc_ID (filter (\<lambda>c. rc_OrgID c = org \<and> rc_RunID c = run \<and>
     rc_Source c = ''semantic_violation'' \<and> rc_State c = ''monitoring'') (pl_Cases p))"

definition blocking :: "string \<Rightarrow> string \<Rightarrow> case_row \<Rightarrow> bool" where
  "blocking org run c \<longleftrightarrow> rc_OrgID c = org \<and> rc_RunID c = run \<and> rc_Source c = ''semantic_violation'' \<and>
     rc_State c \<notin> {''publishing'', ''monitoring'', ''verified_recovered'', ''recurred'', ''accepted_loss'', ''abandoned''}"

definition CountBlockingSemanticRecoveryCases :: "string \<Rightarrow> string \<Rightarrow> plane \<Rightarrow> nat \<times> nat" where
  "CountBlockingSemanticRecoveryCases org run p =
     (let cs = filter (blocking org run) (pl_Cases p) in (length cs, length (filter (\<lambda>c. rc_Action c = ''quarantine'') cs)))"

definition FindActiveRecoveryApprovalGrant :: "string \<Rightarrow> string \<Rightarrow> string \<Rightarrow> string \<Rightarrow> int \<Rightarrow> int \<Rightarrow> plane \<Rightarrow> grant_row option" where
  "FindActiveRecoveryApprovalGrant org cid candidate validation revision now p =
     (let gs = filter (\<lambda>g. gr_OrgID g = org \<and> gr_CaseID g = cid \<and> gr_Candidate g = candidate \<and> gr_Validation g = validation \<and>
            gr_CaseRevision g = revision \<and>
            list_ex (\<lambda>c. rc_OrgID c = org \<and> rc_ID c = cid \<and> rc_Revision c = gr_CaseRevision g) (pl_Cases p) \<and>
            grant_open g \<and> gr_ExpiresAt g > now) (pl_Grants p) in
      find (\<lambda>g. list_all (\<lambda>h. gr_CreatedAt h \<le> gr_CreatedAt g) gs) gs)"

definition ConsumeRecoveryApprovalGrant :: "int \<Rightarrow> string \<Rightarrow> string \<Rightarrow> string \<Rightarrow> string \<Rightarrow> int \<Rightarrow> plane \<Rightarrow> (nat \<times> plane) option" where
  "ConsumeRecoveryApprovalGrant now user gid org cid revision p =
     (let P = (\<lambda>g. gr_ID g = gid \<and> gr_OrgID g = org \<and> gr_CaseID g = cid \<and> gr_CaseRevision g = revision \<and> grant_open g \<and> gr_ExpiresAt g > now) in
      if list_ex (\<lambda>g. P g \<and> now < gr_CreatedAt g) (pl_Grants p) then None
      else Some (length (filter P (pl_Grants p)),
        p\<lparr>pl_Grants := map (\<lambda>g. if P g then g\<lparr>gr_ConsumedAt := Some now, gr_ConsumedBy := Some user\<rparr> else g) (pl_Grants p)\<rparr>))"

definition GetLatestRecoveryCaseArtifactByKind :: "string \<Rightarrow> string \<Rightarrow> string \<Rightarrow> plane \<Rightarrow> artifact_row option" where
  "GetLatestRecoveryCaseArtifactByKind org cid kind p =
     (let xs = sort_key at_CreatedAt (sort_key at_ID (filter (\<lambda>a. at_OrgID a = org \<and> at_CaseID a = cid \<and> at_Kind a = kind) (pl_Artifacts p))) in
      if xs = [] then None else Some (last xs))"

definition ReplaceSemanticRunNodeOutput :: "json \<Rightarrow> string \<Rightarrow> run_db \<Rightarrow> nat \<times> run_db" where
  "ReplaceSemanticRunNodeOutput state node = cas (is_node node NSucceeded) (\<lambda>r. r\<lparr>rn_State := state\<rparr>)"

definition UpdateRunSemanticResolution :: "bool \<Rightarrow> string \<Rightarrow> run_status \<Rightarrow> run_db \<Rightarrow> nat \<times> run_db" where
  "UpdateRunSemanticResolution resume outcome expected db =
     (if r_Status db = expected then (1, db\<lparr>r_Status := (if resume then RRunning else r_Status db), r_OutcomeStatus := outcome\<rparr>) else (0, db))"

definition FinalizeRunSemanticRecoveryOutcome :: "bool \<Rightarrow> run_db \<Rightarrow> run_db" where
  "FinalizeRunSemanticRecoveryOutcome terminalSuccess db =
     (if terminal (r_Status db) \<and> r_OutcomeStatus db = ''semantic_recovering''
      then db\<lparr>r_OutcomeStatus := (if terminalSuccess then ''semantic_recovered'' else [])\<rparr> else db)"

section \<open>Monitoring\<close>

record publication_binding =
  pb_CaseID :: string
  pb_AuthorityCaseID :: string
  pb_CaseRevision :: int
  pb_RunID :: string
  pb_Decision :: string
  pb_CandidateArtifactID :: string
  pb_CandidateSha256 :: string
  pb_ValidationArtifactID :: string
  pb_ValidationSha256 :: string

fun decode_binding :: "json \<Rightarrow> publication_binding option" where
  "decode_binding (JObj m) =
     (case (string_field ''caseId'' m, string_field ''authorityCaseId'' m, int64_field ''caseRevision'' m, string_field ''runId'' m, string_field ''decision'' m,
            string_field ''candidateArtifactId'' m, string_field ''candidateSha256'' m, string_field ''validationArtifactId'' m, string_field ''validationSha256'' m) of
        (Some c, Some a, Some r, Some n, Some d, Some ci, Some ch, Some vi, Some vh) \<Rightarrow>
          Some \<lparr>pb_CaseID = c, pb_AuthorityCaseID = a, pb_CaseRevision = r, pb_RunID = n, pb_Decision = d, pb_CandidateArtifactID = ci,
            pb_CandidateSha256 = ch, pb_ValidationArtifactID = vi, pb_ValidationSha256 = vh\<rparr>
      | _ \<Rightarrow> None)"
| "decode_binding JNull = Some \<lparr>pb_CaseID = [], pb_AuthorityCaseID = [], pb_CaseRevision = 0, pb_RunID = [], pb_Decision = [],
     pb_CandidateArtifactID = [], pb_CandidateSha256 = [], pb_ValidationArtifactID = [], pb_ValidationSha256 = []\<rparr>"
| "decode_binding _ = None"

definition binding_ok :: "publication_binding \<Rightarrow> case_row \<Rightarrow> string \<Rightarrow> bool" where
  "binding_ok b c run \<longleftrightarrow> pb_CaseID b = rc_ID c \<and> pb_RunID b = run \<and> pb_Decision b = ''replace'' \<and> pb_AuthorityCaseID b \<noteq> [] \<and>
     pb_CaseRevision b \<ge> 1 \<and> pb_CandidateArtifactID b \<noteq> [] \<and> pb_ValidationArtifactID b \<noteq> [] \<and>
     isLowerHexSha256 (pb_CandidateSha256 b) \<and> isLowerHexSha256 (pb_ValidationSha256 b)"

record resolution_library = case_library +
  rl_FormatTime :: "int \<Rightarrow> string"

definition verification_payload ::
    "resolution_library \<Rightarrow> string \<Rightarrow> string \<Rightarrow> string \<Rightarrow> bool \<Rightarrow> string \<Rightarrow> case_row \<Rightarrow> artifact_row \<Rightarrow> publication_binding \<Rightarrow> int \<Rightarrow> json" where
  "verification_payload lib run eventID status success resultState c publication b verifiedAt = JObj
     [(''eventId'', JStr eventID), (''caseId'', JStr (rc_ID c)), (''runId'', JStr run), (''sourceNodeId'', JStr (rc_SourceNodeID c)),
      (''detectorId'', JStr (rc_DetectorID c)), (''decision'', JStr ''replace''), (''resultState'', JStr resultState), (''terminalStatus'', JStr status),
      (''generationBoundTerminalSuccess'', JBool success), (''deterministicValidationPassed'', JBool True),
      (''authorityCaseId'', JStr (pb_AuthorityCaseID b)), (''publicationArtifactId'', JStr (at_ID publication)),
      (''publicationSha256'', JStr (at_Sha256 publication)), (''candidateArtifactId'', JStr (pb_CandidateArtifactID b)),
      (''candidateSha256'', JStr (pb_CandidateSha256 b)), (''validationArtifactId'', JStr (pb_ValidationArtifactID b)),
      (''validationSha256'', JStr (pb_ValidationSha256 b)), (''verifiedAt'', JStr (rl_FormatTime lib verifiedAt))]"

fun run_status_text :: "run_status \<Rightarrow> string" where
  "run_status_text RRunning = ''running''"
| "run_status_text RWaiting = ''waiting''"
| "run_status_text RSucceeded = ''succeeded''"
| "run_status_text RFailed = ''failed''"
| "run_status_text RCancelled = ''cancelled''"
| "run_status_text RTimedOut = ''timed_out''"

definition monitoring_receipt :: "string \<Rightarrow> string \<Rightarrow> run_status \<Rightarrow> string \<Rightarrow> case_row \<Rightarrow> artifact_row \<Rightarrow> artifact_row \<Rightarrow> transition_receipt" where
  "monitoring_receipt run eventID st resultState c publication verification =
     \<lparr>rp_CaseID = rc_ID c, rp_From = ''monitoring'', rp_To = resultState, rp_ActorKind = ''system'', rp_ActorID = [],
      rp_Evidence = [\<lparr>er_Kind = ''run'', er_ID = run, er_Sha256 = []\<rparr>, \<lparr>er_Kind = ''run_event'', er_ID = eventID, er_Sha256 = []\<rparr>,
        \<lparr>er_Kind = ''publication'', er_ID = at_ID publication, er_Sha256 = at_Sha256 publication\<rparr>,
        \<lparr>er_Kind = ''effect'', er_ID = at_ID verification, er_Sha256 = at_Sha256 verification\<rparr>],
      rp_Reason = (if st = RSucceeded then ''Approved replacement reached generation-bound terminal success''
        else ''Approved replacement did not reach generation-bound terminal success: '' @ run_status_text st)\<rparr>"

definition finalize_case :: "resolution_library \<Rightarrow> string \<Rightarrow> run_status \<Rightarrow> string \<Rightarrow> int \<Rightarrow> case_row \<Rightarrow> plane \<Rightarrow> governance_error + plane" where
  "finalize_case lib run st eventID verifiedAt c p =
     (let resultState = (if st = RSucceeded then ''verified_recovered'' else ''recurred''); base = case_library.truncate lib in
      case GetLatestRecoveryCaseArtifactByKind (rc_OrgID c) (rc_ID c) ''publication'' p of None \<Rightarrow> Err StatementFailed | Some publication \<Rightarrow>
      case decode_binding (at_Payload publication) of None \<Rightarrow> Err StatementFailed | Some b \<Rightarrow>
      if \<not> binding_ok b c run then Err StatementFailed
      else case boundedRecoveryArtifact base (verification_payload lib run eventID (run_status_text st) (st = RSucceeded) resultState c publication b verifiedAt) of
        Err e \<Rightarrow> Err e | Ok rawHash \<Rightarrow>
      case insert_artifact base (rc_OrgID c) (rc_ID c) ''verification'' ''system'' [] rawHash verifiedAt p of None \<Rightarrow> Err StatementFailed | Some (verification, p1) \<Rightarrow>
      case move_with_receipt base (rc_OrgID c) (monitoring_receipt run eventID st resultState c publication verification) (rc_Revision c) (verifiedAt + 1) p1 of
        Err (BadReceipt problems) \<Rightarrow> Err (InvalidReceipt problems)
      | Err CasLost \<Rightarrow> Err ErrRecoveryCaseConflict
      | Err ReceiptTaken \<Rightarrow> Err ErrRecoveryCaseConflict
      | Ok (moved, p2) \<Rightarrow> if rc_State moved \<noteq> resultState then Err ErrRecoveryCaseConflict else Ok p2)"

fun finalize_cases :: "resolution_library \<Rightarrow> string \<Rightarrow> run_status \<Rightarrow> string \<Rightarrow> int \<Rightarrow> nat \<Rightarrow> case_row list \<Rightarrow> plane \<Rightarrow> governance_error + plane" where
  "finalize_cases lib run st eventID terminalAt idx [] p = Ok p"
| "finalize_cases lib run st eventID terminalAt idx (c # cs) p =
     (case finalize_case lib run st eventID (terminalAt + (int idx * 2 + 1)) c p of
        Err e \<Rightarrow> Err e | Ok p1 \<Rightarrow> finalize_cases lib run st eventID terminalAt (idx + 1) cs p1)"

definition finalizeSemanticRecoveryMonitoring ::
    "resolution_library \<Rightarrow> run_status \<Rightarrow> string \<Rightarrow> int \<Rightarrow> recovery_state \<Rightarrow> governance_error + recovery_state" where
  "finalizeSemanticRecoveryMonitoring lib st eventID terminalAt s =
     (let run = rs_RunID s; db = rs_Run s; org = r_OrgID db; cs = LockMonitoringSemanticRecoveryCases org run (rs_Plane s) in
      if \<not> terminal st then Err StatementFailed
      else if run = [] \<or> eventID = [] then Err StatementFailed
      else if r_Status db \<noteq> st then Err StatementFailed
      else if cs = [] then Ok s
      else case finalize_cases lib run st eventID terminalAt 0 cs (rs_Plane s) of
        Err e \<Rightarrow> Err e
      | Ok p1 \<Rightarrow> Ok (s\<lparr>rs_Run := with_cases run p1 (FinalizeRunSemanticRecoveryOutcome (st = RSucceeded) db), rs_Plane := p1\<rparr>))"

text \<open>The monitoring calls a step of the run made, carried out on the tables in their order.\<close>

fun settle_calls :: "resolution_library \<Rightarrow> string \<Rightarrow> call list \<Rightarrow> recovery_state \<Rightarrow> governance_error + recovery_state" where
  "settle_calls lib eventID [] s = Ok s"
| "settle_calls lib eventID (FinalizeSemanticMonitoring st tm # rest) s =
     (case finalizeSemanticRecoveryMonitoring lib st eventID tm s of Err e \<Rightarrow> Err e | Ok s1 \<Rightarrow> settle_calls lib eventID rest s1)"
| "settle_calls lib eventID (_ # rest) s = settle_calls lib eventID rest s"

section \<open>Locking and checking the target\<close>

type_synonym resolve_input = approve_input

record resolution_target =
  tg_Snapshot :: case_row
  tg_OpenCases :: "case_row list"
  tg_Target :: case_row
  tg_Candidate :: candidate_payload
  tg_CandidateArtifact :: artifact_row
  tg_ValidationArtifact :: artifact_row
  tg_Contract :: contract
  tg_ActorKind :: string

definition resolvable :: "case_row \<Rightarrow> run_db \<Rightarrow> string \<Rightarrow> bool" where
  "resolvable c db decision \<longleftrightarrow> rc_Source c = semanticRecoveryCaseSource \<and> rc_State c = ''awaiting_approval'' \<and>
     (rc_Action c = ''quarantine'' \<and> r_Status db = RWaiting \<or> rc_Action c = ''observe'' \<and> decision = ''accept_loss'')"

text \<open>The target, and the tables after the grant has been consumed.\<close>

definition lockSemanticResolutionTarget ::
    "resolve_input \<Rightarrow> auth_context \<Rightarrow> case_row \<Rightarrow> int \<Rightarrow> recovery_state \<Rightarrow> governance_error + resolution_target \<times> plane" where
  "lockSemanticResolutionTarget i a snapshot now s =
     (let org = au_OrgID a; p = rs_Plane s in
      case LockRunForSemanticResolution (rc_RunID snapshot) org s of None \<Rightarrow> Err ErrRecoveryCaseConflict | Some db \<Rightarrow>
      let openCases = LockOpenSemanticRecoveryCases org (rc_RunID snapshot) (rc_SourceNodeID snapshot) p in
      case find (\<lambda>c. rc_ID c = pi_CaseID i) openCases of None \<Rightarrow> Err ErrRecoveryCaseConflict | Some target \<Rightarrow>
      if rc_Revision target \<noteq> pi_ExpectedRevision i then Err ErrRecoveryCaseConflict
      else case artifact_of_kind ''candidate'' org (pi_CaseID i) (pi_Candidate i) p of None \<Rightarrow> Err ErrRecoveryCaseConflict | Some candidateArtifact \<Rightarrow>
      case artifact_of_kind ''validation'' org (pi_CaseID i) (pi_Validation i) p of None \<Rightarrow> Err ErrRecoveryCaseConflict | Some validationArtifact \<Rightarrow>
      case ParseSemanticRecoveryCandidatePayload (at_Payload candidateArtifact) of None \<Rightarrow> Err ErrRecoveryCaseConflict | Some candidate0 \<Rightarrow>
      if \<not> validation_binds candidateArtifact validationArtifact (rc_Revision target) then Err ErrRecoveryCaseConflict
      else let candidate = candidate0\<lparr>sp_Reason := TrimSpace (sp_Reason candidate0)\<rparr> in
      if sp_Decision candidate \<noteq> ''replace'' \<and> sp_Decision candidate \<noteq> ''accept_loss'' then Err ErrRecoverySemanticInputInvalid
      else if sp_Reason candidate = [] \<or> RuneCount (sp_Reason candidate) > 1000 then Err ErrRecoverySemanticInputInvalid
      else case FindActiveRecoveryApprovalGrant org (pi_CaseID i) (pi_Candidate i) (pi_Validation i) (pi_ExpectedRevision i) now p of
        None \<Rightarrow> Err ErrRecoveryCaseConflict | Some g \<Rightarrow>
      case ConsumeRecoveryApprovalGrant now (au_UserID a) (gr_ID g) org (pi_CaseID i) (pi_ExpectedRevision i) p of
        None \<Rightarrow> Err ErrRecoveryCaseConflict | Some (consumed, p1) \<Rightarrow>
      if consumed \<noteq> 1 then Err ErrRecoveryCaseConflict
      else if \<not> resolvable target db (sp_Decision candidate) then Err ErrRecoveryCaseConflict
      else if r_ReplayMode db \<noteq> [] then Err ErrRecoveryCaseConflict
      else case resolvable_contract db of None \<Rightarrow> Err ErrRecoveryCaseConflict | Some k \<Rightarrow>
      Ok (\<lparr>tg_Snapshot = snapshot, tg_OpenCases = openCases, tg_Target = target, tg_Candidate = candidate, tg_CandidateArtifact = candidateArtifact,
           tg_ValidationArtifact = validationArtifact, tg_Contract = k, tg_ActorKind = recoveryActorKind a\<rparr>, p1))"

definition casesToResolve :: "resolution_target \<Rightarrow> case_row list" where
  "casesToResolve t = (if sp_Decision (tg_Candidate t) = ''replace'' then tg_OpenCases t else [tg_Target t])"

definition evaluateSemanticReplacement :: "case_library \<Rightarrow> resolution_target \<Rightarrow> run_db \<Rightarrow> governance_error + json" where
  "evaluateSemanticReplacement lib t db =
     (let autonomy = CombineRecoveryAutonomyProfiles (map (\<lambda>c. ResolveRecoveryAutonomyProfile (Some (tg_Contract t)) (semantic_class (rc_DetectorID c))) (tg_OpenCases t)) in
      if \<not> cp_ApplyWithApproval (ap_Capabilities autonomy) then Err RecoveryPolicyBlocked
      else case prepareSemanticReplacement lib (sp_Output (tg_Candidate t)) of
        Err reason \<Rightarrow> Err (RecoverySemanticOutput reason [])
      | Ok (persisted, state) \<Rightarrow>
          let ev = EvaluateSemanticOutcome (Some (tg_Contract t)) (rc_SourceNodeID (tg_Target t)) persisted
                (runContextFromRows (LockRunNodesForSemanticResolution db)) in
          if ev_Evaluated ev = 0 \<or> ev_Violations ev \<noteq> []
          then Err (RecoverySemanticOutput (if ev_Violations ev \<noteq> [] then ''Replacement output failed deterministic validation''
                 else ''No deterministic detector evaluated the replacement output'') (ev_Violations ev))
          else Ok state)"

section \<open>Artifacts and transitions of a resolution\<close>

definition publication_payload :: "case_row \<Rightarrow> string \<Rightarrow> string \<Rightarrow> artifact_row \<Rightarrow> artifact_row \<Rightarrow> json" where
  "publication_payload c decision eventID candidate validation = JObj
     [(''eventId'', JStr eventID), (''caseId'', JStr (rc_ID c)), (''caseRevision'', JNum (Fin (of_int (rc_Revision c)))), (''runId'', JStr (rc_RunID c)),
      (''sourceNodeId'', JStr (rc_SourceNodeID c)), (''decision'', JStr decision), (''authorityCaseId'', JStr (at_CaseID candidate)),
      (''candidateArtifactId'', JStr (at_ID candidate)), (''candidateSha256'', JStr (at_Sha256 candidate)),
      (''validationArtifactId'', JStr (at_ID validation)), (''validationSha256'', JStr (at_Sha256 validation))]"

definition loss_payload :: "resolution_library \<Rightarrow> case_row \<Rightarrow> string \<Rightarrow> string \<Rightarrow> string \<Rightarrow> artifact_row \<Rightarrow> artifact_row \<Rightarrow> int \<Rightarrow> json" where
  "loss_payload lib c decision finalState eventID candidate validation occurredAt = JObj
     [(''eventId'', JStr eventID), (''caseId'', JStr (rc_ID c)), (''runId'', JStr (rc_RunID c)), (''sourceNodeId'', JStr (rc_SourceNodeID c)),
      (''detectorId'', JStr (rc_DetectorID c)), (''decision'', JStr decision), (''resultState'', JStr finalState),
      (''deterministicValidationPassed'', JBool False), (''humanLossAcknowledged'', JBool True), (''candidateArtifactId'', JStr (at_ID candidate)),
      (''validationArtifactId'', JStr (at_ID validation)), (''verifiedAt'', JStr (rl_FormatTime lib occurredAt))]"

definition resolution_artifact ::
    "resolution_library \<Rightarrow> case_row \<Rightarrow> string \<Rightarrow> string \<Rightarrow> string \<Rightarrow> json \<Rightarrow> int \<Rightarrow> plane \<Rightarrow> governance_error + artifact_row \<times> plane" where
  "resolution_artifact lib c actorKind actorID kind payload createdAt p =
     (case boundedRecoveryArtifact (case_library.truncate lib) payload of
        Err e \<Rightarrow> Err e
      | Ok rawHash \<Rightarrow> (case insert_artifact (case_library.truncate lib) (rc_OrgID c) (rc_ID c) kind actorKind actorID rawHash createdAt p of
          None \<Rightarrow> Err StatementFailed | Some r \<Rightarrow> Ok r))"

text \<open>The publication artifact, and for an accepted loss its verification.\<close>

definition insertSemanticResolutionArtifacts ::
    "resolution_library \<Rightarrow> case_row \<Rightarrow> string \<Rightarrow> string \<Rightarrow> string \<Rightarrow> string \<Rightarrow> string \<Rightarrow> artifact_row \<Rightarrow> artifact_row \<Rightarrow> int \<Rightarrow> plane \<Rightarrow>
     governance_error + (artifact_row \<times> artifact_row option) \<times> plane" where
  "insertSemanticResolutionArtifacts lib c actorKind actorID decision finalState eventID candidate validation occurredAt p =
     (case resolution_artifact lib c actorKind actorID ''publication'' (publication_payload c decision eventID candidate validation) occurredAt p of
        Err e \<Rightarrow> Err e
      | Ok (publication, p1) \<Rightarrow>
          if finalState = ''accepted_loss'' then
            (case resolution_artifact lib c actorKind actorID ''verification''
                    (loss_payload lib c decision finalState eventID candidate validation occurredAt) (occurredAt + 1) p1 of
               Err e \<Rightarrow> Err e | Ok (verification, p2) \<Rightarrow> Ok ((publication, Some verification), p2))
          else Ok ((publication, None), p1))"

definition semanticRecoveryReplacementPaths :: "(string \<times> string list) list" where
  "semanticRecoveryReplacementPaths =
     [(''detected'', [''contained'', ''diagnosed'', ''candidates_ready'', ''validating'', ''awaiting_approval'', ''publishing'', ''monitoring'']),
      (''contained'', [''diagnosed'', ''candidates_ready'', ''validating'', ''awaiting_approval'', ''publishing'', ''monitoring'']),
      (''diagnosed'', [''candidates_ready'', ''validating'', ''awaiting_approval'', ''publishing'', ''monitoring'']),
      (''candidates_ready'', [''validating'', ''awaiting_approval'', ''publishing'', ''monitoring'']),
      (''validating'', [''awaiting_approval'', ''publishing'', ''monitoring'']),
      (''awaiting_approval'', [''publishing'', ''monitoring'']),
      (''publishing'', [''monitoring''])]"

text \<open>A verification that was not written has the zero id, which the receipt's validation refuses.\<close>

definition resolution_evidence :: "case_row \<Rightarrow> string \<Rightarrow> string \<Rightarrow> string \<Rightarrow> artifact_row \<Rightarrow> artifact_row \<Rightarrow> artifact_row \<times> artifact_row option \<Rightarrow> evidence_ref list" where
  "resolution_evidence c decision eventID to candidate validation arts =
     (let (publication, verification) = arts in
      [\<lparr>er_Kind = ''operator_decision'', er_ID = eventID, er_Sha256 = []\<rparr>,
       \<lparr>er_Kind = ''run_node'', er_ID = rc_RunID c @ '':'' @ rc_SourceNodeID c, er_Sha256 = []\<rparr>,
       \<lparr>er_Kind = ''publication'', er_ID = at_ID publication, er_Sha256 = at_Sha256 publication\<rparr>] @
      (if at_CaseID candidate = rc_ID c \<and> at_CaseID validation = rc_ID c then
         [\<lparr>er_Kind = ''case_artifact'', er_ID = at_ID candidate, er_Sha256 = at_Sha256 candidate\<rparr>,
          \<lparr>er_Kind = ''validation'', er_ID = at_ID validation, er_Sha256 = at_Sha256 validation\<rparr>] else []) @
      (if decision = ''replace'' then [\<lparr>er_Kind = ''semantic_detector'', er_ID = rc_DetectorID c, er_Sha256 = []\<rparr>] else []) @
      (if to = ''verified_recovered'' \<or> to = ''accepted_loss'' then
         [\<lparr>er_Kind = ''effect'', er_ID = (case verification of None \<Rightarrow> [] | Some v \<Rightarrow> at_ID v), er_Sha256 = (case verification of None \<Rightarrow> [] | Some v \<Rightarrow> at_Sha256 v)\<rparr>]
       else []))"

fun resolution_steps ::
    "case_library \<Rightarrow> case_row \<Rightarrow> string \<Rightarrow> string \<Rightarrow> (string \<Rightarrow> evidence_ref list) \<Rightarrow> (bool \<Rightarrow> string) \<Rightarrow> int \<Rightarrow> string \<Rightarrow> int \<Rightarrow> string list \<Rightarrow> plane \<Rightarrow>
     governance_error + plane" where
  "resolution_steps lib c actorKind actorID evidence reason stepAt frm revision [] p = Ok p"
| "resolution_steps lib c actorKind actorID evidence reason stepAt frm revision (to # rest) p =
     (case move_with_receipt lib (rc_OrgID c) \<lparr>rp_CaseID = rc_ID c, rp_From = frm, rp_To = to, rp_ActorKind = actorKind, rp_ActorID = actorID,
             rp_Evidence = evidence to, rp_Reason = reason (rest = [])\<rparr> revision stepAt p of
        Err (BadReceipt problems) \<Rightarrow> Err (InvalidReceipt problems)
      | Err CasLost \<Rightarrow> Err ErrRecoveryCaseConflict
      | Err ReceiptTaken \<Rightarrow> Err ErrRecoveryCaseConflict
      | Ok (moved, p1) \<Rightarrow> resolution_steps lib c actorKind actorID evidence reason (stepAt + 1) to (rc_Revision moved) rest p1)"

definition advanceSemanticResolutionCase ::
    "case_library \<Rightarrow> case_row \<Rightarrow> string \<Rightarrow> string \<Rightarrow> string \<Rightarrow> string \<Rightarrow> string \<Rightarrow> int \<Rightarrow> artifact_row \<Rightarrow> artifact_row \<Rightarrow> artifact_row \<times> artifact_row option \<Rightarrow>
     plane \<Rightarrow> governance_error + plane" where
  "advanceSemanticResolutionCase lib c actorKind actorID decision reason eventID occurredAt candidate validation arts p =
     (let targets = (if decision = ''replace'' then (case map_of semanticRecoveryReplacementPaths (rc_State c) of None \<Rightarrow> [] | Some ts \<Rightarrow> ts) else [''accepted_loss'']) in
      if decision = ''replace'' \<and> targets = [] then Err ErrRecoveryCaseConflict
      else resolution_steps lib c actorKind actorID (\<lambda>to. resolution_evidence c decision eventID to candidate validation arts)
        (\<lambda>final. if decision = ''replace'' \<and> final then ''Replacement output passed every deterministic detector; terminal verification is monitoring'' else reason)
        occurredAt (rc_State c) (rc_Revision c) targets p)"

section \<open>Applying a resolution\<close>

text \<open>The artifacts of every case with its grants revoked, then the transitions of every case, each with the artifacts stored for it.\<close>

fun publish_cases ::
    "resolution_library \<Rightarrow> auth_context \<Rightarrow> resolution_target \<Rightarrow> string \<Rightarrow> string \<Rightarrow> int \<Rightarrow> nat \<Rightarrow> case_row list \<Rightarrow> plane \<Rightarrow>
     governance_error + (artifact_row \<times> artifact_row option) list \<times> plane" where
  "publish_cases lib a t finalState eventID resolvedAt idx [] p = Ok ([], p)"
| "publish_cases lib a t finalState eventID resolvedAt idx (c # cs) p =
     (case insertSemanticResolutionArtifacts lib c (tg_ActorKind t) (au_UserID a) (sp_Decision (tg_Candidate t)) finalState eventID
             (tg_CandidateArtifact t) (tg_ValidationArtifact t) (resolvedAt + int idx) p of
        Err e \<Rightarrow> Err e
      | Ok (arts, p1) \<Rightarrow> (case RevokeRecoveryApprovalGrants resolvedAt (au_OrgID a) (rc_ID c) p1 of
          None \<Rightarrow> Err StatementFailed
        | Some p2 \<Rightarrow> (case publish_cases lib a t finalState eventID resolvedAt (idx + 1) cs p2 of
            Err e \<Rightarrow> Err e | Ok (rest, p3) \<Rightarrow> Ok (arts # rest, p3))))"

fun advance_cases ::
    "case_library \<Rightarrow> auth_context \<Rightarrow> resolution_target \<Rightarrow> string \<Rightarrow> string \<Rightarrow> int \<Rightarrow> nat \<Rightarrow> (case_row \<times> artifact_row \<times> artifact_row option) list \<Rightarrow> plane \<Rightarrow>
     governance_error + plane" where
  "advance_cases lib a t reason eventID resolvedAt idx [] p = Ok p"
| "advance_cases lib a t reason eventID resolvedAt idx ((c, arts) # cs) p =
     (case advanceSemanticResolutionCase lib c (tg_ActorKind t) (au_UserID a) (sp_Decision (tg_Candidate t)) reason eventID
             (resolvedAt + int (idx * 16)) (tg_CandidateArtifact t) (tg_ValidationArtifact t) arts p of
        Err e \<Rightarrow> Err e | Ok p1 \<Rightarrow> advance_cases lib a t reason eventID resolvedAt (idx + 1) cs p1)"

definition ApprovalActorID :: "auth_context \<Rightarrow> string" where
  "ApprovalActorID a = (if au_Mode a = ''service-token'' then ''service-token:'' @ au_ServiceTokenSuffix a else au_UserID a)"

definition recordRunActor :: "string \<Rightarrow> string \<Rightarrow> string \<Rightarrow> run_db \<Rightarrow> run_db" where
  "recordRunActor node role actor db = (if actor = [] then db else log_call (RecordRunActor node role actor) db)"

text \<open>The replaced output, with its actors and its impact.\<close>

definition replace_output :: "resolution_target \<Rightarrow> auth_context \<Rightarrow> json \<Rightarrow> int \<Rightarrow> run_db \<Rightarrow> governance_error + run_db" where
  "replace_output t a state resolvedAt db =
     (let node = rc_SourceNodeID (tg_Snapshot t); (changed, db1) = ReplaceSemanticRunNodeOutput state node db in
      if changed \<noteq> 1 then Err ErrRecoveryCaseConflict
      else Ok (recordRecoveryImpact \<lparr>cl_RowID = [], cl_NodeID = node, cl_Attempt = 0\<rparr> resolvedAt
        (recordRunActor node ''output'' (at_ActorID (tg_CandidateArtifact t)) (recordRunActor node ''output'' (ApprovalActorID a) db1))))"

definition resolved_outcome :: "nat \<times> nat \<Rightarrow> string \<Rightarrow> string" where
  "resolved_outcome remaining decision =
     (if snd remaining \<noteq> 0 then ''semantic_quarantined''
      else if fst remaining > 0 then ''semantic_violation''
      else if decision = ''replace'' then ''semantic_recovering''
      else ''semantic_accepted_loss'')"

record resolution_result =
  rr_RunID :: string
  rr_SourceNodeID :: string
  rr_Decision :: string
  rr_Resumed :: bool
  rr_ResolvedCaseIDs :: "string list"

text \<open>The state is the one before the transaction; the tables are those after the grant was consumed.\<close>

definition applySemanticResolution ::
    "resolution_library \<Rightarrow> resolve_input \<Rightarrow> auth_context \<Rightarrow> resolution_target \<Rightarrow> json \<Rightarrow> int \<Rightarrow> string \<Rightarrow> string \<Rightarrow> plane \<Rightarrow> recovery_state \<Rightarrow>
     governance_error + resolution_result \<times> recovery_state" where
  "applySemanticResolution lib i a t state resolvedAt eventID terminalEventID p s =
     (let decision = sp_Decision (tg_Candidate t); run = rc_RunID (tg_Snapshot t); cs = casesToResolve t; base = case_library.truncate lib;
          finalState = (if decision = ''replace'' then ''monitoring'' else ''accepted_loss'');
          expected = r_Status (rs_Run s) in
      case (if decision = ''replace'' then replace_output t a state resolvedAt (rs_Run s) else Ok (rs_Run s)) of Err e \<Rightarrow> Err e | Ok db1 \<Rightarrow>
      case publish_cases lib a t finalState eventID resolvedAt 0 cs p of Err e \<Rightarrow> Err e | Ok (arts, p1) \<Rightarrow>
      case advance_cases base a t (ScrubSecretShapes (sp_Reason (tg_Candidate t))) eventID resolvedAt 0 (zip cs arts) p1 of Err e \<Rightarrow> Err e | Ok p2 \<Rightarrow>
      let remaining = CountBlockingSemanticRecoveryCases (au_OrgID a) run p2;
          resumed = (expected = RWaiting \<and> snd remaining = 0);
          (changed, db2) = UpdateRunSemanticResolution resumed (resolved_outcome remaining decision) expected (with_cases run p2 db1) in
      if changed \<noteq> 1 then Err ErrRecoveryCaseConflict
      else let db3 = add_event (rc_SourceNodeID (tg_Snapshot t)) ''recovery.semantic_resolved'' resolvedAt db2;
               db4 = (if resumed then snd (scheduleDownstream resolvedAt db3) else db3) in
      case settle_calls lib terminalEventID (drop (length (r_Calls db3)) (r_Calls db4)) (s\<lparr>rs_Run := db4, rs_Plane := p2\<rparr>) of Err e \<Rightarrow> Err e
      | Ok s1 \<Rightarrow> Ok (\<lparr>rr_RunID = run, rr_SourceNodeID = rc_SourceNodeID (tg_Snapshot t), rr_Decision = decision, rr_Resumed = resumed,
            rr_ResolvedCaseIDs = map rc_ID cs\<rparr>,
          s1\<lparr>rs_Plane := WriteAudit ''recovery.semantic_resolved'' (pi_CaseID i) (rs_Plane s1)\<rparr>))"

definition ResolveSemanticOutcomeCase ::
    "resolution_library \<Rightarrow> resolve_input \<Rightarrow> int \<Rightarrow> string \<Rightarrow> string \<Rightarrow> recovery_state \<Rightarrow> governance_error + resolution_result \<times> recovery_state" where
  "ResolveSemanticOutcomeCase lib i now eventID terminalEventID s =
     (case pi_Auth i of None \<Rightarrow> Err ErrRecoverySemanticInputInvalid | Some a \<Rightarrow>
      if actor_missing (Some a) then Err ErrRecoverySemanticInputInvalid
      else if pi_CaseID i = [] \<or> RuneCount (pi_CaseID i) > 256 \<or> pi_ExpectedRevision i < 1 \<or> pi_Candidate i = [] \<or> pi_Validation i = []
      then Err ErrRecoverySemanticInputInvalid
      else case GetRecoveryCase (au_OrgID a) (pi_CaseID i) (rs_Plane s) of None \<Rightarrow> Err ErrRecoveryCaseNotFound | Some snapshot \<Rightarrow>
      case lockSemanticResolutionTarget i a snapshot now s of Err e \<Rightarrow> Err e | Ok (t, p) \<Rightarrow>
      case (if sp_Decision (tg_Candidate t) = ''replace'' then evaluateSemanticReplacement (case_library.truncate lib) t (rs_Run s) else Ok JNull) of
        Err e \<Rightarrow> Err e | Ok state \<Rightarrow>
      case applySemanticResolution lib i a t state now eventID terminalEventID p s of Err e \<Rightarrow> Err e
      | Ok (r, s1) \<Rightarrow> Ok (r, s1\<lparr>rs_Run := log_call NotifyRunEvents (rs_Run s1)\<rparr>))"

section \<open>The tables during a resolution\<close>

lemma not_awaiting_no_open:
  assumes "plane_ok lib p" "c \<in> set (pl_Cases p)" "rc_State c \<noteq> ''awaiting_approval''"
  shows "no_open_grant (rc_ID c) p"
  unfolding no_open_grant_def using assms case_by_id [OF assms(1) _ assms(2)] by (fastforce simp: plane_ok_def grant_current_def)

lemma resolution_steps_ok:
  assumes "resolution_steps lib c ak ai ev reason tm frm revision goals p = Ok q" "plane_ok lib p" "no_open_grant (rc_ID c) p"
  shows "plane_ok lib q \<and> no_open_grant (rc_ID c) q \<and> moves_only (rc_ID c) p q"
  using assms
proof (induction goals arbitrary: tm frm revision p)
  case (Cons to rest)
  let ?r = "\<lparr>rp_CaseID = rc_ID c, rp_From = frm, rp_To = to, rp_ActorKind = ak, rp_ActorID = ai, rp_Evidence = ev to, rp_Reason = reason (rest = [])\<rparr>"
  from Cons.prems(1) obtain moved p1 where m: "move_with_receipt lib (rc_OrgID c) ?r revision tm p = Ok (moved, p1)"
    and rest: "resolution_steps lib c ak ai ev reason (tm + 1) to (rc_Revision moved) rest p1 = Ok q"
    by (auto split: sum.split_asm move_error.split_asm)
  have "plane_ok lib p1" "no_open_grant (rc_ID c) p1" "moves_only (rc_ID c) p p1"
    using move_with_receipt_ok [OF m] Cons.prems(2,3) by auto
  then show ?case using Cons.IH [OF rest] moves_only_trans by blast
qed simp

text \<open>Where the steps lead: the case they start from is at the state and revision they name, and ends at the last target.\<close>

lemma resolution_steps_end:
  assumes "resolution_steps lib c ak ai ev reason tm frm revision goals p = Ok q" "plane_ok lib p" "no_open_grant (rc_ID c) p" "goals \<noteq> []"
  shows "\<exists>d\<in>set (pl_Cases q). rc_ID d = rc_ID c \<and> rc_OrgID d = rc_OrgID c \<and> rc_State d = last goals \<and> rc_Revision d = revision + int (length goals)"
  using assms
proof (induction goals arbitrary: tm frm revision p)
  case (Cons to rest)
  let ?r = "\<lparr>rp_CaseID = rc_ID c, rp_From = frm, rp_To = to, rp_ActorKind = ak, rp_ActorID = ai, rp_Evidence = ev to, rp_Reason = reason (rest = [])\<rparr>"
  from Cons.prems(1) obtain moved p1 where m: "move_with_receipt lib (rc_OrgID c) ?r revision tm p = Ok (moved, p1)"
    and rest: "resolution_steps lib c ak ai ev reason (tm + 1) to (rc_Revision moved) rest p1 = Ok q"
    by (auto split: sum.split_asm move_error.split_asm)
  note mo = move_with_receipt_ok [OF m Cons.prems(2)]
  have p1: "plane_ok lib p1" "no_open_grant (rc_ID c) p1" "moved \<in> set (pl_Cases p1)" "rc_ID moved = rc_ID c" "rc_OrgID moved = rc_OrgID c"
    "rc_State moved = to" "rc_Revision moved = revision + 1"
    using mo Cons.prems(3) by auto
  show ?case
  proof (cases rest)
    case Nil
    then show ?thesis using rest p1 by auto
  next
    case (Cons x xs)
    then show ?thesis using Cons.IH [OF rest p1(1,2)] p1(7) by auto
  qed
qed simp

definition case_moved :: "case_row \<Rightarrow> string \<Rightarrow> plane \<Rightarrow> bool" where
  "case_moved c st q \<longleftrightarrow> (\<exists>d\<in>set (pl_Cases q). rc_ID d = rc_ID c \<and> rc_State d = st \<and> rc_Revision d > rc_Revision c)"

lemma replacement_paths: "map_of semanticRecoveryReplacementPaths s = Some ts \<Longrightarrow> ts \<noteq> [] \<and> last ts = ''monitoring''"
  by (auto simp: semanticRecoveryReplacementPaths_def split: if_split_asm)

lemma advanceSemanticResolutionCase_ok:
  assumes adv: "advanceSemanticResolutionCase lib c ak ai decision reason eid tm candidate validation arts p = Ok q"
    and ok: "plane_ok lib p" "no_open_grant (rc_ID c) p"
  shows "plane_ok lib q \<and> no_open_grant (rc_ID c) q \<and> moves_only (rc_ID c) p q \<and>
    case_moved c (if decision = ''replace'' then ''monitoring'' else ''accepted_loss'') q"
proof -
  define goals where "goals = (if decision = ''replace'' then (case map_of semanticRecoveryReplacementPaths (rc_State c) of None \<Rightarrow> [] | Some ts \<Rightarrow> ts) else [''accepted_loss''])"
  have ne: "goals \<noteq> []" using adv by (auto simp: advanceSemanticResolutionCase_def Let_def goals_def split: if_split_asm)
  have last: "last goals = (if decision = ''replace'' then ''monitoring'' else ''accepted_loss'')"
    using ne replacement_paths by (auto simp: goals_def split: option.split_asm if_split_asm)
  obtain ev rs where st: "resolution_steps lib c ak ai ev rs tm (rc_State c) (rc_Revision c) goals p = Ok q"
    using adv unfolding advanceSemanticResolutionCase_def goals_def Let_def by (auto split: if_split_asm)
  obtain d where "d \<in> set (pl_Cases q)" "rc_ID d = rc_ID c" "rc_State d = last goals" "rc_Revision d = rc_Revision c + int (length goals)"
    using resolution_steps_end [OF st ok ne] by blast
  then have "case_moved c (last goals) q" using ne by (auto simp: case_moved_def)
  then show ?thesis using resolution_steps_ok [OF st ok] last by simp
qed

text \<open>What a resolution's writes keep of the tables.\<close>

context plane_contract
begin

lemma resolution_steps_keeps:
  "resolution_steps lib c ak ai ev reason tm frm revision goals p = Ok q \<Longrightarrow> rc_OrgID c = org \<Longrightarrow> K p q"
proof (induction goals arbitrary: tm frm revision p)
  case (Cons to rest)
  let ?r = "\<lparr>rp_CaseID = rc_ID c, rp_From = frm, rp_To = to, rp_ActorKind = ak, rp_ActorID = ai, rp_Evidence = ev to, rp_Reason = reason (rest = [])\<rparr>"
  from Cons.prems(1) obtain moved p1 where "move_with_receipt lib (rc_OrgID c) ?r revision tm p = Ok (moved, p1)"
    and rest: "resolution_steps lib c ak ai ev reason (tm + 1) to (rc_Revision moved) rest p1 = Ok q"
    by (auto split: sum.split_asm move_error.split_asm)
  then show ?case using Cons.IH [OF rest] Cons.prems(2) move_with_receipt_keeps trans by blast
qed (simp add: refl)

lemma advanceSemanticResolutionCase_keeps:
  "advanceSemanticResolutionCase lib c ak ai decision reason eid tm candidate validation arts p = Ok q \<Longrightarrow> rc_OrgID c = org \<Longrightarrow> K p q"
  by (auto simp: advanceSemanticResolutionCase_def Let_def simp del: resolution_steps.simps split: if_split_asm intro: resolution_steps_keeps)

lemma resolution_artifact_keeps: "resolution_artifact lib c ak ai kind payload tm p = Ok (a, q) \<Longrightarrow> rc_OrgID c = org \<Longrightarrow> K p q"
  by (auto simp: resolution_artifact_def split: sum.split_asm option.split_asm intro: artifact)

lemma resolution_artifacts_keep:
  "insertSemanticResolutionArtifacts lib c ak ai decision fs eid candidate validation tm p = Ok (arts, q) \<Longrightarrow> rc_OrgID c = org \<Longrightarrow> K p q"
  unfolding insertSemanticResolutionArtifacts_def
  by (auto split: sum.split_asm prod.split_asm if_split_asm dest!: resolution_artifact_keeps intro: trans)

lemma publish_cases_keeps:
  "publish_cases lib a t fs eid tm idx cs p = Ok (arts, q) \<Longrightarrow> \<forall>c\<in>set cs. rc_OrgID c = org \<Longrightarrow> au_OrgID a = org \<Longrightarrow> K p q"
proof (induction cs arbitrary: idx p arts)
  case (Cons c cs)
  from Cons.prems(1) obtain x p1 p2 rest where "insertSemanticResolutionArtifacts lib c (tg_ActorKind t) (au_UserID a) (sp_Decision (tg_Candidate t)) fs eid
      (tg_CandidateArtifact t) (tg_ValidationArtifact t) (tm + int idx) p = Ok (x, p1)"
    and "RevokeRecoveryApprovalGrants tm (au_OrgID a) (rc_ID c) p1 = Some p2"
    and "publish_cases lib a t fs eid tm (idx + 1) cs p2 = Ok (rest, q)"
    by (auto split: sum.split_asm option.split_asm prod.split_asm)
  then have "K p p1" "K p1 p2" "K p2 q" using Cons.IH Cons.prems(2,3) resolution_artifacts_keep revoke by auto
  then show ?case using trans by blast
qed (simp add: refl)

lemma advance_cases_keeps:
  "advance_cases lib a t reason eid tm idx cs p = Ok q \<Longrightarrow> \<forall>(c, x)\<in>set cs. rc_OrgID c = org \<Longrightarrow> K p q"
proof (induction cs arbitrary: idx p)
  case (Cons cx cs)
  obtain c x where cx: "cx = (c, x)" by (cases cx)
  from Cons.prems(1) obtain p1 where "advanceSemanticResolutionCase lib c (tg_ActorKind t) (au_UserID a) (sp_Decision (tg_Candidate t)) reason eid
      (tm + int (idx * 16)) (tg_CandidateArtifact t) (tg_ValidationArtifact t) x p = Ok p1"
    and "advance_cases lib a t reason eid tm (idx + 1) cs p1 = Ok q"
    by (auto simp: cx split: sum.split_asm)
  then have "K p p1" "K p1 q" using Cons.IH Cons.prems(2) advanceSemanticResolutionCase_keeps by (auto simp: cx)
  then show ?case using trans by blast
qed (simp add: refl)

end

lemma resolution_artifact_grows:
  "resolution_artifact lib c ak ai kind payload tm p = Ok (a, q) \<Longrightarrow> grows p q"
  by (auto simp: resolution_artifact_def split: sum.split_asm option.split_asm dest: insert_artifact_grows)

lemma resolution_artifacts_grow:
  assumes "insertSemanticResolutionArtifacts lib c ak ai decision fs eid candidate validation tm p = Ok (arts, q)"
  shows "grows p q"
  using assms unfolding insertSemanticResolutionArtifacts_def
  by (auto split: sum.split_asm prod.split_asm if_split_asm dest!: resolution_artifact_grows intro: grows_trans)

text \<open>The cases are distinct rows of the tables, as they were read before the loop.\<close>

lemma publish_cases_ok:
  assumes "publish_cases lib a t fs eid tm idx cs p = Ok (arts, q)" "plane_ok base p" "\<forall>c\<in>set cs. c \<in> set (pl_Cases p) \<and> rc_OrgID c = au_OrgID a"
  shows "plane_ok base q \<and> pl_Cases q = pl_Cases p \<and> length arts = length cs \<and> (\<forall>c\<in>set cs. no_open_grant (rc_ID c) q)"
  using assms
proof (induction cs arbitrary: idx p arts)
  case (Cons c cs)
  from Cons.prems(1) obtain x p1 p2 rest where ins: "insertSemanticResolutionArtifacts lib c (tg_ActorKind t) (au_UserID a) (sp_Decision (tg_Candidate t)) fs eid
      (tg_CandidateArtifact t) (tg_ValidationArtifact t) (tm + int idx) p = Ok (x, p1)"
    and rev: "RevokeRecoveryApprovalGrants tm (au_OrgID a) (rc_ID c) p1 = Some p2"
    and rest: "publish_cases lib a t fs eid tm (idx + 1) cs p2 = Ok (rest, q)" and arts: "arts = x # rest"
    by (auto split: sum.split_asm option.split_asm prod.split_asm)
  note g = resolution_artifacts_grow [OF ins]
  have p1: "plane_ok base p1" "pl_Cases p1 = pl_Cases p" using grows_ok [OF g Cons.prems(2)] g by (auto simp: grows_def)
  have p2: "plane_ok base p2" "pl_Cases p2 = pl_Cases p" "no_open_grant (rc_ID c) p2"
    using revoke_ok [OF rev p1(1)] revoke_frame [OF rev] p1(2) revoke_closes [OF rev p1(1), of c] Cons.prems(3) by auto
  have IH: "plane_ok base q \<and> pl_Cases q = pl_Cases p2 \<and> length rest = length cs \<and> (\<forall>c\<in>set cs. no_open_grant (rc_ID c) q)"
    using Cons.IH [OF rest p2(1)] Cons.prems(3) p2(2) by auto
  have "no_new_grant p2 q" using granting.publish_cases_keeps [OF rest] Cons.prems(3) by auto
  then have "no_open_grant (rc_ID c) q" using p2(3) by (auto simp: no_open_grant_def no_new_grant_def)
  then show ?case using IH p2(2) arts by simp
qed auto

lemma case_moved_moves: "case_moved c st p \<Longrightarrow> moves_only d p q \<Longrightarrow> rc_ID c \<noteq> d \<Longrightarrow> case_moved c st q"
  unfolding case_moved_def moves_only_def by metis

lemma advance_cases_ok:
  assumes "advance_cases lib a t reason eid tm idx cs p = Ok q" "plane_ok lib p" "\<forall>(c, x)\<in>set cs. no_open_grant (rc_ID c) p" "distinct (map (rc_ID \<circ> fst) cs)"
  shows "plane_ok lib q \<and>
    (\<forall>(c, x)\<in>set cs. case_moved c (if sp_Decision (tg_Candidate t) = ''replace'' then ''monitoring'' else ''accepted_loss'') q) \<and>
    (\<forall>d. rc_ID d \<notin> (rc_ID \<circ> fst) ` set cs \<longrightarrow> (d \<in> set (pl_Cases q) \<longleftrightarrow> d \<in> set (pl_Cases p)))"
  using assms
proof (induction cs arbitrary: idx p)
  case (Cons cx cs)
  obtain c x where cx: "cx = (c, x)" by (cases cx)
  from Cons.prems(1) obtain p1 where adv: "advanceSemanticResolutionCase lib c (tg_ActorKind t) (au_UserID a) (sp_Decision (tg_Candidate t)) reason eid
      (tm + int (idx * 16)) (tg_CandidateArtifact t) (tg_ValidationArtifact t) x p = Ok p1"
    and rest: "advance_cases lib a t reason eid tm (idx + 1) cs p1 = Ok q"
    by (auto simp: cx split: sum.split_asm)
  let ?st = "if sp_Decision (tg_Candidate t) = ''replace'' then ''monitoring'' else ''accepted_loss''"
  have p1: "plane_ok lib p1" "moves_only (rc_ID c) p p1" "case_moved c ?st p1"
    using advanceSemanticResolutionCase_ok [OF adv Cons.prems(2)] Cons.prems(3) by (auto simp: cx)
  have open1: "\<forall>(d, y)\<in>set cs. no_open_grant (rc_ID d) p1" using Cons.prems(3) p1(2) by (auto simp: no_open_grant_def moves_only_def)
  have "distinct (map (rc_ID \<circ> fst) cs)" "rc_ID c \<notin> (rc_ID \<circ> fst) ` set cs" using Cons.prems(4) by (auto simp: cx comp_def)
  note IH = Cons.IH [OF rest p1(1) open1 this(1)] this(2)
  have frame: "\<forall>d. rc_ID d \<notin> (rc_ID \<circ> fst) ` set cs \<longrightarrow> (d \<in> set (pl_Cases q) \<longleftrightarrow> d \<in> set (pl_Cases p1))" using IH(1) by blast
  have "case_moved c ?st q" using p1(3) frame IH(2) unfolding case_moved_def by metis
  moreover have "\<forall>d. rc_ID d \<noteq> rc_ID c \<longrightarrow> (d \<in> set (pl_Cases p1) \<longleftrightarrow> d \<in> set (pl_Cases p))" using p1(2) by (auto simp: moves_only_def)
  moreover have "plane_ok lib q" "\<forall>(c, x)\<in>set cs. case_moved c ?st q" using IH(1) by blast+
  ultimately show ?case using frame by (simp add: cx)
qed simp

section \<open>Monitoring keeps the invariant and gives the verdict\<close>

definition verdict :: "run_status \<Rightarrow> string" where
  "verdict st = (if st = RSucceeded then ''verified_recovered'' else ''recurred'')"

definition others_kept :: "string set \<Rightarrow> plane \<Rightarrow> plane \<Rightarrow> bool" where
  "others_kept ids p q \<longleftrightarrow> (\<forall>d. rc_ID d \<notin> ids \<longrightarrow> (d \<in> set (pl_Cases q) \<longleftrightarrow> d \<in> set (pl_Cases p)))"

lemma finalize_case_ok:
  assumes fin: "finalize_case lib run st eid tm c p = Ok q" and ok: "plane_ok (case_library.truncate lib) p"
  shows "plane_ok (case_library.truncate lib) q \<and> others_kept {rc_ID c} p q \<and> case_moved c (verdict st) q"
proof -
  let ?b = "case_library.truncate lib"
  from fin obtain pub v rh p1 moved where
    ins: "insert_artifact ?b (rc_OrgID c) (rc_ID c) ''verification'' ''system'' [] rh tm p = Some (v, p1)" and
    mv: "move_with_receipt ?b (rc_OrgID c) (monitoring_receipt run eid st (verdict st) c pub v) (rc_Revision c) (tm + 1) p1 = Ok (moved, q)"
    unfolding finalize_case_def Let_def verdict_def
    by (auto split: option.split_asm if_split_asm sum.split_asm prod.split_asm move_error.split_asm)
  let ?r = "monitoring_receipt run eid st (verdict st) c pub v"
  have r: "rp_CaseID ?r = rc_ID c" "rp_From ?r = ''monitoring''" "rp_To ?r = verdict st" by (simp_all add: monitoring_receipt_def)
  note g = insert_artifact_grows [OF ins]
  have p1: "plane_ok ?b p1" "pl_Cases p1 = pl_Cases p" using grows_ok [OF g ok] g by (auto simp: grows_def)
  obtain d where "d \<in> set (pl_Cases p1)" "rc_ID d = rc_ID c" "rc_State d = ''monitoring''"
    using mv by (cases rule: move_with_receipt_Ok) (use r in auto)
  then have "no_open_grant (rc_ID c) p1" using not_awaiting_no_open [OF p1(1)] by fastforce
  note mo = move_with_receipt_ok [OF mv p1(1), unfolded r, OF this]
  have "others_kept {rc_ID c} p q" using mo(3) p1(2) by (auto simp: others_kept_def moves_only_def)
  moreover have "case_moved c (verdict st) q" using mo by (auto simp: case_moved_def)
  ultimately show ?thesis using mo(1) by simp
qed

lemma finalize_cases_ok:
  assumes "finalize_cases lib run st eid tm idx cs p = Ok q" "plane_ok (case_library.truncate lib) p" "distinct (map rc_ID cs)"
  shows "plane_ok (case_library.truncate lib) q \<and> others_kept (rc_ID ` set cs) p q \<and> (\<forall>c\<in>set cs. case_moved c (verdict st) q)"
  using assms
proof (induction cs arbitrary: idx p)
  case (Cons c cs)
  from Cons.prems(1) obtain p1 where one: "finalize_case lib run st eid (tm + (int idx * 2 + 1)) c p = Ok p1"
    and rest: "finalize_cases lib run st eid tm (idx + 1) cs p1 = Ok q"
    by (auto split: sum.split_asm)
  note p1 = finalize_case_ok [OF one Cons.prems(2)]
  have d: "distinct (map rc_ID cs)" "rc_ID c \<notin> rc_ID ` set cs" using Cons.prems(3) by auto
  note IH = Cons.IH [OF rest conjunct1 [OF p1] d(1)]
  have frame: "others_kept (rc_ID ` set cs) p1 q" using IH by blast
  have "case_moved c (verdict st) q" using p1 frame d(2) unfolding case_moved_def others_kept_def by metis
  moreover have "others_kept (rc_ID ` set (c # cs)) p q" using p1 frame by (auto simp: others_kept_def)
  ultimately show ?case using IH by simp
qed (simp add: others_kept_def)

lemma distinct_sorted_cases: "plane_ok lib p \<Longrightarrow> distinct (map rc_ID (sort_key rc_ID (filter P (pl_Cases p))))"
  by (simp add: plane_ok_def distinct_map inj_on_def)

lemma finalize_Ok:
  assumes fin: "finalizeSemanticRecoveryMonitoring lib st eid tm s = Ok s1" and ok: "plane_ok (case_library.truncate lib) (rs_Plane s)"
  shows "plane_ok (case_library.truncate lib) (rs_Plane s1) \<and>
    others_kept (rc_ID ` set (LockMonitoringSemanticRecoveryCases (r_OrgID (rs_Run s)) (rs_RunID s) (rs_Plane s))) (rs_Plane s) (rs_Plane s1) \<and>
    (\<forall>c\<in>set (LockMonitoringSemanticRecoveryCases (r_OrgID (rs_Run s)) (rs_RunID s) (rs_Plane s)). case_moved c (verdict st) (rs_Plane s1)) \<and>
    rs_RunID s1 = rs_RunID s \<and> r_OrgID (rs_Run s1) = r_OrgID (rs_Run s) \<and> r_Status (rs_Run s) = st"
proof -
  let ?cs = "LockMonitoringSemanticRecoveryCases (r_OrgID (rs_Run s)) (rs_RunID s) (rs_Plane s)"
  have st: "r_Status (rs_Run s) = st" using fin by (auto simp: finalizeSemanticRecoveryMonitoring_def Let_def split: if_split_asm)
  show ?thesis
  proof (cases "?cs = []")
    case True
    then have "s1 = s" using fin by (auto simp: finalizeSemanticRecoveryMonitoring_def Let_def split: if_split_asm)
    then show ?thesis using True ok st by (simp add: others_kept_def)
  next
    case False
    then obtain p1 where cs: "finalize_cases lib (rs_RunID s) st eid tm 0 ?cs (rs_Plane s) = Ok p1"
      and s1: "s1 = s\<lparr>rs_Run := with_cases (rs_RunID s) p1 (FinalizeRunSemanticRecoveryOutcome (st = RSucceeded) (rs_Run s)), rs_Plane := p1\<rparr>"
      using fin by (auto simp: finalizeSemanticRecoveryMonitoring_def Let_def split: if_split_asm sum.split_asm)
    have "distinct (map rc_ID ?cs)" unfolding LockMonitoringSemanticRecoveryCases_def by (rule distinct_sorted_cases [OF ok])
    note fc = finalize_cases_ok [OF cs ok this]
    have "r_OrgID (rs_Run s1) = r_OrgID (rs_Run s)" by (simp add: s1 with_cases_def FinalizeRunSemanticRecoveryOutcome_def)
    then show ?thesis using fc st by (simp add: s1)
  qed
qed


text \<open>Monitoring writes only to the organisation of the run.\<close>

context plane_contract
begin

lemma finalize_case_keeps: "finalize_case lib run st eid tm c p = Ok q \<Longrightarrow> rc_OrgID c = org \<Longrightarrow> K p q"
  unfolding finalize_case_def Let_def
  by (auto split: option.split_asm if_split_asm sum.split_asm prod.split_asm move_error.split_asm
      intro: trans [OF artifact move_with_receipt_keeps])

lemma finalize_cases_keeps: "finalize_cases lib run st eid tm idx cs p = Ok q \<Longrightarrow> \<forall>c\<in>set cs. rc_OrgID c = org \<Longrightarrow> K p q"
proof (induction cs arbitrary: idx p)
  case (Cons c cs)
  from Cons.prems(1) obtain p1 where "finalize_case lib run st eid (tm + (int idx * 2 + 1)) c p = Ok p1"
    "finalize_cases lib run st eid tm (idx + 1) cs p1 = Ok q"
    by (auto split: sum.split_asm)
  then have "K p p1" "K p1 q" using Cons.IH Cons.prems(2) finalize_case_keeps by auto
  then show ?case using trans by blast
qed (simp add: refl)

lemma finalize_keeps:
  assumes "finalizeSemanticRecoveryMonitoring lib st eid tm s = Ok s1" "r_OrgID (rs_Run s) = org"
  shows "K (rs_Plane s) (rs_Plane s1) \<and> r_OrgID (rs_Run s1) = org"
proof -
  let ?cs = "LockMonitoringSemanticRecoveryCases org (rs_RunID s) (rs_Plane s)"
  consider "s1 = s" | p1 where "finalize_cases lib (rs_RunID s) st eid tm 0 ?cs (rs_Plane s) = Ok p1"
      "s1 = s\<lparr>rs_Run := with_cases (rs_RunID s) p1 (FinalizeRunSemanticRecoveryOutcome (st = RSucceeded) (rs_Run s)), rs_Plane := p1\<rparr>"
    using assms by (auto simp: finalizeSemanticRecoveryMonitoring_def Let_def split: if_split_asm sum.split_asm)
  then show ?thesis
  proof cases
    case (2 p1)
    have "\<forall>c\<in>set ?cs. rc_OrgID c = org" by (simp add: LockMonitoringSemanticRecoveryCases_def)
    then have "K (rs_Plane s) p1" using finalize_cases_keeps 2(1) by blast
    then show ?thesis using assms(2) by (simp add: 2(2) with_cases_def FinalizeRunSemanticRecoveryOutcome_def)
  qed (use assms(2) refl in simp)
qed

lemma settle_calls_keeps:
  assumes "settle_calls lib eid calls s = Ok s1" "r_OrgID (rs_Run s) = org"
  shows "K (rs_Plane s) (rs_Plane s1)"
  using assms
proof (induction lib eid calls s rule: settle_calls.induct)
  case (2 lib eid st tm rest s)
  from 2(2) obtain s2 where fin: "finalizeSemanticRecoveryMonitoring lib st eid tm s = Ok s2" and rest: "settle_calls lib eid rest s2 = Ok s1"
    by (simp split: sum.split_asm)
  then show ?case using 2(1) [OF fin rest] finalize_keeps [OF fin 2(3)] trans by blast
qed (simp_all add: refl)

end

section \<open>The grant a resolution consumes\<close>

lemma FindActive_SomeD:
  assumes "FindActiveRecoveryApprovalGrant org cid candidate validation revision now p = Some g"
  shows "g \<in> set (pl_Grants p) \<and> gr_OrgID g = org \<and> gr_CaseID g = cid \<and> gr_Candidate g = candidate \<and> gr_Validation g = validation \<and>
    gr_CaseRevision g = revision \<and> grant_open g \<and> gr_ExpiresAt g > now"
  using assms unfolding FindActiveRecoveryApprovalGrant_def Let_def by (auto dest!: find_in)

lemma Consume_SomeD:
  assumes "ConsumeRecoveryApprovalGrant now user gid org cid revision p = Some (n, q)"
  shows "pl_Cases q = pl_Cases p" "pl_Transitions q = pl_Transitions p" "pl_Artifacts q = pl_Artifacts p"
    "g \<in> set (pl_Grants p) \<Longrightarrow> gr_ID g = gid \<Longrightarrow> gr_OrgID g = org \<Longrightarrow> gr_CaseID g = cid \<Longrightarrow> gr_CaseRevision g = revision \<Longrightarrow> grant_open g \<Longrightarrow>
       gr_ExpiresAt g > now \<Longrightarrow> g\<lparr>gr_ConsumedAt := Some now, gr_ConsumedBy := Some user\<rparr> \<in> set (pl_Grants q)"
    "kept p q" "no_new_grant p q"
proof -
  let ?P = "\<lambda>g. gr_ID g = gid \<and> gr_OrgID g = org \<and> gr_CaseID g = cid \<and> gr_CaseRevision g = revision \<and> grant_open g \<and> gr_ExpiresAt g > now"
  have q: "q = p\<lparr>pl_Grants := map (\<lambda>g. if ?P g then g\<lparr>gr_ConsumedAt := Some now, gr_ConsumedBy := Some user\<rparr> else g) (pl_Grants p)\<rparr>"
    using assms unfolding ConsumeRecoveryApprovalGrant_def Let_def by (simp split: if_split_asm)
  show "pl_Cases q = pl_Cases p" "pl_Transitions q = pl_Transitions p" "pl_Artifacts q = pl_Artifacts p" by (simp_all add: q)
  show "g \<in> set (pl_Grants p) \<Longrightarrow> gr_ID g = gid \<Longrightarrow> gr_OrgID g = org \<Longrightarrow> gr_CaseID g = cid \<Longrightarrow> gr_CaseRevision g = revision \<Longrightarrow> grant_open g \<Longrightarrow>
       gr_ExpiresAt g > now \<Longrightarrow> g\<lparr>gr_ConsumedAt := Some now, gr_ConsumedBy := Some user\<rparr> \<in> set (pl_Grants q)"
    by (simp add: q)
  have "g \<in> set (pl_Grants q)" if "g \<in> set (pl_Grants p)" "\<not> grant_open g" for g
    using that by (force simp: q image_iff)
  then show "kept p q" by (auto simp: kept_def q)
  show "no_new_grant p q" unfolding no_new_grant_def
  proof (intro ballI impI)
    fix h assume h: "h \<in> set (pl_Grants q)" "grant_open h"
    then obtain g where g: "g \<in> set (pl_Grants p)" "h = (if ?P g then g\<lparr>gr_ConsumedAt := Some now, gr_ConsumedBy := Some user\<rparr> else g)"
      by (auto simp: q)
    show "h \<in> set (pl_Grants p)"
    proof (cases "?P g")
      case True
      then have "h = g\<lparr>gr_ConsumedAt := Some now, gr_ConsumedBy := Some user\<rparr>" using g(2) by meson
      then show ?thesis using h(2) by (simp add: grant_open_def)
    next
      case False
      then have "h = g" using g(2) by meson
      then show ?thesis using g(1) by simp
    qed
  qed
qed

lemma lock_Ok:
  assumes "lockSemanticResolutionTarget i a snapshot now s = Ok (t, p)"
  obtains g candidateArtifact validationArtifact x where
    "rs_RunID s = rc_RunID snapshot" "r_OrgID (rs_Run s) = au_OrgID a" "tg_Snapshot t = snapshot"
    "tg_OpenCases t = LockOpenSemanticRecoveryCases (au_OrgID a) (rc_RunID snapshot) (rc_SourceNodeID snapshot) (rs_Plane s)"
    "tg_Target t \<in> set (tg_OpenCases t)" "rc_ID (tg_Target t) = pi_CaseID i" "rc_Revision (tg_Target t) = pi_ExpectedRevision i"
    "artifact_of_kind ''candidate'' (au_OrgID a) (pi_CaseID i) (pi_Candidate i) (rs_Plane s) = Some candidateArtifact"
    "artifact_of_kind ''validation'' (au_OrgID a) (pi_CaseID i) (pi_Validation i) (rs_Plane s) = Some validationArtifact"
    "tg_CandidateArtifact t = candidateArtifact" "tg_ValidationArtifact t = validationArtifact"
    "validation_binds candidateArtifact validationArtifact (pi_ExpectedRevision i)"
    "ParseSemanticRecoveryCandidatePayload (at_Payload candidateArtifact) = Some x" "tg_Candidate t = x\<lparr>sp_Reason := TrimSpace (sp_Reason x)\<rparr>"
    "sp_Decision x = ''replace'' \<or> sp_Decision x = ''accept_loss''"
    "FindActiveRecoveryApprovalGrant (au_OrgID a) (pi_CaseID i) (pi_Candidate i) (pi_Validation i) (pi_ExpectedRevision i) now (rs_Plane s) = Some g"
    "ConsumeRecoveryApprovalGrant now (au_UserID a) (gr_ID g) (au_OrgID a) (pi_CaseID i) (pi_ExpectedRevision i) (rs_Plane s) = Some (1, p)"
    "resolvable (tg_Target t) (rs_Run s) (sp_Decision x)" "r_ReplayMode (rs_Run s) = []" "resolvable_contract (rs_Run s) = Some (tg_Contract t)"
proof -
  from assms have run: "rs_RunID s = rc_RunID snapshot" "r_OrgID (rs_Run s) = au_OrgID a"
    by (auto simp: lockSemanticResolutionTarget_def Let_def LockRunForSemanticResolution_def split: option.split_asm if_split_asm)
  show ?thesis
    using assms that run unfolding lockSemanticResolutionTarget_def Let_def LockRunForSemanticResolution_def
    by (simp split: option.split_asm if_split_asm prod.split_asm) (auto dest!: find_in)
qed

section \<open>What a resolution did\<close>

lemma evaluateSemanticReplacement_Ok:
  assumes "evaluateSemanticReplacement lib t db = Ok state"
  obtains out m where "prepareSemanticReplacement lib (sp_Output (tg_Candidate t)) = Ok (out, state)"
    "ev_Violations (EvaluateSemanticOutcome (Some (tg_Contract t)) (rc_SourceNodeID (tg_Target t)) out (runContextFromRows (LockRunNodesForSemanticResolution db))) = []"
    "ev_Evaluated (EvaluateSemanticOutcome (Some (tg_Contract t)) (rc_SourceNodeID (tg_Target t)) out (runContextFromRows (LockRunNodesForSemanticResolution db))) \<noteq> 0"
    "cp_ApplyWithApproval (ap_Capabilities (CombineRecoveryAutonomyProfiles (map (\<lambda>c. ResolveRecoveryAutonomyProfile (Some (tg_Contract t)) (semantic_class (rc_DetectorID c))) (tg_OpenCases t))))"
  using assms unfolding evaluateSemanticReplacement_def Let_def by (auto split: if_split_asm sum.split_asm prod.split_asm)

definition resolved_state :: "string \<Rightarrow> string" where
  "resolved_state decision = (if decision = ''replace'' then ''monitoring'' else ''accepted_loss'')"

lemma casesToResolve_props:
  assumes "plane_ok base p" "tg_OpenCases t = LockOpenSemanticRecoveryCases org run node p" "tg_Target t \<in> set (tg_OpenCases t)"
  shows "\<forall>c\<in>set (casesToResolve t). c \<in> set (pl_Cases p) \<and> rc_OrgID c = org \<and> rc_RunID c = run" "distinct (map rc_ID (casesToResolve t))" "tg_Target t \<in> set (casesToResolve t)"
proof -
  have mem: "\<forall>c\<in>set (tg_OpenCases t). c \<in> set (pl_Cases p) \<and> rc_OrgID c = org \<and> rc_RunID c = run"
    unfolding assms(2) LockOpenSemanticRecoveryCases_def by auto
  then show "\<forall>c\<in>set (casesToResolve t). c \<in> set (pl_Cases p) \<and> rc_OrgID c = org \<and> rc_RunID c = run" using assms(3) by (auto simp: casesToResolve_def)
  have "distinct (map rc_ID (tg_OpenCases t))" unfolding assms(2) LockOpenSemanticRecoveryCases_def by (rule distinct_sorted_cases [OF assms(1)])
  then show "distinct (map rc_ID (casesToResolve t))" by (simp add: casesToResolve_def)
  show "tg_Target t \<in> set (casesToResolve t)" using assms(3) by (simp add: casesToResolve_def)
qed

lemma applySemanticResolution_Ok:
  assumes "applySemanticResolution lib i a t state tm eid teid p s = Ok (r, s1)"
  obtains db1 arts p1 p2 db3 db4 s2 where
    "(if sp_Decision (tg_Candidate t) = ''replace'' then replace_output t a state tm (rs_Run s) else Ok (rs_Run s)) = Ok db1"
    "publish_cases lib a t (resolved_state (sp_Decision (tg_Candidate t))) eid tm 0 (casesToResolve t) p = Ok (arts, p1)"
    "advance_cases (case_library.truncate lib) a t (ScrubSecretShapes (sp_Reason (tg_Candidate t))) eid tm 0 (zip (casesToResolve t) arts) p1 = Ok p2"
    "rr_Resumed r \<longleftrightarrow> r_Status (rs_Run s) = RWaiting \<and> snd (CountBlockingSemanticRecoveryCases (au_OrgID a) (rc_RunID (tg_Snapshot t)) p2) = 0"
    "db4 = (if rr_Resumed r then snd (scheduleDownstream tm db3) else db3)" "r_Nodes db3 = r_Nodes db1" "r_OrgID db3 = r_OrgID db1"
    "settle_calls lib teid (drop (length (r_Calls db3)) (r_Calls db4)) (s\<lparr>rs_Run := db4, rs_Plane := p2\<rparr>) = Ok s2"
    "s1 = s2\<lparr>rs_Plane := WriteAudit ''recovery.semantic_resolved'' (pi_CaseID i) (rs_Plane s2)\<rparr>"
    "rr_ResolvedCaseIDs r = map rc_ID (casesToResolve t)" "rr_Decision r = sp_Decision (tg_Candidate t)"
proof -
  let ?d = "sp_Decision (tg_Candidate t)"
  from assms obtain db1 where db1: "(if ?d = ''replace'' then replace_output t a state tm (rs_Run s) else Ok (rs_Run s)) = Ok db1"
    unfolding applySemanticResolution_def Let_def by (simp split: sum.split_asm)
  from assms obtain arts p1 where p1: "publish_cases lib a t (resolved_state ?d) eid tm 0 (casesToResolve t) p = Ok (arts, p1)"
    unfolding applySemanticResolution_def Let_def db1 resolved_state_def by (simp split: sum.split_asm prod.split_asm)
  from assms obtain p2 where p2: "advance_cases (case_library.truncate lib) a t (ScrubSecretShapes (sp_Reason (tg_Candidate t))) eid tm 0 (zip (casesToResolve t) arts) p1 = Ok p2"
    unfolding applySemanticResolution_def Let_def db1 using p1 by (simp add: resolved_state_def split: sum.split_asm prod.split_asm)
  define remaining where "remaining = CountBlockingSemanticRecoveryCases (au_OrgID a) (rc_RunID (tg_Snapshot t)) p2"
  define resumed where "resumed \<longleftrightarrow> r_Status (rs_Run s) = RWaiting \<and> snd remaining = 0"
  define u where "u = UpdateRunSemanticResolution resumed (resolved_outcome remaining ?d) (r_Status (rs_Run s)) (with_cases (rc_RunID (tg_Snapshot t)) p2 db1)"
  define db3 where "db3 = add_event (rc_SourceNodeID (tg_Snapshot t)) ''recovery.semantic_resolved'' tm (snd u)"
  define db4 where "db4 = (if resumed then snd (scheduleDownstream tm db3) else db3)"
  have u1: "fst u = 1"
    using assms p1 p2 unfolding applySemanticResolution_def Let_def db1
    by (simp add: resolved_state_def remaining_def [symmetric] resumed_def [symmetric] u_def [symmetric] split: prod.split_asm if_split_asm)
  define R where "R = \<lparr>rr_RunID = rc_RunID (tg_Snapshot t), rr_SourceNodeID = rc_SourceNodeID (tg_Snapshot t), rr_Decision = ?d, rr_Resumed = resumed,
        rr_ResolvedCaseIDs = map rc_ID (casesToResolve t)\<rparr>"
  have "(case settle_calls lib teid (drop (length (r_Calls db3)) (r_Calls db4)) (s\<lparr>rs_Run := db4, rs_Plane := p2\<rparr>) of Err e \<Rightarrow> Err e
      | Ok s2 \<Rightarrow> Ok (R, s2\<lparr>rs_Plane := WriteAudit ''recovery.semantic_resolved'' (pi_CaseID i) (rs_Plane s2)\<rparr>)) = Ok (r, s1)"
    using assms p1 p2 u1 unfolding applySemanticResolution_def Let_def db1 db3_def db4_def R_def u_def resumed_def remaining_def
    by (simp only: resolved_state_def split_beta sum.case prod.case not_True_eq_False if_False) simp
  then obtain s2 where s2: "settle_calls lib teid (drop (length (r_Calls db3)) (r_Calls db4)) (s\<lparr>rs_Run := db4, rs_Plane := p2\<rparr>) = Ok s2"
    and s1: "s1 = s2\<lparr>rs_Plane := WriteAudit ''recovery.semantic_resolved'' (pi_CaseID i) (rs_Plane s2)\<rparr>" and r: "r = R"
    by (auto split: sum.split_asm)
  have nodes: "r_Nodes db3 = r_Nodes db1" by (simp add: db3_def u_def UpdateRunSemanticResolution_def with_cases_def)
  have orgs: "r_OrgID db3 = r_OrgID db1" by (simp add: db3_def u_def UpdateRunSemanticResolution_def with_cases_def add_event_def)
  have resum: "rr_Resumed r \<longleftrightarrow> r_Status (rs_Run s) = RWaiting \<and> snd (CountBlockingSemanticRecoveryCases (au_OrgID a) (rc_RunID (tg_Snapshot t)) p2) = 0"
    by (simp add: r R_def resumed_def remaining_def)
  show ?thesis
    by (rule that [OF db1 p1 p2 resum _ nodes orgs s2 s1]) (simp_all add: r R_def db4_def)
qed

lemma ResolveSemanticOutcomeCase_Ok:
  assumes "ResolveSemanticOutcomeCase lib i now eid teid s = Ok (r, s1)"
  obtains a snapshot t p state s2 where "pi_Auth i = Some a" "\<not> actor_missing (Some a)" "GetRecoveryCase (au_OrgID a) (pi_CaseID i) (rs_Plane s) = Some snapshot"
    "lockSemanticResolutionTarget i a snapshot now s = Ok (t, p)"
    "sp_Decision (tg_Candidate t) = ''replace'' \<Longrightarrow> evaluateSemanticReplacement (case_library.truncate lib) t (rs_Run s) = Ok state"
    "applySemanticResolution lib i a t state now eid teid p s = Ok (r, s2)" "s1 = s2\<lparr>rs_Run := log_call NotifyRunEvents (rs_Run s2)\<rparr>"
proof -
  from assms obtain a where a: "pi_Auth i = Some a" "\<not> actor_missing (Some a)"
    unfolding ResolveSemanticOutcomeCase_def by (simp split: option.split_asm if_split_asm)
  from assms a obtain snapshot t p where l: "GetRecoveryCase (au_OrgID a) (pi_CaseID i) (rs_Plane s) = Some snapshot"
    "lockSemanticResolutionTarget i a snapshot now s = Ok (t, p)"
    unfolding ResolveSemanticOutcomeCase_def by (simp split: option.split_asm if_split_asm sum.split_asm prod.split_asm)
  from assms a l obtain state where st: "(if sp_Decision (tg_Candidate t) = ''replace'' then evaluateSemanticReplacement (case_library.truncate lib) t (rs_Run s) else Ok JNull) = Ok state"
    unfolding ResolveSemanticOutcomeCase_def by (simp split: if_split_asm sum.split_asm)
  from assms a l st obtain s2 where "applySemanticResolution lib i a t state now eid teid p s = Ok (r, s2)" "s1 = s2\<lparr>rs_Run := log_call NotifyRunEvents (rs_Run s2)\<rparr>"
    unfolding ResolveSemanticOutcomeCase_def by (simp split: if_split_asm sum.split_asm prod.split_asm)
  then show ?thesis using that [OF a l] st by (auto split: if_split_asm)
qed

text \<open>The scan keeps the organisation of the run, so a resolution writes to one organisation only.\<close>

interpretation run_org: schedule_contract "\<lambda>a b. r_OrgID b = r_OrgID a"
  by unfold_locales (auto simp: eventNow_def add_event_def log_call_def cas_def SkipRunNode_def QueueRunNode_def DemoteQueuedRunNodes_def
      MarkRunTerminalFromRunning_def)

lemma impact_org: "r_OrgID (recordRecoveryImpact c tm db) = r_OrgID db"
  by (simp add: recordRecoveryImpact_def log_call_def ConvergeDeadLetterReplayed_def split: option.split)

lemma actor_org: "r_OrgID (recordRunActor node role actor db) = r_OrgID db"
  by (simp add: recordRunActor_def log_call_def)

lemma replace_output_org: "replace_output t a state tm db = Ok db1 \<Longrightarrow> r_OrgID db1 = r_OrgID db"
  unfolding replace_output_def Let_def
  by (auto simp: ReplaceSemanticRunNodeOutput_def cas_def impact_org actor_org split: if_split_asm)

locale resolution_contract = plane_contract +
  assumes consume: "ConsumeRecoveryApprovalGrant now user gid org cid revision p = Some (n, q) \<Longrightarrow> K p q"
begin

lemma applySemanticResolution_keeps:
  assumes "applySemanticResolution lib i a t state tm eid teid p s = Ok (r, s1)" "r_OrgID (rs_Run s) = org" "au_OrgID a = org"
    "\<forall>c\<in>set (casesToResolve t). rc_OrgID c = org"
  shows "K p (rs_Plane s1)"
  using assms(1)
proof (cases rule: applySemanticResolution_Ok)
  case (1 db1 arts p1 p2 db3 db4 s2)
  have "r_OrgID db1 = org" using 1(1) assms(2) replace_output_org by (auto split: if_split_asm)
  then have "r_OrgID db4 = org" using 1(5,7) run_org.scheduleDownstream_keeps by simp
  then have "K p2 (rs_Plane s2)" using settle_calls_keeps [OF 1(8)] by simp
  moreover have "K p p1" using publish_cases_keeps [OF 1(2)] assms(3,4) by simp
  moreover have "K p1 p2" by (rule advance_cases_keeps [OF 1(3)]) (use assms(4) in \<open>auto dest: set_zip_leftD\<close>)
  ultimately have "K p (rs_Plane s2)" using trans by blast
  then show ?thesis using audit trans unfolding 1(9) by fastforce
qed

lemma ResolveSemanticOutcomeCase_keeps:
  assumes "ResolveSemanticOutcomeCase lib i now eid teid s = Ok (r, s1)" "pi_Auth i = Some a" "au_OrgID a = org"
  shows "K (rs_Plane s) (rs_Plane s1)"
  using assms(1)
proof (cases rule: ResolveSemanticOutcomeCase_Ok)
  case (1 a' snapshot t p state s2)
  note lock = 1(4)
  have a: "a' = a" using 1(1) assms(2) by simp
  have "r_OrgID (rs_Run s) = org \<and> K (rs_Plane s) p \<and> (\<forall>c\<in>set (casesToResolve t). rc_OrgID c = org)"
    using lock
  proof (cases rule: lock_Ok)
    case (1 g ca va x)
    have "\<forall>c\<in>set (tg_OpenCases t). rc_OrgID c = org" unfolding 1(4) LockOpenSemanticRecoveryCases_def using a assms(3) by simp
    then show ?thesis using 1(2,5) consume 1(17) a assms(3) by (auto simp: casesToResolve_def)
  qed
  then have "K (rs_Plane s) p" "K p (rs_Plane s2)" using applySemanticResolution_keeps [OF 1(6)] a assms(3) by auto
  then show ?thesis using trans 1(7) by simp
qed

end

interpretation resolution_history: resolution_contract kept org
  by unfold_locales (rule Consume_SomeD(5))

interpretation resolution_granting: resolution_contract no_new_grant org
  by unfold_locales (rule Consume_SomeD(6))

interpretation resolution_tenancy: resolution_contract "isolated org" org
  by unfold_locales (auto simp: isolated_def ConsumeRecoveryApprovalGrant_def Let_def intro!: filter_map_if split: if_split_asm)

text \<open>The tables after the cases have moved and before the run is settled.\<close>

lemma resolution_tables:
  assumes lock: "lockSemanticResolutionTarget i a snapshot now s = Ok (t, p)"
    and ok: "plane_ok (case_library.truncate lib) (rs_Plane s)"
    and pub: "publish_cases lib a t fs eid now 0 (casesToResolve t) p = Ok (arts, p1)"
    and adv: "advance_cases (case_library.truncate lib) a t reason eid now 0 (zip (casesToResolve t) arts) p1 = Ok p2"
  shows "plane_ok (case_library.truncate lib) p2 \<and>
    (\<forall>c\<in>set (casesToResolve t). case_moved c (resolved_state (sp_Decision (tg_Candidate t))) p2 \<and> no_open_grant (rc_ID c) p2)"
  using lock
proof (cases rule: lock_Ok)
  case (1 g ca va x)
  note con = Consume_SomeD [OF 1(17)]
  have p: "plane_ok (case_library.truncate lib) p"
    by (rule plane_ok_same [OF con(1,2) _ _ ok]) (use con(3,6) in \<open>auto simp: no_new_grant_def\<close>)
  note cr = casesToResolve_props [OF ok 1(4,5)]
  have P: "plane_ok (case_library.truncate lib) p1 \<and> pl_Cases p1 = pl_Cases p \<and> length arts = length (casesToResolve t) \<and>
      (\<forall>c\<in>set (casesToResolve t). no_open_grant (rc_ID c) p1)"
    using publish_cases_ok [OF pub p] cr(1) con(1) by simp
  have len: "map fst (zip (casesToResolve t) arts) = casesToResolve t" using P by simp
  have "distinct (map (rc_ID \<circ> fst) (zip (casesToResolve t) arts))" using cr(2) len by (metis map_map)
  moreover have "\<forall>(c, y)\<in>set (zip (casesToResolve t) arts). no_open_grant (rc_ID c) p1" using P by (auto dest: set_zip_leftD)
  ultimately have A: "plane_ok (case_library.truncate lib) p2 \<and>
      (\<forall>(c, y)\<in>set (zip (casesToResolve t) arts). case_moved c (resolved_state (sp_Decision (tg_Candidate t))) p2)"
    using advance_cases_ok [OF adv conjunct1 [OF P]] unfolding resolved_state_def by blast
  have "case_moved c (resolved_state (sp_Decision (tg_Candidate t))) p2" if "c \<in> set (casesToResolve t)" for c
  proof -
    have "c \<in> fst ` set (zip (casesToResolve t) arts)" using that len by (metis list.set_map)
    then show ?thesis using A by force
  qed
  moreover have "no_open_grant (rc_ID c) p2" if c: "c \<in> set (casesToResolve t)" for c
  proof -
    have "no_new_grant p1 p2" by (rule granting.advance_cases_keeps [OF adv]) (use cr(1) in \<open>auto dest: set_zip_leftD\<close>)
    moreover have "no_open_grant (rc_ID c) p1" using P c by blast
    ultimately have "no_open_grant (rc_ID c) p1" "no_new_grant p1 p2" by auto
    then show ?thesis unfolding no_open_grant_def no_new_grant_def by blast
  qed
  ultimately show ?thesis using A by blast
qed


section \<open>Runs of the recovery operations\<close>

text \<open>
  What happens to the cases of an organisation: completions open them, operators and agents act on them,
  a run that settles gives the verdict of the monitored ones, and between these the run may do anything.
  \<^verbatim>\<open>CreateRecoveryCase\<close> has no caller in the program; here it opens observed cases only.
\<close>

datatype case_act =
    Opening violation
  | Creating case_input
  | Transitioning transition_receipt
  | Advancing advance_input
  | Approving approve_input
  | Resolving resolve_input
  | Settling run_status
  | Running

inductive governed :: "resolution_library \<Rightarrow> string \<Rightarrow> case_act \<Rightarrow> recovery_state \<Rightarrow> recovery_state \<Rightarrow> bool"
  for lib :: resolution_library where
  open_case: "open_semantic_case (case_library.truncate lib) m v tm (rs_Plane s) = Some p \<Longrightarrow> opens_safely (case_library.truncate lib) m v (rs_Plane s) \<Longrightarrow>
    governed lib (cm_OrgID m) (Opening v) s (s\<lparr>rs_Plane := p\<rparr>)"
| create_case: "CreateRecoveryCase (case_library.truncate lib) i (rs_Plane s) = Ok (cid, p) \<Longrightarrow> ci_Action i \<noteq> ''quarantine'' \<Longrightarrow>
    governed lib (ci_OrgID i) (Creating i) s (s\<lparr>rs_Plane := p\<rparr>)"
| transition_case: "TransitionRecoveryCase (case_library.truncate lib) org r now dbNow (rs_Plane s) = Ok p \<Longrightarrow>
    governed lib org (Transitioning r) s (s\<lparr>rs_Plane := p\<rparr>)"
| advance_case: "AdvanceRecoveryCase (case_library.truncate lib) ai now (rs_Plane s) = Ok (res, p) \<Longrightarrow> av_Auth ai = Some a \<Longrightarrow>
    governed lib (au_OrgID a) (Advancing ai) s (s\<lparr>rs_Plane := p\<rparr>)"
| approve_case: "ApproveRecoveryCandidate ap now gid (rs_Plane s) = Ok (g, p) \<Longrightarrow> pi_Auth ap = Some a \<Longrightarrow>
    governed lib (au_OrgID a) (Approving ap) s (s\<lparr>rs_Plane := p\<rparr>)"
| resolve_case: "ResolveSemanticOutcomeCase lib ri now eid teid s = Ok (r', s') \<Longrightarrow> pi_Auth ri = Some a \<Longrightarrow>
    governed lib (au_OrgID a) (Resolving ri) s s'"
| settle_case: "finalizeSemanticRecoveryMonitoring lib st eid tm s = Ok s' \<Longrightarrow>
    governed lib (r_OrgID (rs_Run s)) (Settling st) s s'"
| run_case: "governed lib org Running s (s\<lparr>rs_Run := db\<rparr>)"


inductive_cases approvingE: "governed lib org (Approving i) s s'"

text \<open>The operations of an operator are governed advances.\<close>

lemma DiagnoseRecoveryCase_governed:
  assumes "DiagnoseRecoveryCase (case_library.truncate lib) i d now (rs_Plane s) = Ok (res, p)" "cq_Auth i = Some a"
  shows "\<exists>ai. governed lib (au_OrgID a) (Advancing ai) s (s\<lparr>rs_Plane := p\<rparr>)"
  using assms unfolding DiagnoseRecoveryCase_def by (auto split: if_split_asm sum.split_asm dest!: advance_case)

lemma CreateRecoveryCandidates_governed:
  assumes "CreateRecoveryCandidates (case_library.truncate lib) i now (rs_Plane s) = Ok (res, p)" "cq_Auth i = Some a"
  shows "\<exists>ai. governed lib (au_OrgID a) (Advancing ai) s (s\<lparr>rs_Plane := p\<rparr>)"
  using assms unfolding CreateRecoveryCandidates_def by (auto split: if_split_asm sum.split_asm option.split_asm dest!: advance_case)

lemma ValidateRecoveryCaseCandidate_governed:
  assumes "ValidateRecoveryCaseCandidate (case_library.truncate lib) run i cand now (rs_Plane s) = Ok (res, p)" "cq_Auth i = Some a"
  shows "\<exists>ai. governed lib (au_OrgID a) (Advancing ai) s (s\<lparr>rs_Plane := p\<rparr>)"
proof -
  from assms(1) obtain ai r where "AdvanceRecoveryCase (case_library.truncate lib) ai now (rs_Plane s) = Ok (r, p)" "av_Auth ai = cq_Auth i"
    unfolding ValidateRecoveryCaseCandidate_def by (auto split: if_split_asm sum.split_asm)
  then show ?thesis using assms(2) advance_case by metis
qed



lemma governed_kept: "governed lib org act s s' \<Longrightarrow> kept (rs_Plane s) (rs_Plane s')"
  by (induction rule: governed.induct)
    (auto simp: history.refl intro: history.open_semantic_case_keeps history.CreateRecoveryCase_keeps history.TransitionRecoveryCase_keeps
      history.AdvanceRecoveryCase_keeps history.ApproveRecoveryCandidate_keeps resolution_history.ResolveSemanticOutcomeCase_keeps
      conjunct1 [OF history.finalize_keeps])

lemma governed_isolated: "governed lib org act s s' \<Longrightarrow> isolated org (rs_Plane s) (rs_Plane s')"
  by (induction rule: governed.induct)
    (auto simp: tenancy.refl intro: tenancy.open_semantic_case_keeps tenancy.CreateRecoveryCase_keeps tenancy.TransitionRecoveryCase_keeps
      tenancy.AdvanceRecoveryCase_keeps tenancy.ApproveRecoveryCandidate_keeps resolution_tenancy.ResolveSemanticOutcomeCase_keeps
      conjunct1 [OF tenancy.finalize_keeps])

lemma governed_granting: "governed lib org act s s' \<Longrightarrow> \<forall>i. act \<noteq> Approving i \<Longrightarrow> no_new_grant (rs_Plane s) (rs_Plane s')"
  by (induction rule: governed.induct)
    (auto simp: granting.refl intro: granting.open_semantic_case_keeps granting.CreateRecoveryCase_keeps granting.TransitionRecoveryCase_keeps
      granting.AdvanceRecoveryCase_keeps resolution_granting.ResolveSemanticOutcomeCase_keeps conjunct1 [OF granting.finalize_keeps])

section \<open>The lifecycle\<close>





text \<open>
  C12: no recovery operation rewrites what is on record. Receipts and artifacts are only appended, a grant
  that was consumed or revoked and a case with a verdict stay exactly as they are; and an operation touches
  no row of another organisation.
\<close>

theorem record_is_append_only:
  assumes "governed lib org act s s'"
  shows "kept (rs_Plane s) (rs_Plane s') \<and> isolated org (rs_Plane s) (rs_Plane s')"
  using governed_kept [OF assms] governed_isolated [OF assms] by simp

text \<open>
  C9: only a human makes a grant. When an operation leaves an open approval grant that was not there
  before, it was an approval, by an actor that is not a service token, and the grant carries that actor.
\<close>

theorem grants_are_human:
  assumes "governed lib org act s s'" "g \<in> set (pl_Grants (rs_Plane s'))" "grant_open g" "g \<notin> set (pl_Grants (rs_Plane s))"
  shows "\<exists>i a. act = Approving i \<and> pi_Auth i = Some a \<and> au_Mode a \<noteq> ''service-token'' \<and>
    gr_GrantedBy g = au_UserID a \<and> gr_CaseID g = pi_CaseID i \<and> gr_CaseRevision g = pi_ExpectedRevision i \<and> gr_ExpiresAt g = gr_CreatedAt g + 30 * 60 * 1000"
proof -
  obtain i where act: "act = Approving i"
    using governed_granting [OF assms(1)] assms(2-4) by (auto simp: no_new_grant_def)
  from assms(1) obtain now gid h p a where ap: "ApproveRecoveryCandidate i now gid (rs_Plane s) = Ok (h, p)" "s' = s\<lparr>rs_Plane := p\<rparr>"
    unfolding act by (rule approvingE) auto
  have "g = h" using approved_grant [OF ap(1)] assms(2-4) ap(2) by auto
  from ap(1) show ?thesis
  proof (cases rule: ApproveRecoveryCandidate_Ok)
    case (1 a' c candidate validation p1)
    then show ?thesis using act \<open>g = h\<close> by auto
  qed
qed

section \<open>What a resolution rests on\<close>

text \<open>
  C8: a resolution spends one approval. It succeeds only when the case awaits approval at the revision the
  caller saw and an open, unexpired grant names exactly that case, revision, candidate and validation, the
  validation having passed for that candidate two revisions before. That grant is then consumed by the
  actor, the case has moved on, and no case the resolution closed has an open grant left.
\<close>

theorem resolution_spends_one_approval:
  assumes res: "ResolveSemanticOutcomeCase lib i now eid teid s = Ok (r, s')"
    and ok: "plane_ok (case_library.truncate lib) (rs_Plane s)"
  shows "\<exists>a g c candidate validation. pi_Auth i = Some a \<and> g \<in> set (pl_Grants (rs_Plane s)) \<and> grant_open g \<and> now < gr_ExpiresAt g \<and>
    gr_CaseID g = pi_CaseID i \<and> gr_Candidate g = pi_Candidate i \<and> gr_Validation g = pi_Validation i \<and> gr_CaseRevision g = pi_ExpectedRevision i \<and>
    c \<in> set (pl_Cases (rs_Plane s)) \<and> rc_ID c = pi_CaseID i \<and> rc_State c = ''awaiting_approval'' \<and> rc_Revision c = pi_ExpectedRevision i \<and>
    candidate \<in> set (pl_Artifacts (rs_Plane s)) \<and> validation \<in> set (pl_Artifacts (rs_Plane s)) \<and> at_ID candidate = pi_Candidate i \<and>
    at_ID validation = pi_Validation i \<and> validation_binds candidate validation (pi_ExpectedRevision i) \<and>
    g\<lparr>gr_ConsumedAt := Some now, gr_ConsumedBy := Some (au_UserID a)\<rparr> \<in> set (pl_Grants (rs_Plane s')) \<and>
    pi_CaseID i \<in> set (rr_ResolvedCaseIDs r) \<and> list_all (\<lambda>cid. no_open_grant cid (rs_Plane s')) (rr_ResolvedCaseIDs r)"
  using res
proof (cases rule: ResolveSemanticOutcomeCase_Ok)
  case R: (1 a snapshot t p state s2)
  from R(4) show ?thesis
  proof (cases rule: lock_Ok)
    case L: (1 g candidate validation x)
    note g = FindActive_SomeD [OF L(16)] and cr = casesToResolve_props [OF ok L(4,5)]
    note ca = artifact_of_kind_SomeD [OF L(8)] and va = artifact_of_kind_SomeD [OF L(9)]
    have c: "tg_Target t \<in> set (pl_Cases (rs_Plane s))" "rc_State (tg_Target t) = ''awaiting_approval''" using cr(1,3) L(18) by (auto simp: resolvable_def)
    have used: "g\<lparr>gr_ConsumedAt := Some now, gr_ConsumedBy := Some (au_UserID a)\<rparr> \<in> set (pl_Grants p)"
      by (rule Consume_SomeD(4) [OF L(17)]) (use g in auto)
    from R(6) show ?thesis
    proof (cases rule: applySemanticResolution_Ok)
      case A: (1 db1 arts p1 p2 db3 db4 s3)
      note tb = resolution_tables [OF R(4) ok A(2,3)]
      have orgs: "r_OrgID db4 = au_OrgID a" "\<forall>c\<in>set (casesToResolve t). rc_OrgID c = au_OrgID a"
        using A(1,5,7) L(2) replace_output_org run_org.scheduleDownstream_keeps cr(1) by (auto split: if_split_asm)
      have after: "kept p (rs_Plane s2)" using history.refl resolution_history.applySemanticResolution_keeps [OF R(6) L(2) HOL.refl orgs(2)] by simp
      have "no_new_grant p2 (rs_Plane s3)" using granting.settle_calls_keeps [OF A(8)] orgs(1) by simp
      then have "no_open_grant cid (rs_Plane s')" if "cid \<in> set (rr_ResolvedCaseIDs r)" for cid
        using that tb A(9,10) R(7) by (auto simp: no_open_grant_def no_new_grant_def)
      moreover have "g\<lparr>gr_ConsumedAt := Some now, gr_ConsumedBy := Some (au_UserID a)\<rparr> \<in> set (pl_Grants (rs_Plane s'))"
        using after used R(7) by (auto simp: kept_def grant_open_def)
      moreover have "pi_CaseID i \<in> set (rr_ResolvedCaseIDs r)" using cr(3) L(6) unfolding A(10) by (metis image_eqI list.set_map)
      ultimately show ?thesis
        using R(1) g c L(6,7,12) ca va unfolding list_all_iff by blast
    qed
  qed
qed




text \<open>The rows after a settled resolution: the replaced one is settled, and the scan leaves settled rows alone.\<close>

lemma settle_calls_nodes: "settle_calls lib eid calls s = Ok s1 \<Longrightarrow> r_Nodes (rs_Run s1) = r_Nodes (rs_Run s)"
proof (induction lib eid calls s rule: settle_calls.induct)
  case (2 lib eid st tm rest s)
  from 2(2) obtain s2 where fin: "finalizeSemanticRecoveryMonitoring lib st eid tm s = Ok s2" and rest: "settle_calls lib eid rest s2 = Ok s1"
    by (simp split: sum.split_asm)
  have "r_Nodes (rs_Run s2) = r_Nodes (rs_Run s)"
    using fin by (auto simp: finalizeSemanticRecoveryMonitoring_def Let_def with_cases_def FinalizeRunSemanticRecoveryOutcome_def split: if_split_asm sum.split_asm)
  then show ?case using 2(1) [OF fin rest] by simp
qed simp_all

lemma replace_output_row:
  assumes "replace_output t a state tm db = Ok db1"
  shows "\<exists>row\<in>set (r_Nodes db1). rn_NodeID row = rc_SourceNodeID (tg_Snapshot t) \<and> rn_Status row = NSucceeded \<and> rn_State row = state"
proof -
  let ?P = "is_node (rc_SourceNodeID (tg_Snapshot t)) NSucceeded"
  have nodes: "r_Nodes (recordRecoveryImpact c tm d) = r_Nodes d" "r_Nodes (recordRunActor n ro ac d) = r_Nodes d" for c n ro ac d
    by (simp_all add: recordRecoveryImpact_def recordRunActor_def ConvergeDeadLetterReplayed_def split: option.split)
  have one: "length (filter ?P (r_Nodes db)) = 1" and db1: "r_Nodes db1 = map (\<lambda>r. if ?P r then r\<lparr>rn_State := state\<rparr> else r) (r_Nodes db)"
    using assms unfolding replace_output_def Let_def ReplaceSemanticRunNodeOutput_def cas_def by (auto simp: nodes split: if_split_asm)
  obtain r where "r \<in> set (r_Nodes db)" "?P r" using one by (metis filter_empty_conv list.size(3) zero_neq_one)
  then show ?thesis unfolding db1 by (intro bexI [of _ "r\<lparr>rn_State := state\<rparr>"]) (auto simp: is_node_def image_iff)
qed

lemma prepared_state: "prepareSemanticReplacement lib v = Ok (out, state) \<Longrightarrow> \<exists>m. state = JObj m \<and> map_of m ''output'' = Some out"
  by (auto simp: prepareSemanticReplacement_def Let_def split: option.split_asm json.split_asm if_split_asm)

text \<open>
  C10: a replacement that is applied holds under the contract. When a resolution replaces an output, some
  detector of the source node looked at the new output and none rejects it, and the succeeded row of the
  node carries that output afterwards, also when the run went on.
\<close>

theorem replacement_holds:
  assumes res: "ResolveSemanticOutcomeCase lib i now eid teid s = Ok (r, s')" and dec: "rr_Decision r = ''replace''"
  shows "\<exists>k node out row m. resolvable_contract (rs_Run s) = Some k \<and>
    ev_Evaluated (EvaluateSemanticOutcome (Some k) node out (runContextFromRows (LockRunNodesForSemanticResolution (rs_Run s)))) \<noteq> 0 \<and>
    ev_Violations (EvaluateSemanticOutcome (Some k) node out (runContextFromRows (LockRunNodesForSemanticResolution (rs_Run s)))) = [] \<and>
    row \<in> set (r_Nodes (rs_Run s')) \<and> rn_NodeID row = node \<and> rn_Status row = NSucceeded \<and> rn_State row = JObj m \<and> map_of m ''output'' = Some out"
  using res
proof (cases rule: ResolveSemanticOutcomeCase_Ok)
  case R: (1 a snapshot t p state s2)
  from R(4) show ?thesis
  proof (cases rule: lock_Ok)
    case L: (1 g candidate validation x)
    from R(6) show ?thesis
    proof (cases rule: applySemanticResolution_Ok)
      case A: (1 db1 arts p1 p2 db3 db4 s3)
      have rep: "sp_Decision (tg_Candidate t) = ''replace''" using A(11) dec by simp
      have node: "rc_SourceNodeID (tg_Target t) = rc_SourceNodeID (tg_Snapshot t)" using L(3,4,5) by (auto simp: LockOpenSemanticRecoveryCases_def)
      from R(5) [OF rep] obtain out m where ev: "prepareSemanticReplacement (case_library.truncate lib) (sp_Output (tg_Candidate t)) = Ok (out, state)"
        "ev_Violations (EvaluateSemanticOutcome (Some (tg_Contract t)) (rc_SourceNodeID (tg_Target t)) out (runContextFromRows (LockRunNodesForSemanticResolution (rs_Run s)))) = []"
        "ev_Evaluated (EvaluateSemanticOutcome (Some (tg_Contract t)) (rc_SourceNodeID (tg_Target t)) out (runContextFromRows (LockRunNodesForSemanticResolution (rs_Run s)))) \<noteq> 0"
        by (rule evaluateSemanticReplacement_Ok)
      obtain row where row: "row \<in> set (r_Nodes db3)" "rn_NodeID row = rc_SourceNodeID (tg_Snapshot t)" "rn_Status row = NSucceeded" "rn_State row = state"
        using replace_output_row A(1,6) rep by fastforce
      have "rows_kept settled_kept db3 db4" using A(5) settled.scheduleDownstream_keeps settled.refl by simp
      then have "row \<in> set (r_Nodes db4)" using row(1,3) by (auto simp: rows_kept_def list_all2_conv_all_nth settled_kept_def settled_def in_set_conv_nth)
      then have "row \<in> set (r_Nodes (rs_Run s'))" using settle_calls_nodes [OF A(8)] A(9) R(7) by simp
      then show ?thesis using L(20) ev row node prepared_state [OF ev(1)] by metis
    qed
  qed
qed

text \<open>
  C13: the verdict of a monitored recovery is the fate of the run. When monitoring is settled for a terminal
  run, every monitored case of that run moves to \<^verbatim>\<open>verified_recovered\<close> when the run succeeded and to
  \<^verbatim>\<open>recurred\<close> when it failed, was cancelled or timed out, at a later revision; every other case stays.
\<close>

theorem monitoring_gives_the_verdict:
  assumes "finalizeSemanticRecoveryMonitoring lib st eid tm s = Ok s'" "plane_ok (case_library.truncate lib) (rs_Plane s)"
  shows "r_Status (rs_Run s) = st \<and>
    list_all (\<lambda>c. case_moved c (if st = RSucceeded then ''verified_recovered'' else ''recurred'') (rs_Plane s'))
      (LockMonitoringSemanticRecoveryCases (r_OrgID (rs_Run s)) (rs_RunID s) (rs_Plane s)) \<and>
    others_kept (rc_ID ` set (LockMonitoringSemanticRecoveryCases (r_OrgID (rs_Run s)) (rs_RunID s) (rs_Plane s))) (rs_Plane s) (rs_Plane s')"
  using finalize_Ok [OF assms] unfolding verdict_def list_all_iff by blast

end
