(* ===== verification/RecoveryDemo.thy ===== *)
theory RecoveryDemo
  imports Resolution Demo
begin

text \<open>
  One recovery worked through from the contract to the verdict, on which the properties of \<open>Resolution\<close> are
  evaluated.
\<close>

section \<open>A recovery, evaluated\<close>

text \<open>
  A run of the small document whose node \<^verbatim>\<open>a\<close> was quarantined, with its case awaiting approval and a grant.
  The library encodes the one state the replacement needs and hashes by length.
\<close>

definition gov_library :: resolution_library where
  "gov_library = \<lparr>pl_Marshal = (\<lambda>v. Some (case v of JObj [_] \<Rightarrow> ''ok'' | _ \<Rightarrow> ''{}'')),
     pl_Unmarshal = (\<lambda>s. Some (if s = ''ok'' then JObj [(''output'', JBool True)] else JObj [])),
     cl_Sha256Hex = (\<lambda>s. take 64 (itoa (length s) @ ''f'' @ replicate 64 CHR ''0'')), rl_FormatTime = (\<lambda>_. ''t'')\<rparr>"

abbreviation gov_base :: case_library where "gov_base \<equiv> case_library.truncate gov_library"

definition gov_contract :: contract where
  "gov_contract = level_4_contract\<lparr>c_Version := ''2'', c_Semantic := \<lparr>sf_Mode = ''detect'',
     sf_Detectors = [\<lparr>d_ID = ''d'', d_SourceNodeID = ''a'', d_Kind = ''expression'', d_PassWhen = ''true'', d_Schema = None, d_Action = ''quarantine'',
       d_Message = ''m'', d_AutonomyLevel = None\<rparr>], sf_EvaluationFixtures = []\<rparr>\<rparr>"

definition gov_run :: run_db where
  "gov_run = demo_db\<lparr>r_Status := RWaiting, r_Workflow := demo_workflow\<lparr>wf_Contract := Some gov_contract\<rparr>,
     r_Nodes := map (\<lambda>r. if rn_NodeID r = ''a'' then r\<lparr>rn_Status := NSucceeded, rn_State := JObj [(''output'', JBool False)]\<rparr> else r) (r_Nodes demo_db)\<rparr>"

definition gov_case :: case_row where
  "gov_case = \<lparr>rc_ID = StableSemanticID gov_base ''sem'' [''org'', ''r'', ''d''], rc_OrgID = ''org'', rc_RunID = ''r'', rc_WorkflowID = None, rc_WorkflowVersionID = ''v'',
     rc_Source = ''semantic_violation'', rc_DetectorID = ''d'', rc_SourceNodeID = ''a'', rc_DetectorKind = ''expression'', rc_Action = ''quarantine'',
     rc_Message = ''m'', rc_State = ''awaiting_approval'', rc_Revision = 5, rc_ResolvedAt = None\<rparr>"

definition gov_receipt :: "string \<Rightarrow> string \<Rightarrow> string \<Rightarrow> transition_row" where
  "gov_receipt i frm to = \<lparr>tr_ID = i, tr_OrgID = ''org'', tr_Receipt = \<lparr>rp_CaseID = rc_ID gov_case, rp_From = frm, rp_To = to, rp_ActorKind = ''user'',
     rp_ActorID = ''u'', rp_Evidence = [\<lparr>er_Kind = ''run'', er_ID = ''r'', er_Sha256 = []\<rparr>], rp_Reason = ''why''\<rparr>, tr_OccurredAt = 1\<rparr>"

definition gov_artifact :: "string \<Rightarrow> string \<Rightarrow> json \<Rightarrow> artifact_row" where
  "gov_artifact i kind v = \<lparr>at_ID = i, at_OrgID = ''org'', at_CaseID = rc_ID gov_case, at_Kind = kind, at_Payload = v, at_Sha256 = replicate 64 CHR ''a'',
     at_ActorKind = ''user'', at_ActorID = ''u'', at_CreatedAt = 1\<rparr>"

definition gov_candidate :: candidate_payload where
  "gov_candidate = \<lparr>sp_Kind = ''replace_output'', sp_Decision = ''replace'', sp_Output = JBool True, sp_Target = None, sp_Reason = ''why'', sp_Risk = ''low'',
     sp_Evidence = [\<lparr>er_Kind = ''run'', er_ID = ''r'', er_Sha256 = []\<rparr>], sp_ExpectedResult = ''ok'', sp_RequiredPermissions = [''recovery.write'']\<rparr>"

definition gov_grant :: grant_row where
  "gov_grant = \<lparr>gr_ID = ''g'', gr_OrgID = ''org'', gr_CaseID = rc_ID gov_case, gr_Candidate = ''c'', gr_Validation = ''v'', gr_CaseRevision = 5, gr_GrantedBy = ''u'',
     gr_ExpiresAt = 1801000, gr_ConsumedAt = None, gr_ConsumedBy = None, gr_RevokedAt = None, gr_CreatedAt = 1000\<rparr>"

definition gov_plane :: plane where
  "gov_plane = \<lparr>pl_Cases = [gov_case],
     pl_Transitions = [gov_receipt (containment_id gov_base (rc_ID gov_case)) ''detected'' ''contained'', gov_receipt ''t2'' ''contained'' ''diagnosed'',
       gov_receipt ''t3'' ''diagnosed'' ''candidates_ready'', gov_receipt ''t4'' ''candidates_ready'' ''validating'', gov_receipt ''t5'' ''validating'' ''awaiting_approval''],
     pl_Artifacts = [gov_artifact ''c'' ''candidate'' (encode_candidate gov_candidate),
       gov_artifact ''v'' ''validation'' (encode_validation \<lparr>vp_CandidateArtifactID = ''c'', vp_CandidateSha256 = replicate 64 CHR ''a'', vp_CaseRevision = 3,
         vp_Passed = True, vp_Summary = ''ok''\<rparr>)],
     pl_Grants = [gov_grant], pl_Audit = []\<rparr>"

definition gov_state :: recovery_state where
  "gov_state = \<lparr>rs_RunID = ''r'', rs_Run = gov_run, rs_Plane = gov_plane\<rparr>"

definition gov_actor :: auth_context where
  "gov_actor = \<lparr>au_OrgID = ''org'', au_UserID = ''u'', au_Mode = ''supabase'', au_Source = ''web'', au_ServiceTokenSuffix = []\<rparr>"

definition gov_request :: resolve_input where
  "gov_request = \<lparr>pi_Auth = Some gov_actor, pi_CaseID = rc_ID gov_case, pi_ExpectedRevision = 5, pi_Candidate = ''c'', pi_Validation = ''v''\<rparr>"


lemma RedactSensitiveKeys_length: "\<exists>m'. RedactSensitiveKeys (JObj m) = JObj m' \<and> length m' = length m"
  by (simp add: RedactSensitiveKeys_def Let_def)

lemma gov_bounded:
  assumes "length m \<noteq> 1"
  shows "boundedRecoveryArtifact gov_base (JObj m) = Ok (''{}'', cl_Sha256Hex gov_base ''{}'')"
proof -
  have one: "pl_Marshal gov_library (JObj ys) = Some ''{}''" if "length ys \<noteq> 1" for ys
    using that by (cases ys rule: remdups_adj.cases) (simp_all add: gov_library_def)
  obtain m1 where m1: "sanitizeRecoveryArtifact gov_base (JObj m) = JObj m1" "length m1 \<noteq> 1"
    using assms one by (cases "isTransparentJSONTree (JObj m) 0")
      (auto simp: sanitizeRecoveryArtifact_def NormalizeJSON_def persist_library.defs case_library.defs gov_library_def)
  obtain m2 where m2: "NormalizeJSON \<lparr>pl_Marshal = pl_Marshal gov_library, pl_Unmarshal = pl_Unmarshal gov_library\<rparr> (JObj m1) = JObj m2" "length m2 \<noteq> 1"
    using m1(2) one [of m1] by (cases "isTransparentJSONTree (JObj m1) 0")
      (auto simp: NormalizeJSON_def persist_library.defs case_library.defs gov_library_def)
  obtain m3 where m3: "RedactSensitiveKeys (JObj m2) = JObj m3" "length m3 \<noteq> 1"
    using RedactSensitiveKeys_length [of m2] m2(2) by auto
  have b: "BoundPersistPayload ''{}'' (nat 64000) = ''{}''" using BoundPersistPayload_cases [of "''{}''" "nat 64000"] by simp
  have "SafePersistPayload (persist_library.truncate gov_base) (JObj m1) \<lparr>po_RedactedValues = [], po_MaxBytes = recoveryArtifactMaxBytes\<rparr> = ''{}''"
    using one [OF m3(2)] b by (simp add: SafePersistPayload_def m2(1) m3(1) Let_def recoveryArtifactMaxBytes_def persist_library.defs case_library.defs)
  moreover have "\<not> truncated gov_base ''{}''" by code_simp
  ultimately show ?thesis by (simp add: boundedRecoveryArtifact_def m1(1) Let_def)
qed

definition gov_target :: resolution_target where
  "gov_target = \<lparr>tg_Snapshot = gov_case, tg_OpenCases = [gov_case], tg_Target = gov_case, tg_Candidate = gov_candidate,
     tg_CandidateArtifact = pl_Artifacts gov_plane ! 0, tg_ValidationArtifact = pl_Artifacts gov_plane ! 1, tg_Contract = gov_contract, tg_ActorKind = ''user''\<rparr>"

definition gov_spent :: plane where
  "gov_spent = gov_plane\<lparr>pl_Grants := [gov_grant\<lparr>gr_ConsumedAt := Some 2000, gr_ConsumedBy := Some ''u''\<rparr>]\<rparr>"

lemma gov_lock: "lockSemanticResolutionTarget gov_request gov_actor gov_case 2000 gov_state = Ok (gov_target, gov_spent)"
  by code_simp

lemma gov_prepares: "prepareSemanticReplacement gov_base (JBool True) = Ok (JBool True, JObj [(''output'', JBool True)])"
proof -
  let ?v = "JObj [(''output'', JBool True)]"
  have b: "BoundPersistPayload ''ok'' 1000000 = ''ok''" using BoundPersistPayload_cases [of "''ok''" 1000000] by simp
  have r: "RedactSensitiveKeys ?v = ?v" by code_simp
  have "isTransparentJSONTree ?v 0" "isTransparentJSONTree (JBool True) 0" by code_simp+
  then show ?thesis using b r
    by (simp add: prepareSemanticReplacement_def safePersist_def SafePersistPayload_def NormalizeJSON_def stateJSONMaxBytes_def
        persist_library.defs case_library.defs gov_library_def)
qed

lemma gov_policy:
  "cp_ApplyWithApproval (ap_Capabilities (CombineRecoveryAutonomyProfiles
     (map (\<lambda>c. ResolveRecoveryAutonomyProfile (Some (tg_Contract gov_target)) (semantic_class (rc_DetectorID c))) (tg_OpenCases gov_target)))) = True"
  by code_simp

lemma gov_accepts:
  "(let ev = EvaluateSemanticOutcome (Some (tg_Contract gov_target)) (rc_SourceNodeID (tg_Target gov_target)) (JBool True)
     (runContextFromRows (LockRunNodesForSemanticResolution gov_run)) in ev_Evaluated ev = 0 \<or> ev_Violations ev \<noteq> []) = False"
  by code_simp

lemma gov_evaluates: "evaluateSemanticReplacement gov_base gov_target gov_run = Ok (JObj [(''output'', JBool True)])"
proof -
  have "sp_Output (tg_Candidate gov_target) = JBool True" by (simp add: gov_target_def gov_candidate_def)
  then show ?thesis by (simp add: evaluateSemanticReplacement_def gov_policy gov_prepares gov_accepts [unfolded Let_def])
qed

definition gov_publication :: artifact_row where
  "gov_publication = \<lparr>at_ID = StableSemanticID gov_base ''rca'' [rc_ID gov_case, ''publication'', cl_Sha256Hex gov_base ''{}''], at_OrgID = ''org'',
     at_CaseID = rc_ID gov_case, at_Kind = ''publication'', at_Payload = JObj [], at_Sha256 = cl_Sha256Hex gov_base ''{}'', at_ActorKind = ''user'',
     at_ActorID = ''u'', at_CreatedAt = 2000\<rparr>"

definition gov_published :: plane where
  "gov_published = gov_spent\<lparr>pl_Artifacts := pl_Artifacts gov_spent @ [gov_publication]\<rparr>"

lemma gov_insert:
  "insert_artifact gov_base ''org'' (rc_ID gov_case) ''publication'' ''user'' ''u'' (''{}'', cl_Sha256Hex gov_base ''{}'') 2000 gov_spent =
     Some (gov_publication, gov_published)"
  by code_simp

lemma gov_revoke: "RevokeRecoveryApprovalGrants 2000 ''org'' (rc_ID gov_case) gov_published = Some gov_published"
  by code_simp

lemma gov_publish: "publish_cases gov_library gov_actor gov_target ''monitoring'' ''e'' 2000 0 [gov_case] gov_spent = Ok ([(gov_publication, None)], gov_published)"
proof -
  have "rc_OrgID gov_case = ''org''" "tg_ActorKind gov_target = ''user''" "au_UserID gov_actor = ''u''" "au_OrgID gov_actor = ''org''"
    by (simp_all add: gov_case_def gov_target_def gov_actor_def)
  then show ?thesis
    by (simp add: insertSemanticResolutionArtifacts_def resolution_artifact_def publication_payload_def gov_bounded gov_insert gov_revoke)
qed

definition gov_advanced :: plane where
  "gov_advanced = (case advance_cases gov_base gov_actor gov_target ''why'' ''e'' 2000 0 [(gov_case, gov_publication, None)] gov_published of Ok p \<Rightarrow> p | Err _ \<Rightarrow> gov_published)"

lemma gov_advance:
  "advance_cases gov_base gov_actor gov_target ''why'' ''e'' 2000 0 [(gov_case, gov_publication, None)] gov_published = Ok gov_advanced"
  by code_simp

definition gov_replaced :: run_db where
  "gov_replaced = (case replace_output gov_target gov_actor (JObj [(''output'', JBool True)]) 2000 gov_run of Ok db \<Rightarrow> db | Err _ \<Rightarrow> gov_run)"

lemma gov_replace: "replace_output gov_target gov_actor (JObj [(''output'', JBool True)]) 2000 gov_run = Ok gov_replaced"
proof -
  have "(case replace_output gov_target gov_actor (JObj [(''output'', JBool True)]) 2000 gov_run of Ok _ \<Rightarrow> True | Err _ \<Rightarrow> False) = True" by code_simp
  then show ?thesis by (auto simp: gov_replaced_def split: sum.splits)
qed

definition gov_resumed :: run_db where
  "gov_resumed = add_event ''a'' ''recovery.semantic_resolved'' 2000
     ((with_cases ''r'' gov_advanced gov_replaced)\<lparr>r_Status := RRunning, r_OutcomeStatus := ''semantic_recovering''\<rparr>)"

lemma gov_remaining: "CountBlockingSemanticRecoveryCases ''org'' ''r'' gov_advanced = (0, 0)"
  by code_simp

lemma gov_scheduled: "list_all (\<lambda>c. case c of FinalizeSemanticMonitoring _ _ \<Rightarrow> False | _ \<Rightarrow> True)
    (drop (length (r_Calls gov_resumed)) (r_Calls (snd (scheduleDownstream 2000 gov_resumed))))"
  by code_simp

lemma settle_calls_none:
  "list_all (\<lambda>c. case c of FinalizeSemanticMonitoring _ _ \<Rightarrow> False | _ \<Rightarrow> True) calls \<Longrightarrow> settle_calls lib eid calls s = Ok s"
  by (induction lib eid calls s rule: settle_calls.induct) auto

definition gov_result :: resolution_result where
  "gov_result = \<lparr>rr_RunID = ''r'', rr_SourceNodeID = ''a'', rr_Decision = ''replace'', rr_Resumed = True, rr_ResolvedCaseIDs = [rc_ID gov_case]\<rparr>"

definition gov_final :: recovery_state where
  "gov_final = \<lparr>rs_RunID = ''r'', rs_Run = log_call NotifyRunEvents (snd (scheduleDownstream 2000 gov_resumed)),
     rs_Plane = WriteAudit ''recovery.semantic_resolved'' (rc_ID gov_case) gov_advanced\<rparr>"

lemma gov_facts:
  "sp_Decision (tg_Candidate gov_target) = ''replace''" "tg_Snapshot gov_target = gov_case" "casesToResolve gov_target = [gov_case]"
  "rc_RunID gov_case = ''r''" "rc_SourceNodeID gov_case = ''a''" "rs_Run gov_state = gov_run" "rs_Plane gov_state = gov_plane" "rs_RunID gov_state = ''r''"
  "r_Status gov_run = RWaiting" "au_OrgID gov_actor = ''org''" "pi_CaseID gov_request = rc_ID gov_case" "pi_Auth gov_request = Some gov_actor"
  by (simp_all add: gov_target_def gov_candidate_def casesToResolve_def gov_case_def gov_state_def gov_run_def gov_actor_def gov_request_def)

lemma gov_reason: "ScrubSecretShapes (sp_Reason (tg_Candidate gov_target)) = ''why''"
  by code_simp

lemma gov_update:
  "UpdateRunSemanticResolution True ''semantic_recovering'' RWaiting (with_cases ''r'' gov_advanced gov_replaced) =
     (1, (with_cases ''r'' gov_advanced gov_replaced)\<lparr>r_Status := RRunning, r_OutcomeStatus := ''semantic_recovering''\<rparr>)"
proof -
  have "r_Status gov_replaced = RWaiting" by code_simp
  then show ?thesis by (simp add: UpdateRunSemanticResolution_def with_cases_def)
qed

lemma gov_apply: "applySemanticResolution gov_library gov_request gov_actor gov_target (JObj [(''output'', JBool True)]) 2000 ''e'' ''te'' gov_spent gov_state =
    Ok (gov_result, gov_final\<lparr>rs_Run := snd (scheduleDownstream 2000 gov_resumed)\<rparr>)"
  using settle_calls_none [OF gov_scheduled, of gov_library "''te''"]
  by (simp add: applySemanticResolution_def Let_def gov_facts gov_replace gov_publish gov_reason gov_advance gov_remaining gov_update resolved_outcome_def
      del: publish_cases.simps advance_cases.simps flip: gov_resumed_def) (simp add: gov_result_def gov_final_def gov_state_def)

lemma gov_resolves: "ResolveSemanticOutcomeCase gov_library gov_request 2000 ''e'' ''te'' gov_state = Ok (gov_result, gov_final)"
proof -
  have "\<not> actor_missing (Some gov_actor)" by code_simp
  moreover have "(pi_CaseID gov_request = [] \<or> RuneCount (pi_CaseID gov_request) > 256 \<or> pi_ExpectedRevision gov_request < 1 \<or> pi_Candidate gov_request = [] \<or>
      pi_Validation gov_request = []) = False" by code_simp
  moreover have "GetRecoveryCase ''org'' (rc_ID gov_case) gov_plane = Some gov_case" by code_simp
  ultimately show ?thesis unfolding ResolveSemanticOutcomeCase_def
    by (simp add: gov_facts gov_lock gov_evaluates gov_apply) (simp add: gov_final_def)
qed

lemma gov_ok: "plane_ok gov_base gov_plane"
  unfolding plane_ok_def
proof (intro conjI)
  have v: "validation_binds (pl_Artifacts gov_plane ! 0) (pl_Artifacts gov_plane ! 1) 5" by code_simp
  show "\<forall>g\<in>set (pl_Grants gov_plane). grant_open g \<longrightarrow> grant_current gov_plane g"
    using v by (simp add: gov_plane_def grant_current_def gov_grant_def gov_case_def gov_artifact_def)
  show "\<forall>c\<in>set (pl_Cases gov_plane). case_ok gov_base gov_plane c"
    by (simp add: gov_plane_def case_ok_def receipts_def gov_receipt_def gov_case_def IsLegalRecoveryCaseTransition_def legalRecoveryCaseTransitions_def
        RecoveryCaseTerminalStates_def)
qed (simp_all add: gov_plane_def gov_receipt_def gov_case_def)

section \<open>The properties on that recovery\<close>






lemma gov_approves:
  "\<exists>g p. governed gov_library ''org'' (Approving gov_request) gov_state (gov_state\<lparr>rs_Plane := p\<rparr>) \<and> g \<in> set (pl_Grants p) \<and> grant_open g \<and> g \<notin> set (pl_Grants gov_plane)"
proof -
  have "(case ApproveRecoveryCandidate gov_request 1500 ''h'' gov_plane of Err _ \<Rightarrow> False
     | Ok (g, p) \<Rightarrow> list_ex (\<lambda>x. x = g) (pl_Grants p) \<and> grant_open g \<and> \<not> list_ex (\<lambda>x. x = g) (pl_Grants gov_plane)) = True" by code_simp
  then obtain g p where p: "ApproveRecoveryCandidate gov_request 1500 ''h'' gov_plane = Ok (g, p)" "g \<in> set (pl_Grants p)" "grant_open g" "g \<notin> set (pl_Grants gov_plane)"
    by (auto simp: list_ex_iff split: sum.splits prod.splits)
  from governed.approve_case [of gov_request 1500 "''h''" gov_state g p gov_actor gov_library] p show ?thesis by (auto simp: gov_facts)
qed

theorem record_is_append_only_witness:
  "\<exists>p. governed gov_library ''org'' (Approving gov_request) gov_state (gov_state\<lparr>rs_Plane := p\<rparr>) \<and> kept gov_plane p \<and> isolated ''org'' gov_plane p"
proof -
  obtain p where p: "governed gov_library ''org'' (Approving gov_request) gov_state (gov_state\<lparr>rs_Plane := p\<rparr>)" using gov_approves by blast
  then show ?thesis using record_is_append_only [OF p] by (auto simp: gov_facts)
qed

theorem grants_are_human_witness:
  "\<exists>p g. governed gov_library ''org'' (Approving gov_request) gov_state (gov_state\<lparr>rs_Plane := p\<rparr>) \<and> g \<in> set (pl_Grants p) \<and> g \<notin> set (pl_Grants gov_plane) \<and>
     gr_GrantedBy g = ''u'' \<and> gr_CaseRevision g = 5"
proof -
  obtain p g where p: "governed gov_library ''org'' (Approving gov_request) gov_state (gov_state\<lparr>rs_Plane := p\<rparr>)" "g \<in> set (pl_Grants p)" "grant_open g"
    "g \<notin> set (pl_Grants gov_plane)" using gov_approves by blast
  then show ?thesis using grants_are_human [OF p(1), of g] by (auto simp: gov_facts gov_request_def gov_actor_def)
qed

theorem resolution_spends_one_approval_witness:
  "\<exists>g. g \<in> set (pl_Grants gov_plane) \<and> grant_open g \<and> gr_CaseRevision g = 5 \<and>
     g\<lparr>gr_ConsumedAt := Some 2000, gr_ConsumedBy := Some ''u''\<rparr> \<in> set (pl_Grants (rs_Plane gov_final))"
proof -
  have "plane_ok gov_base (rs_Plane gov_state)" using gov_ok by (simp add: gov_facts)
  from resolution_spends_one_approval [OF gov_resolves this] obtain a g where "pi_Auth gov_request = Some a" "g \<in> set (pl_Grants gov_plane)" "grant_open g"
    "gr_CaseRevision g = pi_ExpectedRevision gov_request" "g\<lparr>gr_ConsumedAt := Some 2000, gr_ConsumedBy := Some (au_UserID a)\<rparr> \<in> set (pl_Grants (rs_Plane gov_final))"
    unfolding gov_facts by blast
  then show ?thesis by (auto simp: gov_request_def gov_actor_def)
qed


theorem replacement_holds_witness:
  "\<exists>k node out row m. resolvable_contract gov_run = Some k \<and> ev_Violations (EvaluateSemanticOutcome (Some k) node out
      (runContextFromRows (LockRunNodesForSemanticResolution gov_run))) = [] \<and>
    row \<in> set (r_Nodes (rs_Run gov_final)) \<and> rn_NodeID row = node \<and> rn_Status row = NSucceeded \<and> rn_State row = JObj m \<and> map_of m ''output'' = Some out"
proof -
  have "rr_Decision gov_result = ''replace''" by (simp add: gov_result_def)
  from replacement_holds [OF gov_resolves this] show ?thesis unfolding gov_facts by blast
qed

definition gov_monitored :: plane where
  "gov_monitored = \<lparr>pl_Cases = [gov_case\<lparr>rc_State := ''monitoring'', rc_Revision := 7\<rparr>],
     pl_Transitions = pl_Transitions gov_plane @ [gov_receipt ''t6'' ''awaiting_approval'' ''publishing'', gov_receipt ''t7'' ''publishing'' ''monitoring''],
     pl_Artifacts = [gov_artifact ''p'' ''publication'' (JObj [(''caseId'', JStr (rc_ID gov_case)), (''authorityCaseId'', JStr (rc_ID gov_case)),
       (''caseRevision'', JNum (Fin 5)), (''runId'', JStr ''r''), (''decision'', JStr ''replace''), (''candidateArtifactId'', JStr ''c''),
       (''candidateSha256'', JStr (replicate 64 CHR ''a'')), (''validationArtifactId'', JStr ''v''), (''validationSha256'', JStr (replicate 64 CHR ''a''))])],
     pl_Grants = [], pl_Audit = []\<rparr>"

definition gov_watched :: recovery_state where
  "gov_watched = \<lparr>rs_RunID = ''r'', rs_Run = gov_run\<lparr>r_Status := RSucceeded\<rparr>, rs_Plane = gov_monitored\<rparr>"

lemma gov_monitored_ok: "plane_ok gov_base gov_monitored"
  unfolding plane_ok_def
proof (intro conjI)
  show "\<forall>c\<in>set (pl_Cases gov_monitored). case_ok gov_base gov_monitored c"
    by (simp add: gov_monitored_def gov_plane_def case_ok_def receipts_def gov_receipt_def gov_case_def IsLegalRecoveryCaseTransition_def
        legalRecoveryCaseTransitions_def RecoveryCaseTerminalStates_def)
qed (simp_all add: gov_monitored_def gov_plane_def gov_receipt_def gov_case_def)

lemma gov_settles: "\<exists>s'. finalizeSemanticRecoveryMonitoring gov_library RSucceeded ''te'' 3000 gov_watched = Ok s'"
proof -
  let ?c = "gov_case\<lparr>rc_State := ''monitoring'', rc_Revision := 7\<rparr>" and ?h = "cl_Sha256Hex gov_base ''{}''"
  define pub where "pub = pl_Artifacts gov_monitored ! 0"
  have g: "GetLatestRecoveryCaseArtifactByKind ''org'' (rc_ID gov_case) ''publication'' gov_monitored = Some pub" unfolding pub_def by code_simp
  have "(case decode_binding (at_Payload (pl_Artifacts gov_monitored ! 0)) of None \<Rightarrow> False | Some b \<Rightarrow> binding_ok b ?c ''r'') = True" by code_simp
  then obtain b where b: "decode_binding (at_Payload pub) = Some b" "binding_ok b ?c ''r''" unfolding pub_def by (auto split: option.splits)
  have m: "(case insert_artifact gov_base ''org'' (rc_ID gov_case) ''verification'' ''system'' [] (''{}'', ?h) 3001 gov_monitored of None \<Rightarrow> False
      | Some (v, p1) \<Rightarrow> (case move_with_receipt gov_base ''org'' (monitoring_receipt ''r'' ''te'' RSucceeded ''verified_recovered'' ?c (pl_Artifacts gov_monitored ! 0) v) 7 3002 p1 of
          Err _ \<Rightarrow> False | Ok (moved, p2) \<Rightarrow> rc_State moved = ''verified_recovered'')) = True" by code_simp
  have "\<exists>p2. finalize_case gov_library ''r'' RSucceeded ''te'' 3001 ?c gov_monitored = Ok p2"
    using g b m unfolding pub_def [symmetric]
    by (auto simp: finalize_case_def Let_def verification_payload_def gov_bounded gov_case_def split: option.splits sum.splits prod.splits)
  moreover have "LockMonitoringSemanticRecoveryCases ''org'' ''r'' gov_monitored = [?c]" by code_simp
  moreover have "r_OrgID gov_run = ''org''" by code_simp
  ultimately show ?thesis by (auto simp: finalizeSemanticRecoveryMonitoring_def Let_def gov_watched_def terminal_def)
qed

theorem monitoring_gives_the_verdict_witness:
  "\<exists>s'. finalizeSemanticRecoveryMonitoring gov_library RSucceeded ''te'' 3000 gov_watched = Ok s' \<and>
     list_all (\<lambda>c. case_moved c ''verified_recovered'' (rs_Plane s')) (pl_Cases gov_monitored)"
proof -
  obtain s' where s: "finalizeSemanticRecoveryMonitoring gov_library RSucceeded ''te'' 3000 gov_watched = Ok s'" using gov_settles by blast
  have "plane_ok gov_base (rs_Plane gov_watched)" using gov_monitored_ok by (simp add: gov_watched_def)
  note monitoring_gives_the_verdict [OF s this]
  moreover have "LockMonitoringSemanticRecoveryCases (r_OrgID (rs_Run gov_watched)) (rs_RunID gov_watched) (rs_Plane gov_watched) = pl_Cases gov_monitored" by code_simp
  ultimately show ?thesis using s by auto
qed

end
