(* ===== verification/ToolApproval.thy ===== *)
theory ToolApproval
  imports Persist Resume Demo
begin

text \<open>
  Approval of tool calls: \<^verbatim>\<open>engine/toolapproval.go\<close>, its statements (\<^verbatim>\<open>store/toolapprovals.sql.go\<close>), the policy of
  \<^verbatim>\<open>orgconfig/catalog.go\<close> and the gate in \<^verbatim>\<open>engine/dispatch.go\<close>. A call the organisation's policy lists waits
  until a person who did not cause it decides, and runs on that decision once. The JSON encoder and the
  keyed digest are library arguments; the number of eligible approvers, which is only shown, is one too.
  Times are milliseconds and \<^verbatim>\<open>now()\<close> is an argument of each transaction.
\<close>

section \<open>Policy\<close>

definition tool_name_char :: "char \<Rightarrow> bool" where
  "tool_name_char c \<longleftrightarrow> CHR ''a'' \<le> c \<and> c \<le> CHR ''z'' \<or> CHR ''0'' \<le> c \<and> c \<le> CHR ''9'' \<or> c = CHR ''_''"

definition toolNamePattern :: "string \<Rightarrow> bool" where
  "toolNamePattern s = (case split_on CHR ''.'' s of
     (c # cs) # parts \<Rightarrow> CHR ''a'' \<le> c \<and> c \<le> CHR ''z'' \<and> list_all tool_name_char cs \<and>
       list_all (\<lambda>p. p \<noteq> [] \<and> list_all tool_name_char p) parts
   | _ \<Rightarrow> False)"

fun policy_entries :: "string list \<Rightarrow> string list \<Rightarrow> string + string list" where
  "policy_entries [] names = Ok names"
| "policy_entries (entry # rest) names =
     (let name = TrimSpace entry in
      if name = [] then policy_entries rest names
      else if length name > 80 \<or> \<not> toolNamePattern name then Err name
      else policy_entries rest (List.insert name names))"

definition ParseToolApprovalPolicy :: "string \<Rightarrow> string + string list" where
  "ParseToolApprovalPolicy t = (case policy_entries (split_on CHR '','' t) [] of
     Err e \<Rightarrow> Err e
   | Ok names \<Rightarrow> if length names > 64 then Err [] else Ok names)"

text \<open>The stored value of the setting, if there is one.\<close>

definition toolApprovalPolicy :: "json option \<Rightarrow> string + string list" where
  "toolApprovalPolicy raw = (case raw of
     None \<Rightarrow> Ok []
   | Some (JStr t) \<Rightarrow> ParseToolApprovalPolicy t
   | Some JNull \<Rightarrow> ParseToolApprovalPolicy []
   | Some _ \<Rightarrow> Err [])"

section \<open>Requests\<close>

record tool_approval =
  ta_ID :: string
  ta_OrgID :: string
  ta_RunID :: string
  ta_NodeID :: string
  ta_Tool :: string
  ta_ParamsJson :: string
  ta_ParamsDigest :: string
  ta_RequesterIds :: "string list"
  ta_Status :: string
  ta_DecidedBy :: "string option"
  ta_DecidedAt :: "int option"
  ta_ConsumedAt :: "int option"
  ta_ExpiresAt :: int
  ta_EligibleApprovers :: "int option"
  ta_CreatedAt :: int

definition live :: "string \<Rightarrow> string \<Rightarrow> tool_approval \<Rightarrow> bool" where
  "live run node r \<longleftrightarrow> ta_RunID r = run \<and> ta_NodeID r = node \<and> ta_ConsumedAt r = None"

definition update_where :: "(tool_approval \<Rightarrow> bool) \<Rightarrow> (tool_approval \<Rightarrow> tool_approval) \<Rightarrow> tool_approval list \<Rightarrow> nat \<times> tool_approval list" where
  "update_where P f rs = (length (filter P rs), map (\<lambda>r. if P r then f r else r) rs)"

definition GetLiveToolApproval :: "string \<Rightarrow> string \<Rightarrow> tool_approval list \<Rightarrow> tool_approval option" where
  "GetLiveToolApproval run node = find (live run node)"

definition HasLiveToolApproval :: "string \<Rightarrow> string \<Rightarrow> tool_approval list \<Rightarrow> bool" where
  "HasLiveToolApproval run node = list_ex (live run node)"

definition GetToolApprovalForOrg :: "string \<Rightarrow> string \<Rightarrow> tool_approval list \<Rightarrow> tool_approval option" where
  "GetToolApprovalForOrg rid org = find (\<lambda>r. ta_ID r = rid \<and> ta_OrgID r = org)"

text \<open>The primary key and the index over the live request of a step refuse the row.\<close>

definition InsertToolApproval :: "tool_approval \<Rightarrow> tool_approval list \<Rightarrow> tool_approval list option" where
  "InsertToolApproval r rs = (if list_ex (\<lambda>q. ta_ID q = ta_ID r) rs \<or> HasLiveToolApproval (ta_RunID r) (ta_NodeID r) rs then None else Some (rs @ [r]))"

definition ExpireToolApproval :: "string \<Rightarrow> int \<Rightarrow> tool_approval list \<Rightarrow> nat \<times> tool_approval list" where
  "ExpireToolApproval rid now = update_where (\<lambda>r. ta_ID r = rid \<and> ta_Status r = ''pending'' \<and> ta_ConsumedAt r = None \<and> ta_ExpiresAt r \<le> now)
     (\<lambda>r. r\<lparr>ta_Status := ''expired''\<rparr>)"

text \<open>The row that was consumed, and whether an approval was spent in time.\<close>

definition spendable :: "string \<Rightarrow> tool_approval \<Rightarrow> bool" where
  "spendable rid r \<longleftrightarrow> ta_ID r = rid \<and> ta_ConsumedAt r = None \<and> ta_Status r \<noteq> ''pending''"

definition in_time :: "int \<Rightarrow> tool_approval \<Rightarrow> bool" where
  "in_time now r \<longleftrightarrow> ta_Status r \<noteq> ''approved'' \<or> (case ta_DecidedAt r of None \<Rightarrow> False | Some d \<Rightarrow> now \<le> d + 1800000)"

definition ConsumeToolApproval :: "string \<Rightarrow> int \<Rightarrow> tool_approval list \<Rightarrow> (bool \<times> tool_approval list) option" where
  "ConsumeToolApproval rid now rs = (case find (spendable rid) rs of
     None \<Rightarrow> None
   | Some r \<Rightarrow> Some (in_time now r, snd (update_where (spendable rid) (\<lambda>r. r\<lparr>ta_ConsumedAt := Some now\<rparr>) rs)))"

definition DecideToolApproval_row :: "string \<Rightarrow> string \<Rightarrow> string \<Rightarrow> string \<Rightarrow> string \<Rightarrow> int \<Rightarrow> tool_approval list \<Rightarrow> nat \<times> tool_approval list" where
  "DecideToolApproval_row status actor rid org digest now =
     update_where (\<lambda>r. ta_ID r = rid \<and> ta_OrgID r = org \<and> ta_Status r = ''pending'' \<and> ta_ConsumedAt r = None \<and> ta_ExpiresAt r > now \<and>
         ta_ParamsDigest r = digest \<and> actor \<notin> set (ta_RequesterIds r))
       (\<lambda>r. r\<lparr>ta_Status := status, ta_DecidedBy := Some actor, ta_DecidedAt := Some now\<rparr>)"

definition RetireToolApprovals_rows :: "string \<Rightarrow> string \<Rightarrow> int \<Rightarrow> tool_approval list \<Rightarrow> tool_approval list" where
  "RetireToolApprovals_rows run node now rs = snd (update_where (live run node)
     (\<lambda>r. r\<lparr>ta_ConsumedAt := Some now, ta_Status := (if ta_Status r = ''pending'' then ''expired'' else ta_Status r)\<rparr>) rs)"

definition RequeueToolApprovalNode :: "string \<Rightarrow> string \<Rightarrow> int \<Rightarrow> run_db \<Rightarrow> (string \<times> run_db) option" where
  "RequeueToolApprovalNode node aid now db =
     (let P = (\<lambda>r. is_node node NWaiting r \<and> waiting_field r ''kind'' = Some ''tool_approval'' \<and> waiting_field r ''approvalId'' = Some aid) in
      case find P (r_Nodes db) of
        None \<Rightarrow> None
      | Some r \<Rightarrow> Some (rn_ID r, snd (cas P (\<lambda>r. r\<lparr>rn_Status := NQueued, rn_EnqueuedAt := now\<rparr>) db)))"

section \<open>Who caused a call\<close>

text \<open>
  The recursive query over the runs: the lineage of a run goes up through subworkflow, rerun and replay
  links, its tree down through subworkflow links; both stop at a depth.
\<close>

record run_link =
  rl_ID :: string
  rl_Parent :: "string option"
  rl_ParentNode :: "string option"
  rl_Kind :: "string option"
  rl_CreatedBy :: "string option"
  rl_Trigger :: "string option"
  rl_VersionID :: string

record run_actor =
  ac_RunID :: string
  ac_Role :: string
  ac_Actor :: string

record lineage_db =
  lb_Runs :: "run_link list"
  lb_Actors :: "run_actor list"
  lb_Versions :: "(string \<times> string option) list"

definition via_subworkflow :: "run_link \<Rightarrow> bool" where
  "via_subworkflow r \<longleftrightarrow> rl_ParentNode r \<noteq> None \<and> (rl_Kind r = None \<or> rl_Kind r = Some ''subworkflow'')"

definition follow :: "run_link \<Rightarrow> bool" where
  "follow r \<longleftrightarrow> rl_Kind r = Some ''rerun'' \<or> rl_Kind r = Some ''replay'' \<or> via_subworkflow r"

fun lineage_up :: "nat \<Rightarrow> run_link list \<Rightarrow> run_link \<Rightarrow> bool \<Rightarrow> (run_link \<times> bool) list" where
  "lineage_up 0 runs r own = [(r, own)]"
| "lineage_up (Suc n) runs r own = (r, own) #
     (if follow r then concat (map (\<lambda>p. lineage_up n runs p (own \<and> via_subworkflow r)) (filter (\<lambda>p. rl_Parent r = Some (rl_ID p)) runs)) else [])"

definition lineage :: "nat \<Rightarrow> string \<Rightarrow> run_link list \<Rightarrow> (run_link \<times> bool) list" where
  "lineage depth run runs = concat (map (\<lambda>r. lineage_up depth runs r True) (filter (\<lambda>r. rl_ID r = run) runs))"

fun tree_down :: "nat \<Rightarrow> run_link list \<Rightarrow> string list \<Rightarrow> string list" where
  "tree_down 0 runs ids = ids"
| "tree_down (Suc n) runs ids = ids @
     tree_down n runs (map rl_ID (filter (\<lambda>c. via_subworkflow c \<and> (case rl_Parent c of None \<Rightarrow> False | Some p \<Rightarrow> p \<in> set ids)) runs))"

definition started_by_person :: "lineage_db \<Rightarrow> run_link \<times> bool \<Rightarrow> bool" where
  "started_by_person lb = (\<lambda>(h, own). own \<and> rl_Trigger h = None \<and>
     (case rl_CreatedBy h of None \<Rightarrow> False | Some c \<Rightarrow> c \<noteq> [] \<and> \<not> prefix ''system:'' c) \<and>
     \<not> list_ex (\<lambda>a. ac_RunID a = rl_ID h \<and> ac_Role a = ''service'') (lb_Actors lb))"

definition optional :: "string option \<Rightarrow> string list" where
  "optional x = (case x of None \<Rightarrow> [] | Some s \<Rightarrow> [s])"

definition ListToolApprovalRequesters :: "lineage_db \<Rightarrow> string \<Rightarrow> string \<Rightarrow> nat \<Rightarrow> tool_approval list \<Rightarrow> string list" where
  "ListToolApprovalRequesters lb run node depth rs =
     (let started = lineage depth run (lb_Runs lb); up = map (rl_ID \<circ> fst) started; tree = tree_down depth (lb_Runs lb) up in
      sort (remdups (filter (\<lambda>a. a \<noteq> [])
        (concat (map (optional \<circ> rl_CreatedBy \<circ> fst) started) @
         map ac_Actor (filter (\<lambda>a. ac_RunID a \<in> set tree \<and> ac_Role a \<noteq> ''redrive'') (lb_Actors lb)) @
         map ac_Actor (filter (\<lambda>a. ac_RunID a \<in> set up \<and> ac_Role a = ''redrive'') (lb_Actors lb)) @
         concat (map ta_RequesterIds (filter (\<lambda>r. ta_RunID r = run \<and> ta_NodeID r = node) rs)) @
         (if list_ex (started_by_person lb) started then []
          else concat (map (optional \<circ> snd) (filter (\<lambda>v. list_ex (\<lambda>s. rl_VersionID (fst s) = fst v) started) (lb_Versions lb))))))))"

section \<open>What an approval is bound to\<close>

record approval_library = persist_library +
  tl_Digest :: "string \<Rightarrow> string \<Rightarrow> string option"

record credential_row =
  cr_ID :: string
  cr_Kind :: string
  cr_SecretRef :: string
  cr_UpdatedAt :: int

text \<open>The revision a call is pinned to; an absent credential is pinned to the zero revision.\<close>

record credential_revision =
  cv_ID :: string
  cv_UpdatedAt :: "int option"

definition credential_entry :: "string \<Rightarrow> credential_row option \<Rightarrow> (string \<times> json) \<times> (string \<times> credential_revision)" where
  "credential_entry name row = (case row of
     Some c \<Rightarrow> ((name, JArr [JStr (cr_ID c), JStr (cr_Kind c), JStr (cr_SecretRef c), JStr (RFC3339Nano (cr_UpdatedAt c))]),
       (name, \<lparr>cv_ID = cr_ID c, cv_UpdatedAt = Some (cr_UpdatedAt c)\<rparr>))
   | None \<Rightarrow> ((name, JNull), (name, \<lparr>cv_ID = [], cv_UpdatedAt = None\<rparr>)))"

definition call_document :: "(string \<Rightarrow> credential_row option) \<Rightarrow> string \<Rightarrow> jmap \<Rightarrow> json" where
  "call_document credential tool inp = JObj [(''tool'', JStr tool), (''input'', JObj inp),
     (''credentials'', JObj (case get_str inp ''credential'' of None \<Rightarrow> [] | Some name \<Rightarrow> [fst (credential_entry name (credential name))]))]"

definition pinned_credentials :: "(string \<Rightarrow> credential_row option) \<Rightarrow> jmap \<Rightarrow> (string \<times> credential_revision) list" where
  "pinned_credentials credential inp =
     (case get_str inp ''credential'' of None \<Rightarrow> [] | Some name \<Rightarrow> [snd (credential_entry name (credential name))])"

definition toolParamsDigest ::
    "approval_library \<Rightarrow> (string \<Rightarrow> credential_row option) \<Rightarrow> string \<Rightarrow> jmap \<Rightarrow> (string \<times> (string \<times> credential_revision) list) option" where
  "toolParamsDigest lib credential tool inp =
     (case pl_Marshal lib (call_document credential tool inp) of
        None \<Rightarrow> None
      | Some raw \<Rightarrow> map_option (\<lambda>d. (d, pinned_credentials credential inp)) (tl_Digest lib ''janusly.tool-approval.v1'' raw))"

section \<open>What an approver sees\<close>

definition TrimPrefix :: "string \<Rightarrow> string \<Rightarrow> string" where
  "TrimPrefix s p = (if prefix p s then drop (length p) s else s)"

definition source_field :: "json \<Rightarrow> string \<Rightarrow> json" where
  "source_field v k = (case v of JObj m \<Rightarrow> (case map_of m k of Some x \<Rightarrow> x | None \<Rightarrow> JNull) | _ \<Rightarrow> JNull)"

definition source_item :: "json \<Rightarrow> nat \<Rightarrow> json" where
  "source_item v i = (case v of JArr xs \<Rightarrow> if i < length xs then xs ! i else JNull | _ \<Rightarrow> JNull)"

function maskedPaths :: "json \<Rightarrow> json \<Rightarrow> string \<Rightarrow> string list \<Rightarrow> string list" where
  "maskedPaths original masked at0 acc =
     (if length acc \<ge> 50 then acc
      else case masked of
        JObj m \<Rightarrow> fold (\<lambda>(k, v) acc. maskedPaths (source_field original k) v (TrimPrefix (at0 @ ''.'' @ k) ''.'') acc)
          (map (\<lambda>k. (k, the (map_of m k))) (sorted_keys m)) acc
      | JArr xs \<Rightarrow> fold (\<lambda>(i, x) acc. maskedPaths (source_item original i) x (at0 @ ''['' @ itoa i @ '']'') acc) (enumerate 0 xs) acc
      | _ \<Rightarrow> if deep_equal original masked then acc else acc @ [at0])"
  by pat_completeness auto

lemma size_entry: "(k, u) \<in> set m \<Longrightarrow> size (the (map_of m k)) < size (JObj m)"
proof -
  assume "(k, u) \<in> set m"
  then obtain v where v: "map_of m k = Some v" by (metis map_of_eq_None_iff not_Some_eq fst_conv image_eqI)
  then have "(k, v) \<in> set m" by (rule map_of_SomeD)
  then have "size v \<le> size_list (size_prod (\<lambda>x. 0) size) m"
    by (rule size_list_estimation') simp
  then show ?thesis using v by simp
qed

lemma size_item: "(i, x) \<in> set (enumerate 0 xs) \<Longrightarrow> size x < size (JArr xs)"
  using size_list_estimation' [of x xs "size x" size] by (auto simp: in_set_enumerate_eq less_Suc_eq_le)

termination maskedPaths
  by (relation "measure (\<lambda>(_, masked, _, _). size masked)") (auto dest: size_entry size_item)

section \<open>The gate\<close>

definition toolApprovalParamsMaxBytes :: nat where "toolApprovalParamsMaxBytes = 64000"

definition review_params :: "approval_library \<Rightarrow> jmap \<Rightarrow> string list \<Rightarrow> string option" where
  "review_params lib inp redacted =
     (let masked = RedactSensitiveKeys (RedactValues (JObj inp) redacted) in
      pl_Marshal lib (JObj [(''values'', masked), (''masked'', JArr (map JStr (maskedPaths (JObj inp) masked [] [])))]))"

text \<open>What the approver is shown; the deadline is the request's.\<close>

definition toolApprovalWaiting :: "approval_library \<Rightarrow> tool_approval \<Rightarrow> waiting_result" where
  "toolApprovalWaiting lib r =
     (let params = (case pl_Unmarshal lib (ta_ParamsJson r) of Some (JObj m) \<Rightarrow> m | _ \<Rightarrow> []);
          values = (case map_of params ''values'' of Some v \<Rightarrow> v | None \<Rightarrow> JNull);
          masked = (case map_of params ''masked'' of Some (JArr xs) \<Rightarrow> JArr xs | _ \<Rightarrow> JNull) in
      \<lparr>wr_Reason = ''Waiting for human approval'',
       wr_Metadata = [(''kind'', JStr ''tool_approval''), (''approvalId'', JStr (ta_ID r)), (''tool'', JStr (ta_Tool r)), (''params'', values),
         (''maskedPaths'', masked), (''paramsDigest'', JStr (ta_ParamsDigest r)), (''requiredApprovals'', JNum (Fin 1)),
         (''requesterIds'', JArr (map JStr (ta_RequesterIds r))), (''deadlineAt'', JStr (format_millis (ta_ExpiresAt r)))] @
         (case ta_EligibleApprovers r of None \<Rightarrow> [] | Some n \<Rightarrow> [(''eligibleApprovers'', JNum (Fin (of_int n)))]),
       wr_WakeAt = Some (ta_ExpiresAt r)\<rparr>)"

datatype gate_result =
    Paused waiting_result
  | Execute "(string \<times> credential_revision) list"
  | Refused string
  | GateFailed

record tool_call =
  tc_OrgID :: string
  tc_RunID :: string
  tc_NodeID :: string
  tc_Tool :: string
  tc_Input :: jmap

text \<open>The request a call is decided by: the live one, or a new one.\<close>

definition open_request ::
    "approval_library \<Rightarrow> lineage_db \<Rightarrow> int option \<Rightarrow> tool_call \<Rightarrow> string list \<Rightarrow> string \<Rightarrow> string \<Rightarrow> string \<Rightarrow> int \<Rightarrow> tool_approval list \<Rightarrow>
     (tool_approval \<times> tool_approval list) option" where
  "open_request lib lb eligible c redacted params digest rid now rs =
     (case GetLiveToolApproval (tc_RunID c) (tc_NodeID c) rs of
        Some r \<Rightarrow> Some (r, rs)
      | None \<Rightarrow>
          let r = \<lparr>ta_ID = rid, ta_OrgID = tc_OrgID c, ta_RunID = tc_RunID c, ta_NodeID = tc_NodeID c, ta_Tool = RedactString (tc_Tool c) redacted,
                   ta_ParamsJson = params, ta_ParamsDigest = digest,
                   ta_RequesterIds = ListToolApprovalRequesters lb (tc_RunID c) (tc_NodeID c) 100 rs, ta_Status = ''pending'', ta_DecidedBy = None,
                   ta_DecidedAt = None, ta_ConsumedAt = None, ta_ExpiresAt = now + 1800000, ta_EligibleApprovers = eligible, ta_CreatedAt = now\<rparr> in
          map_option (\<lambda>rs'. (r, rs')) (InsertToolApproval r rs))"

definition spend_request :: "tool_approval \<Rightarrow> string \<Rightarrow> (string \<times> credential_revision) list \<Rightarrow> int \<Rightarrow> tool_approval list \<Rightarrow> gate_result \<times> tool_approval list" where
  "spend_request r digest pinned now rs =
     (case ConsumeToolApproval (ta_ID r) now rs of
        None \<Rightarrow> (GateFailed, rs)
      | Some (inTime, rs') \<Rightarrow>
          (if ta_Status r = ''denied'' then Refused ''TOOL_APPROVAL_DENIED''
           else if ta_Status r \<noteq> ''approved'' \<or> \<not> inTime then Refused ''TOOL_APPROVAL_EXPIRED''
           else if ta_ParamsDigest r \<noteq> digest then Refused ''TOOL_APPROVAL_PARAMS_CHANGED''
           else Execute pinned, rs'))"

definition gateToolCall ::
    "approval_library \<Rightarrow> (string \<Rightarrow> credential_row option) \<Rightarrow> lineage_db \<Rightarrow> int option \<Rightarrow> tool_call \<Rightarrow> string list \<Rightarrow> string \<Rightarrow> int \<Rightarrow>
     tool_approval list \<Rightarrow> gate_result \<times> tool_approval list" where
  "gateToolCall lib credential lb eligible c redacted rid now rs =
     (case review_params lib (tc_Input c) redacted of
        None \<Rightarrow> (Refused ''TOOL_APPROVAL_UNREVIEWABLE'', rs)
      | Some params \<Rightarrow>
          if length params > toolApprovalParamsMaxBytes then (Refused ''TOOL_APPROVAL_UNREVIEWABLE'', rs)
          else case toolParamsDigest lib credential (tc_Tool c) (tc_Input c) of
            None \<Rightarrow> (Refused ''TOOL_APPROVAL_UNREVIEWABLE'', rs)
          | Some (digest, pinned) \<Rightarrow>
              (case open_request lib lb eligible c redacted params digest rid now rs of
                 None \<Rightarrow> (GateFailed, rs)
               | Some (r, rs1) \<Rightarrow>
                   if ta_Status r = ''pending'' then
                     let (expired, rs2) = ExpireToolApproval (ta_ID r) now rs1 in
                     if expired = 0 then (Paused (toolApprovalWaiting lib r), rs1)
                     else (case spend_request (r\<lparr>ta_Status := ''expired''\<rparr>) digest pinned now rs2 of
                       (GateFailed, _) \<Rightarrow> (GateFailed, rs) | out \<Rightarrow> out)
                   else (case spend_request r digest pinned now rs1 of (GateFailed, _) \<Rightarrow> (GateFailed, rs) | out \<Rightarrow> out)))"

text \<open>
  The gate in front of an execution (\<^verbatim>\<open>dispatch.go\<close>): the rendered call of a tool or HTTP node. Whether a call
  writes is the tool registry's answer.
\<close>

definition rendered_call :: "string \<Rightarrow> jmap \<Rightarrow> string \<times> jmap" where
  "rendered_call ty config = (if ty = ''tool''
     then ((case get_str config ''tool'' of Some s \<Rightarrow> s | None \<Rightarrow> []), (case map_of config ''input'' of Some (JObj m) \<Rightarrow> m | _ \<Rightarrow> []))
     else (''http.request'', config))"

definition approval_gate ::
    "approval_library \<Rightarrow> (string \<Rightarrow> credential_row option) \<Rightarrow> lineage_db \<Rightarrow> int option \<Rightarrow> (string \<Rightarrow> jmap \<Rightarrow> bool) \<Rightarrow> json option \<Rightarrow> bool \<Rightarrow>
     string \<Rightarrow> string \<Rightarrow> string \<Rightarrow> string \<Rightarrow> jmap \<Rightarrow> string list \<Rightarrow> string \<Rightarrow> int \<Rightarrow> tool_approval list \<Rightarrow> gate_result \<times> tool_approval list" where
  "approval_gate lib credential lb eligible writeSide policy dryRun org run node ty config redacted rid now rs =
     (if ty \<notin> {''tool'', ''http'', ''loop'', ''agent'', ''multi_agent''} then (Execute [], rs)
      else case toolApprovalPolicy policy of
        Err _ \<Rightarrow> (GateFailed, rs)
      | Ok names \<Rightarrow>
          if ty \<noteq> ''tool'' \<and> ty \<noteq> ''http'' then (Execute [], rs)
          else let (name, inp) = rendered_call ty config;
                   gated = (name \<in> set names \<and> (\<not> dryRun \<or> \<not> writeSide name inp)) in
            if gated \<or> HasLiveToolApproval run node rs
            then gateToolCall lib credential lb eligible \<lparr>tc_OrgID = org, tc_RunID = run, tc_NodeID = node, tc_Tool = name, tc_Input = inp\<rparr> redacted rid now rs
            else (Execute [], rs))"

section \<open>Decisions\<close>

record approval_tables =
  at_Runs :: "string \<rightharpoonup> run_db"
  at_Requests :: "tool_approval list"

datatype decision_error = ErrToolApprovalNotFound | ErrToolApprovalSelf | ErrToolApprovalConflict | ErrToolApprovalStale

record decision =
  de_OrgID :: string
  de_ApprovalID :: string
  de_Actor :: string
  de_ParamsDigest :: string
  de_Status :: string

definition requeueToolApproval :: "tool_approval \<Rightarrow> string \<Rightarrow> int \<Rightarrow> approval_tables \<Rightarrow> approval_tables option" where
  "requeueToolApproval r eventType now s =
     (case at_Runs s (ta_RunID r) of
        None \<Rightarrow> None
      | Some db \<Rightarrow> (case RequeueToolApprovalNode (ta_NodeID r) (ta_ID r) now db of
          None \<Rightarrow> None
        | Some (rowID, db1) \<Rightarrow>
            let (tm, db2) = eventNow (DeleteWakeup rowID db1);
                db3 = log_call NotifyRunEvents (log_call (NotifyWake 1) (add_event (ta_NodeID r) eventType tm db2)) in
            Some (s\<lparr>at_Runs := (at_Runs s)(ta_RunID r \<mapsto> db3)\<rparr>)))"

text \<open>A decision; the flag says that it was the actor's own, repeated.\<close>

definition DecideToolApproval :: "decision \<Rightarrow> int \<Rightarrow> approval_tables \<Rightarrow> (decision_error + bool) \<times> approval_tables" where
  "DecideToolApproval d now s =
     (if de_Actor d = [] \<or> de_Status d \<noteq> ''approved'' \<and> de_Status d \<noteq> ''denied'' then (Err ErrToolApprovalConflict, s)
      else case GetToolApprovalForOrg (de_ApprovalID d) (de_OrgID d) (at_Requests s) of
        None \<Rightarrow> (Err ErrToolApprovalNotFound, s)
      | Some r \<Rightarrow>
          if de_Actor d \<in> set (ta_RequesterIds r) then (Err ErrToolApprovalSelf, s)
          else if ta_Status r = de_Status d \<and> ta_DecidedBy r = Some (de_Actor d) then (Ok True, s)
          else if ta_ParamsDigest r \<noteq> de_ParamsDigest d then (Err ErrToolApprovalStale, s)
          else let (decided, rs) = DecideToolApproval_row (de_Status d) (de_Actor d) (ta_ID r) (de_OrgID d) (de_ParamsDigest d) now (at_Requests s) in
            if decided = 0 then (Err ErrToolApprovalConflict, s)
            else (case requeueToolApproval r (''tool_approval.'' @ de_Status d) now (s\<lparr>at_Requests := rs\<rparr>) of
              None \<Rightarrow> (Err ErrToolApprovalConflict, s)
            | Some s' \<Rightarrow> (Ok False, s')))"

definition expireToolApproval :: "string \<Rightarrow> string \<Rightarrow> int \<Rightarrow> approval_tables \<Rightarrow> bool \<times> approval_tables" where
  "expireToolApproval run node now s =
     (case GetLiveToolApproval run node (at_Requests s) of
        None \<Rightarrow> (False, s)
      | Some r \<Rightarrow>
          let (expired, rs) = ExpireToolApproval (ta_ID r) now (at_Requests s) in
          if expired = 0 then (False, s)
          else (case requeueToolApproval r ''tool_approval.expired'' now (s\<lparr>at_Requests := rs\<rparr>) of
            None \<Rightarrow> (False, s) | Some s' \<Rightarrow> (True, s')))"

section \<open>What every operation keeps\<close>

text \<open>
  A relation between tables that the single statements keep, under the guards the operations put before
  them, is kept by every operation.
\<close>

definition fresh_request :: "tool_approval \<Rightarrow> tool_approval list \<Rightarrow> bool" where
  "fresh_request r rs \<longleftrightarrow> ta_Status r = ''pending'' \<and> ta_DecidedBy r = None \<and> ta_DecidedAt r = None \<and> ta_ConsumedAt r = None \<and>
     (\<forall>q\<in>set rs. ta_RunID q = ta_RunID r \<longrightarrow> ta_NodeID q = ta_NodeID r \<longrightarrow> set (ta_RequesterIds q) - {[]} \<subseteq> set (ta_RequesterIds r))"

locale request_contract =
  fixes K :: "tool_approval list \<Rightarrow> tool_approval list \<Rightarrow> bool"
    and caused :: "string \<Rightarrow> string list \<Rightarrow> bool"
  assumes refl: "K rs rs"
    and trans: "K rs qs \<Longrightarrow> K qs ps \<Longrightarrow> K rs ps"
    and insert: "InsertToolApproval r rs = Some qs \<Longrightarrow> fresh_request r rs \<Longrightarrow> caused (ta_RunID r) (ta_RequesterIds r) \<Longrightarrow> K rs qs"
    and expire: "K rs (snd (ExpireToolApproval rid now rs))"
    and consume: "ConsumeToolApproval rid now rs = Some (b, qs) \<Longrightarrow> K rs qs"
    and decide: "actor \<noteq> [] \<Longrightarrow> status \<in> {''approved'', ''denied''} \<Longrightarrow> K rs (snd (DecideToolApproval_row status actor rid org digest now rs))"
    and retire: "K rs (RetireToolApprovals_rows run node now rs)"
begin

lemma open_request_keeps:
  assumes "open_request lib lb eligible c redacted params digest rid now rs = Some (r, qs)"
    and "\<And>rs. caused (tc_RunID c) (ListToolApprovalRequesters lb (tc_RunID c) (tc_NodeID c) 100 rs)"
  shows "K rs qs"
proof (cases "GetLiveToolApproval (tc_RunID c) (tc_NodeID c) rs")
  case None
  then have i: "InsertToolApproval r rs = Some qs" and r: "ta_RunID r = tc_RunID c" "ta_NodeID r = tc_NodeID c" "ta_Status r = ''pending''" "ta_DecidedBy r = None"
    "ta_DecidedAt r = None" "ta_ConsumedAt r = None" "ta_RequesterIds r = ListToolApprovalRequesters lb (tc_RunID c) (tc_NodeID c) 100 rs"
    using assms(1) by (auto simp: open_request_def Let_def)
  have "fresh_request r rs" unfolding fresh_request_def r by (auto simp: ListToolApprovalRequesters_def Let_def)
  then show ?thesis using insert [OF i] assms(2) r by simp
next
  case (Some q)
  then show ?thesis using assms(1) refl by (simp add: open_request_def)
qed

lemma spend_request_keeps: "spend_request r digest pinned now rs = (res, qs) \<Longrightarrow> K rs qs"
  using consume refl by (auto simp: spend_request_def split: option.split_asm)

lemma gateToolCall_keeps:
  assumes "gateToolCall lib credential lb eligible c redacted rid now rs = (res, qs)"
    and "\<And>rs. caused (tc_RunID c) (ListToolApprovalRequesters lb (tc_RunID c) (tc_NodeID c) 100 rs)"
  shows "K rs qs"
proof -
  consider "qs = rs" | params digest pinned r rs1 where "open_request lib lb eligible c redacted params digest rid now rs = Some (r, rs1)"
      "qs = rs1 \<or> (\<exists>x res'. spend_request x digest pinned now (snd (ExpireToolApproval (ta_ID r) now rs1)) = (res', qs)) \<or>
       (\<exists>x res'. spend_request x digest pinned now rs1 = (res', qs))"
    using assms(1) unfolding gateToolCall_def
    by (simp add: Let_def split: option.split_asm if_split_asm prod.split_asm gate_result.split_asm) (metis prod.collapse snd_conv)+
  then show ?thesis
  proof cases
    case 1
    then show ?thesis using refl by simp
  next
    case 2
    note o = open_request_keeps [OF 2(1) assms(2)]
    show ?thesis using 2(2) o trans [OF o] trans [OF expire] spend_request_keeps by blast
  qed
qed

lemma approval_gate_keeps:
  assumes "approval_gate lib credential lb eligible writeSide policy dryRun org run node ty config redacted rid now rs = (res, qs)"
    and "\<And>rs. caused run (ListToolApprovalRequesters lb run node 100 rs)"
  shows "K rs qs"
  using assms(1) refl gateToolCall_keeps [of lib credential lb eligible "\<lparr>tc_OrgID = org, tc_RunID = run, tc_NodeID = node, tc_Tool = fst (rendered_call ty config), tc_Input = snd (rendered_call ty config)\<rparr>"] assms(2)
  by (auto simp: approval_gate_def Let_def split: if_split_asm sum.split_asm prod.split_asm)

lemma requests_after_requeue: "requeueToolApproval r ev now s = Some s' \<Longrightarrow> at_Requests s' = at_Requests s"
  by (auto simp: requeueToolApproval_def Let_def split: option.split_asm prod.split_asm)

lemma DecideToolApproval_keeps: "DecideToolApproval d now s = (res, s') \<Longrightarrow> K (at_Requests s) (at_Requests s')"
  using refl decide [of "de_Actor d" "de_Status d"]
  by (auto simp: DecideToolApproval_def Let_def split: option.split_asm if_split_asm prod.split_asm dest!: requests_after_requeue) (metis snd_conv)+

lemma expireToolApproval_keeps: "expireToolApproval run node now s = (b, s') \<Longrightarrow> K (at_Requests s) (at_Requests s')"
  using refl expire
  by (auto simp: expireToolApproval_def Let_def split: option.split_asm if_split_asm prod.split_asm dest!: requests_after_requeue) (metis snd_conv)+

end

section \<open>The invariant\<close>

definition request_ok :: "(string \<Rightarrow> string option) \<Rightarrow> tool_approval \<Rightarrow> bool" where
  "request_ok starter r \<longleftrightarrow> ta_Status r \<in> {''pending'', ''approved'', ''denied'', ''expired''} \<and>
     (ta_Status r \<in> {''approved'', ''denied''} \<longleftrightarrow> ta_DecidedBy r \<noteq> None \<and> ta_DecidedAt r \<noteq> None) \<and>
     (\<forall>d. ta_DecidedBy r = Some d \<longrightarrow> d \<noteq> [] \<and> d \<notin> set (ta_RequesterIds r)) \<and>
     (\<forall>t. ta_DecidedAt r = Some t \<longrightarrow> t < ta_ExpiresAt r) \<and>
     (ta_ConsumedAt r \<noteq> None \<longrightarrow> ta_Status r \<noteq> ''pending'') \<and>
     (\<forall>c. starter (ta_RunID r) = Some c \<longrightarrow> c \<noteq> [] \<longrightarrow> c \<in> set (ta_RequesterIds r))"

definition one_live :: "tool_approval list \<Rightarrow> bool" where
  "one_live rs \<longleftrightarrow> (\<forall>r\<in>set rs. \<forall>q\<in>set rs. ta_ConsumedAt r = None \<longrightarrow> live (ta_RunID r) (ta_NodeID r) q \<longrightarrow> ta_ID q = ta_ID r)"

definition requests_ok :: "(string \<Rightarrow> string option) \<Rightarrow> tool_approval list \<Rightarrow> bool" where
  "requests_ok starter rs \<longleftrightarrow> distinct (map ta_ID rs) \<and> one_live rs \<and> (\<forall>r\<in>set rs. request_ok starter r)"

definition named :: "(string \<Rightarrow> string option) \<Rightarrow> string \<Rightarrow> string list \<Rightarrow> bool" where
  "named starter run ids \<longleftrightarrow> (\<forall>c. starter run = Some c \<longrightarrow> c \<noteq> [] \<longrightarrow> c \<in> set ids)"

text \<open>A request keeps what it asks for; once it is spent it does not change any more.\<close>

definition same_request :: "tool_approval \<Rightarrow> tool_approval \<Rightarrow> bool" where
  "same_request r q \<longleftrightarrow> ta_ID q = ta_ID r \<and> ta_RunID q = ta_RunID r \<and> ta_NodeID q = ta_NodeID r \<and> ta_ParamsDigest q = ta_ParamsDigest r \<and>
     ta_RequesterIds q = ta_RequesterIds r \<and> (ta_ConsumedAt r \<noteq> None \<longrightarrow> q = r)"

definition requests_kept :: "tool_approval list \<Rightarrow> tool_approval list \<Rightarrow> bool" where
  "requests_kept rs qs \<longleftrightarrow> (\<forall>r\<in>set rs. \<exists>q\<in>set qs. same_request r q)"

lemma update_ok:
  assumes ok: "requests_ok starter rs"
    and f: "\<And>r. P r \<Longrightarrow> request_ok starter r \<Longrightarrow> request_ok starter (f r)"
    and same: "\<And>r. ta_ID (f r) = ta_ID r \<and> ta_RunID (f r) = ta_RunID r \<and> ta_NodeID (f r) = ta_NodeID r \<and> (ta_ConsumedAt (f r) = None \<longrightarrow> ta_ConsumedAt r = None)"
  shows "requests_ok starter (snd (update_where P f rs))"
proof -
  have ids: "map ta_ID (snd (update_where P f rs)) = map ta_ID rs" using same by (simp add: update_where_def comp_def) 
  define g where "g r = (if P r then f r else r)" for r
  have g: "ta_ID (g r) = ta_ID r" "ta_RunID (g r) = ta_RunID r" "ta_NodeID (g r) = ta_NodeID r" "ta_ConsumedAt (g r) = None \<Longrightarrow> ta_ConsumedAt r = None" for r
    using same by (simp_all add: g_def split: if_split_asm)
  have s: "set (snd (update_where P f rs)) = g ` set rs" by (simp add: update_where_def g_def)
  have "one_live (snd (update_where P f rs))"
    using ok g unfolding one_live_def requests_ok_def live_def s by (metis (no_types, lifting) imageE)
  moreover have "\<forall>r\<in>set (snd (update_where P f rs)). request_ok starter r" using ok f by (auto simp: update_where_def requests_ok_def)
  ultimately show ?thesis using ok ids by (simp add: requests_ok_def)
qed

lemma update_kept:
  assumes "\<And>r. P r \<Longrightarrow> same_request r (f r)"
  shows "requests_kept rs (snd (update_where P f rs))"
  unfolding requests_kept_def
proof
  fix r assume "r \<in> set rs"
  then have "(if P r then f r else r) \<in> set (snd (update_where P f rs))" by (simp add: update_where_def)
  moreover have "same_request r (if P r then f r else r)" using assms by (simp add: same_request_def)
  ultimately show "\<exists>q\<in>set (snd (update_where P f rs)). same_request r q" by blast
qed

lemma consume_update: "ConsumeToolApproval rid now rs = Some (b, qs) \<Longrightarrow> qs = snd (update_where (spendable rid) (\<lambda>r. r\<lparr>ta_ConsumedAt := Some now\<rparr>) rs)"
  by (auto simp: ConsumeToolApproval_def split: option.split_asm)

interpretation sound: request_contract "\<lambda>rs qs. requests_ok starter rs \<longrightarrow> requests_ok starter qs" "named starter"
proof unfold_locales
  fix r rs qs
  assume i: "InsertToolApproval r rs = Some qs" "fresh_request r rs" "named starter (ta_RunID r) (ta_RequesterIds r)"
  then have "request_ok starter r" by (auto simp: request_ok_def fresh_request_def named_def)
  moreover have qs: "qs = rs @ [r]" "ta_ID r \<notin> ta_ID ` set rs" "\<forall>q\<in>set rs. \<not> live (ta_RunID r) (ta_NodeID r) q"
    using i(1) by (auto simp: InsertToolApproval_def HasLiveToolApproval_def list_ex_iff split: if_split_asm)
  moreover have "one_live qs" if "one_live rs"
    unfolding one_live_def
  proof (intro ballI impI)
    fix a q assume aq: "a \<in> set qs" "q \<in> set qs" "ta_ConsumedAt a = None" "live (ta_RunID a) (ta_NodeID a) q"
    show "ta_ID q = ta_ID a"
    proof (cases "a = r \<or> q = r")
      case True
      then show ?thesis using aq qs(3) unfolding qs(1) live_def by auto
    next
      case False
      then show ?thesis using aq that unfolding qs(1) one_live_def by auto
    qed
  qed
  ultimately show "requests_ok starter rs \<longrightarrow> requests_ok starter qs" by (auto simp: requests_ok_def)
next
  fix rs rid and now :: int
  show "requests_ok starter rs \<longrightarrow> requests_ok starter (snd (ExpireToolApproval rid now rs))"
    unfolding ExpireToolApproval_def by (intro impI update_ok) (auto simp: request_ok_def)
next
  fix rid b rs qs and now :: int
  assume "ConsumeToolApproval rid now rs = Some (b, qs)"
  then show "requests_ok starter rs \<longrightarrow> requests_ok starter qs"
    using update_ok [of starter rs "spendable rid" "\<lambda>r. r\<lparr>ta_ConsumedAt := Some now\<rparr>"] consume_update by (fastforce simp: request_ok_def spendable_def)
next
  fix actor status rid org digest :: string and now :: int and rs :: "tool_approval list"
  assume "actor \<noteq> []" "status \<in> {''approved'', ''denied''}"
  then show "requests_ok starter rs \<longrightarrow> requests_ok starter (snd (DecideToolApproval_row status actor rid org digest now rs))"
    unfolding DecideToolApproval_row_def by (intro impI update_ok) (auto simp: request_ok_def)
next
  fix run node and now :: int and rs
  show "requests_ok starter rs \<longrightarrow> requests_ok starter (RetireToolApprovals_rows run node now rs)"
    unfolding RetireToolApprovals_rows_def by (intro impI update_ok) (auto simp: request_ok_def)
qed auto

interpretation ledger: request_contract requests_kept "\<lambda>_ _. True"
proof unfold_locales
  fix rs qs ps
  assume "requests_kept rs qs" "requests_kept qs ps"
  then show "requests_kept rs ps" unfolding requests_kept_def same_request_def by metis
next
  fix rid b rs qs and now :: int
  assume "ConsumeToolApproval rid now rs = Some (b, qs)"
  then show "requests_kept rs qs" using update_kept [of "spendable rid" "\<lambda>r. r\<lparr>ta_ConsumedAt := Some now\<rparr>"] consume_update
    by (fastforce simp: same_request_def spendable_def)
next
  fix r rs qs
  assume "InsertToolApproval r rs = Some qs"
  then show "requests_kept rs qs" by (auto simp: InsertToolApproval_def requests_kept_def same_request_def split: if_split_asm)
next
  fix rs :: "tool_approval list" and rid and now :: int
  show "requests_kept rs (snd (ExpireToolApproval rid now rs))" unfolding ExpireToolApproval_def by (rule update_kept) (simp add: same_request_def)
next
  fix actor status rid org digest :: string and now :: int and rs :: "tool_approval list"
  show "requests_kept rs (snd (DecideToolApproval_row status actor rid org digest now rs))"
    unfolding DecideToolApproval_row_def by (rule update_kept) (simp add: same_request_def)
next
  fix run node and now :: int and rs
  show "requests_kept rs (RetireToolApprovals_rows run node now rs)"
    unfolding RetireToolApprovals_rows_def by (rule update_kept) (simp add: same_request_def live_def)
qed (auto simp: requests_kept_def same_request_def)

section \<open>Sequences of operations\<close>

text \<open>
  The operations on the tables. A gate reads the runs of its moment, in which the run of the call was
  created by the one who started it; between the operations the rows of the runs may change freely.
\<close>

datatype tool_act =
    Gating string string gate_result
  | Deciding decision
  | Expiring string string
  | Retiring string string
  | OtherWork

inductive tool_step :: "approval_library \<Rightarrow> (string \<Rightarrow> string option) \<Rightarrow> tool_act \<Rightarrow> approval_tables \<Rightarrow> approval_tables \<Rightarrow> bool"
  for lib :: approval_library and starter :: "string \<Rightarrow> string option" where
  gate: "approval_gate lib credential lb eligible writeSide policy dryRun org run node ty config redacted rid now (at_Requests s) = (res, rs) \<Longrightarrow>
    list_ex (\<lambda>r. rl_ID r = run \<and> rl_CreatedBy r = starter run) (lb_Runs lb) \<Longrightarrow> tool_step lib starter (Gating run node res) s (s\<lparr>at_Requests := rs\<rparr>)"
| decide: "DecideToolApproval d now s = (out, s') \<Longrightarrow> tool_step lib starter (Deciding d) s s'"
| expire: "expireToolApproval run node now s = (b, s') \<Longrightarrow> tool_step lib starter (Expiring run node) s s'"
| retire: "tool_step lib starter (Retiring run node) s (s\<lparr>at_Requests := RetireToolApprovals_rows run node now (at_Requests s)\<rparr>)"
| work: "tool_step lib starter OtherWork s (s\<lparr>at_Runs := runs\<rparr>)"

inductive tool_steps :: "approval_library \<Rightarrow> (string \<Rightarrow> string option) \<Rightarrow> approval_tables \<Rightarrow> approval_tables \<Rightarrow> bool"
  for lib :: approval_library and starter :: "string \<Rightarrow> string option" where
  stop: "tool_steps lib starter s s"
| more: "tool_steps lib starter s t \<Longrightarrow> tool_step lib starter act t u \<Longrightarrow> tool_steps lib starter s u"

lemma lineage_self: "(r, own) \<in> set (lineage_up n runs r own)"
  by (cases n) auto

lemma starter_is_named:
  assumes "list_ex (\<lambda>r. rl_ID r = run \<and> rl_CreatedBy r = starter run) (lb_Runs lb)"
  shows "named starter run (ListToolApprovalRequesters lb run node 100 rs)"
  unfolding named_def
proof (intro allI impI)
  fix c assume c: "starter run = Some c" "c \<noteq> []"
  from assms obtain r where r: "r \<in> set (lb_Runs lb)" "rl_ID r = run" "rl_CreatedBy r = starter run" by (auto simp: list_ex_iff)
  have "(r, True) \<in> set (lineage 100 run (lb_Runs lb))" using r lineage_self by (fastforce simp: lineage_def simp del: lineage_up.simps)
  then have "c \<in> set (concat (map (optional \<circ> rl_CreatedBy \<circ> fst) (lineage 100 run (lb_Runs lb))))" using r c by (force simp: optional_def)
  then show "c \<in> set (ListToolApprovalRequesters lb run node 100 rs)" using c(2) by (simp add: ListToolApprovalRequesters_def Let_def)
qed

lemma tool_step_sound: "tool_step lib starter act s s' \<Longrightarrow> requests_ok starter (at_Requests s) \<Longrightarrow> requests_ok starter (at_Requests s')"
proof (induction rule: tool_step.induct)
  case (gate credential lb eligible writeSide policy dryRun org run node ty config redacted rid now s res rs)
  then show ?case using sound.approval_gate_keeps [OF gate(1)] starter_is_named by simp
qed (use sound.DecideToolApproval_keeps sound.expireToolApproval_keeps sound.retire in auto)

lemma tool_step_kept: "tool_step lib starter act s s' \<Longrightarrow> requests_kept (at_Requests s) (at_Requests s')"
proof (induction rule: tool_step.induct)
  case (gate credential lb eligible writeSide policy dryRun org run node ty config redacted rid now s res rs)
  then show ?case using ledger.approval_gate_keeps [OF gate(1)] by simp
qed (use ledger.DecideToolApproval_keeps ledger.expireToolApproval_keeps ledger.retire ledger.refl in auto)

lemma tool_steps_sound: "tool_steps lib starter s s' \<Longrightarrow> requests_ok starter (at_Requests s) \<Longrightarrow> requests_ok starter (at_Requests s')"
  by (induction rule: tool_steps.induct) (auto intro: tool_step_sound)

lemma tool_steps_kept: "tool_steps lib starter s s' \<Longrightarrow> requests_kept (at_Requests s) (at_Requests s')"
  by (induction rule: tool_steps.induct) (auto intro: ledger.refl ledger.trans tool_step_kept)

definition no_requests :: "(string \<rightharpoonup> run_db) \<Rightarrow> approval_tables" where
  "no_requests runs = \<lparr>at_Runs = runs, at_Requests = []\<rparr>"

lemma reached_sound: "tool_steps lib starter (no_requests runs) s \<Longrightarrow> requests_ok starter (at_Requests s)"
  by (erule tool_steps_sound) (simp add: no_requests_def requests_ok_def one_live_def)

section \<open>What an execution rests on\<close>

lemma open_request_decided:
  assumes "open_request lib lb eligible c redacted params digest rid now rs = Some (r, rs1)" "ta_Status r \<noteq> ''pending''"
  shows "r \<in> set rs \<and> live (tc_RunID c) (tc_NodeID c) r \<and> rs1 = rs"
  using assms by (auto simp: open_request_def Let_def GetLiveToolApproval_def find_Some_iff in_set_conv_nth split: option.split_asm)

lemma spend_executes:
  assumes "spend_request r digest pinned now rs = (Execute pins, qs)" "r \<in> set rs" "distinct (map ta_ID rs)"
  shows "ta_Status r = ''approved'' \<and> in_time now r \<and> ta_ParamsDigest r = digest \<and> pins = pinned \<and>
    qs = snd (update_where (spendable (ta_ID r)) (\<lambda>r. r\<lparr>ta_ConsumedAt := Some now\<rparr>) rs)"
proof -
  obtain b where c: "ConsumeToolApproval (ta_ID r) now rs = Some (b, qs)" "ta_Status r = ''approved''" "b" "ta_ParamsDigest r = digest" "pins = pinned"
    using assms(1) by (auto simp: spend_request_def split: option.split_asm if_split_asm)
  then obtain q where q: "find (spendable (ta_ID r)) rs = Some q" "b = in_time now q" by (auto simp: ConsumeToolApproval_def split: option.split_asm)
  then have "q \<in> set rs" "ta_ID q = ta_ID r" by (auto simp: find_Some_iff spendable_def in_set_conv_nth)
  then have "q = r" using assms(2,3) by (meson distinct_map inj_onD)
  then show ?thesis using c q consume_update [OF c(1)] by simp
qed

lemma updated_row: "r \<in> set rs \<Longrightarrow> P r \<Longrightarrow> f r \<in> set (snd (update_where P f rs))"
  unfolding update_where_def by (auto intro!: rev_image_eqI [of r])

lemma kept_row: "q \<in> set (snd (update_where P f rs)) \<Longrightarrow> (\<And>r. q \<noteq> f r) \<Longrightarrow> q \<in> set rs \<and> \<not> P q"
  unfolding update_where_def by (auto split: if_split_asm)

lemma one_live_eq:
  assumes "one_live rs" "r \<in> set rs" "q \<in> set rs" "live run node r" "live run node q"
  shows "ta_ID q = ta_ID r"
proof -
  have "ta_ConsumedAt r = None" "live (ta_RunID r) (ta_NodeID r) q" using assms(4,5) by (simp_all add: live_def)
  then show ?thesis using assms(1-3) unfolding one_live_def by blast
qed

lemma expired_never_executes: "spend_request (r\<lparr>ta_Status := ''expired''\<rparr>) digest pins now rs \<noteq> (Execute pinned, qs)"
  by (simp add: spend_request_def split: option.split)

lemma gate_executes:
  assumes "gateToolCall lib credential lb eligible c redacted rid now rs = (Execute pinned, qs)" "distinct (map ta_ID rs)"
  shows "\<exists>r\<in>set rs. live (tc_RunID c) (tc_NodeID c) r \<and> ta_Status r = ''approved'' \<and> in_time now r \<and>
    toolParamsDigest lib credential (tc_Tool c) (tc_Input c) = Some (ta_ParamsDigest r, pinned) \<and>
    qs = snd (update_where (spendable (ta_ID r)) (\<lambda>r. r\<lparr>ta_ConsumedAt := Some now\<rparr>) rs)"
proof -
  obtain params digest pins r rs1 where
    d: "toolParamsDigest lib credential (tc_Tool c) (tc_Input c) = Some (digest, pins)" and
    o: "open_request lib lb eligible c redacted params digest rid now rs = Some (r, rs1)" and
    cases: "ta_Status r = ''pending'' \<and> spend_request (r\<lparr>ta_Status := ''expired''\<rparr>) digest pins now (snd (ExpireToolApproval (ta_ID r) now rs1)) = (Execute pinned, qs) \<or>
      ta_Status r \<noteq> ''pending'' \<and> spend_request r digest pins now rs1 = (Execute pinned, qs)"
    using assms(1) unfolding gateToolCall_def
    by (auto simp: Let_def split: option.split_asm if_split_asm prod.split_asm gate_result.split_asm)
  from cases have s: "ta_Status r \<noteq> ''pending''" "spend_request r digest pins now rs1 = (Execute pinned, qs)"
    using expired_never_executes by blast+
  note r = open_request_decided [OF o s(1)]
  show ?thesis using spend_executes [of r digest pins now rs pinned qs] s(2) r assms(2) d by auto
qed

definition needs_approval :: "(string \<Rightarrow> jmap \<Rightarrow> bool) \<Rightarrow> json option \<Rightarrow> bool \<Rightarrow> string \<Rightarrow> string \<Rightarrow> string \<Rightarrow> jmap \<Rightarrow> tool_approval list \<Rightarrow> bool" where
  "needs_approval writeSide policy dryRun run node ty config rs \<longleftrightarrow> ty \<in> {''tool'', ''http''} \<and>
     (case toolApprovalPolicy policy of Err _ \<Rightarrow> False
      | Ok names \<Rightarrow> fst (rendered_call ty config) \<in> set names \<and> (\<not> dryRun \<or> \<not> writeSide (fst (rendered_call ty config)) (snd (rendered_call ty config)))) \<or>
     ty \<in> {''tool'', ''http''} \<and> HasLiveToolApproval run node rs"

lemma approval_gate_executes:
  assumes "approval_gate lib credential lb eligible writeSide policy dryRun org run node ty config redacted rid now rs = (Execute pinned, qs)"
    "needs_approval writeSide policy dryRun run node ty config rs"
  shows "gateToolCall lib credential lb eligible \<lparr>tc_OrgID = org, tc_RunID = run, tc_NodeID = node, tc_Tool = fst (rendered_call ty config),
      tc_Input = snd (rendered_call ty config)\<rparr> redacted rid now rs = (Execute pinned, qs)"
  using assms by (auto simp: approval_gate_def needs_approval_def Let_def split: sum.split_asm if_split_asm prod.split_asm)

text \<open>
  C14: a call that needs an approval runs only on one. When the gate lets a listed call, or any call of a
  step with an undecided or unspent request, go ahead, the step has a live request that a person approved
  in time. The request was made for exactly this call (the keyed digest of tool, parameters and credential
  revision is the same), the person neither started the run nor is among those who caused the call, and
  the approval is spent with it.
\<close>

theorem gated_calls_are_approved:
  assumes "tool_steps lib starter (no_requests runs) s"
    and "approval_gate lib credential lb eligible writeSide policy dryRun org run node ty config redacted rid now (at_Requests s) = (Execute pinned, rs)"
    and "needs_approval writeSide policy dryRun run node ty config (at_Requests s)"
  shows "\<exists>r d t. r \<in> set (at_Requests s) \<and> live run node r \<and> ta_Status r = ''approved'' \<and> ta_DecidedBy r = Some d \<and> ta_DecidedAt r = Some t \<and>
    t < ta_ExpiresAt r \<and> now \<le> t + 1800000 \<and> d \<notin> set (ta_RequesterIds r) \<and> starter run \<noteq> Some d \<and>
    toolParamsDigest lib credential (fst (rendered_call ty config)) (snd (rendered_call ty config)) = Some (ta_ParamsDigest r, pinned) \<and>
    r\<lparr>ta_ConsumedAt := Some now\<rparr> \<in> set rs \<and> \<not> HasLiveToolApproval run node rs"
proof -
  have ok: "requests_ok starter (at_Requests s)" by (rule reached_sound [OF assms(1)])
  then have ids: "distinct (map ta_ID (at_Requests s))" and one: "one_live (at_Requests s)" by (simp_all add: requests_ok_def)
  from gate_executes [OF approval_gate_executes [OF assms(2,3)] ids]
  obtain r where r: "r \<in> set (at_Requests s)" "live run node r" "ta_Status r = ''approved''" "in_time now r"
    "toolParamsDigest lib credential (fst (rendered_call ty config)) (snd (rendered_call ty config)) = Some (ta_ParamsDigest r, pinned)"
    "rs = snd (update_where (spendable (ta_ID r)) (\<lambda>r. r\<lparr>ta_ConsumedAt := Some now\<rparr>) (at_Requests s))" by auto
  have rok: "request_ok starter r" using ok r(1) by (simp add: requests_ok_def)
  then obtain d t where dt: "ta_DecidedBy r = Some d" "ta_DecidedAt r = Some t" using r(3) by (auto simp: request_ok_def)
  have sp: "spendable (ta_ID r) r" using r(2,3) by (simp add: spendable_def live_def)
  have used: "r\<lparr>ta_ConsumedAt := Some now\<rparr> \<in> set rs" unfolding r(6) by (rule updated_row [of r "at_Requests s" "spendable (ta_ID r)" "\<lambda>r. r\<lparr>ta_ConsumedAt := Some now\<rparr>", OF r(1) sp])
  have "\<not> live run node q" if q: "q \<in> set rs" for q
  proof
    assume l: "live run node q"
    then have "q \<noteq> x\<lparr>ta_ConsumedAt := Some now\<rparr>" for x by (auto simp: live_def)
    then have kept: "q \<in> set (at_Requests s)" "\<not> spendable (ta_ID r) q" using kept_row [OF q [unfolded r(6)]] by blast+
    have "ta_ID q = ta_ID r" by (rule one_live_eq [OF one r(1) kept(1) r(2) l])
    then have "q = r" using ids r(1) kept(1) by (meson distinct_map inj_onD)
    then show False using sp kept(2) by simp
  qed
  then have "\<not> HasLiveToolApproval run node rs" by (auto simp: HasLiveToolApproval_def list_ex_iff)
  moreover have "t < ta_ExpiresAt r" "d \<notin> set (ta_RequesterIds r)" "starter run \<noteq> Some d" using rok dt r(2) by (auto simp: request_ok_def live_def)
  moreover have "now \<le> t + 1800000" using r(3,4) dt by (simp add: in_time_def)
  ultimately show ?thesis using r dt used by blast
qed

text \<open>
  C15: an approval is spent once. When the gate lets two calls that need one go ahead, whatever happens
  between them, they rest on two requests, each decided by a person for its own call.
\<close>

theorem approvals_are_spent_once:
  assumes "tool_steps lib starter (no_requests runs) s"
    and "approval_gate lib credential lb eligible writeSide policy dryRun org run node ty config redacted rid now (at_Requests s) = (Execute pinned, rs)"
    and "needs_approval writeSide policy dryRun run node ty config (at_Requests s)"
    and "tool_steps lib starter (s\<lparr>at_Requests := rs\<rparr>) s2"
    and "approval_gate lib credential2 lb2 eligible2 writeSide2 policy2 dryRun2 org2 run2 node2 ty2 config2 redacted2 rid2 now2 (at_Requests s2) = (Execute pinned2, rs2)"
    and "needs_approval writeSide2 policy2 dryRun2 run2 node2 ty2 config2 (at_Requests s2)"
  shows "\<exists>r q. r \<in> set (at_Requests s) \<and> live run node r \<and> ta_DecidedBy r \<noteq> None \<and> q \<in> set (at_Requests s2) \<and> live run2 node2 q \<and> ta_DecidedBy q \<noteq> None \<and> ta_ID r \<noteq> ta_ID q \<and>
    map_option fst (toolParamsDigest lib credential (fst (rendered_call ty config)) (snd (rendered_call ty config))) = Some (ta_ParamsDigest r) \<and>
    map_option fst (toolParamsDigest lib credential2 (fst (rendered_call ty2 config2)) (snd (rendered_call ty2 config2))) = Some (ta_ParamsDigest q)"
proof -
  have ok: "requests_ok starter (at_Requests s)" by (rule reached_sound [OF assms(1)])
  then have ids: "distinct (map ta_ID (at_Requests s))" by (simp add: requests_ok_def)
  from gate_executes [OF approval_gate_executes [OF assms(2,3)] ids]
  obtain r where r: "r \<in> set (at_Requests s)" "live run node r" "ta_Status r = ''approved''"
    "toolParamsDigest lib credential (fst (rendered_call ty config)) (snd (rendered_call ty config)) = Some (ta_ParamsDigest r, pinned)"
    "rs = snd (update_where (spendable (ta_ID r)) (\<lambda>r. r\<lparr>ta_ConsumedAt := Some now\<rparr>) (at_Requests s))" by auto
  have sp: "spendable (ta_ID r) r" using r(2,3) by (simp add: spendable_def live_def)
  have used: "r\<lparr>ta_ConsumedAt := Some now\<rparr> \<in> set rs" unfolding r(5) by (rule updated_row [of r "at_Requests s" "spendable (ta_ID r)" "\<lambda>r. r\<lparr>ta_ConsumedAt := Some now\<rparr>", OF r(1) sp])
  then have spent: "r\<lparr>ta_ConsumedAt := Some now\<rparr> \<in> set (at_Requests s2)"
    using tool_steps_kept [OF assms(4)] by (force simp: requests_kept_def same_request_def)
  have ok1: "requests_ok starter rs" using sound.consume [of "ta_ID r" now "at_Requests s" True rs starter] ok r(5) sp r(1)
    update_ok [OF ok, of "spendable (ta_ID r)" "\<lambda>r. r\<lparr>ta_ConsumedAt := Some now\<rparr>"] by (auto simp: request_ok_def spendable_def)
  have ok2: "requests_ok starter (at_Requests s2)" using tool_steps_sound [OF assms(4)] ok1 by simp
  then have ids2: "distinct (map ta_ID (at_Requests s2))" by (simp add: requests_ok_def)
  from gate_executes [OF approval_gate_executes [OF assms(5,6)] ids2]
  obtain q where q: "q \<in> set (at_Requests s2)" "live run2 node2 q" "ta_Status q = ''approved''"
    "toolParamsDigest lib credential2 (fst (rendered_call ty2 config2)) (snd (rendered_call ty2 config2)) = Some (ta_ParamsDigest q, pinned2)" by auto
  have "ta_ID r \<noteq> ta_ID q"
  proof
    assume "ta_ID r = ta_ID q"
    then have "ta_ID q = ta_ID (r\<lparr>ta_ConsumedAt := Some now\<rparr>)" by simp
    then have "q = r\<lparr>ta_ConsumedAt := Some now\<rparr>" using ids2 q(1) spent by (meson distinct_map inj_onD)
    then show False using q(2) by (simp add: live_def)
  qed
  moreover have "ta_DecidedBy r \<noteq> None" "ta_DecidedBy q \<noteq> None" using ok ok2 r(1,3) q(1,3) by (auto simp: requests_ok_def request_ok_def)
  ultimately show ?thesis using r q by auto
qed

section \<open>A call that waits, is approved and runs, twice\<close>

definition demo_approval_library :: approval_library where
  "demo_approval_library = \<lparr>pl_Marshal = \<lambda>v. (case v of JObj ((_, JStr t) # _) \<Rightarrow> Some t | _ \<Rightarrow> Some ''{}''), pl_Unmarshal = \<lambda>_. None,
     tl_Digest = \<lambda>_ raw. Some raw\<rparr>"

definition demo_lineage :: lineage_db where
  "demo_lineage = \<lparr>lb_Runs = [\<lparr>rl_ID = ''r'', rl_Parent = None, rl_ParentNode = None, rl_Kind = None, rl_CreatedBy = Some ''ann'', rl_Trigger = None,
     rl_VersionID = ''v''\<rparr>], lb_Actors = [], lb_Versions = []\<rparr>"

definition demo_starter :: "string \<Rightarrow> string option" where
  "demo_starter run = (if run = ''r'' then Some ''ann'' else None)"

definition demo_gate :: "string \<Rightarrow> int \<Rightarrow> tool_approval list \<Rightarrow> gate_result \<times> tool_approval list" where
  "demo_gate rid now = approval_gate demo_approval_library (\<lambda>_. None) demo_lineage None (\<lambda>_ _. True) (Some (JStr ''mail'')) False ''o'' ''r'' ''a'' ''tool''
     [(''tool'', JStr ''mail'')] [] rid now"

definition demo_waiting :: "string \<Rightarrow> string \<rightharpoonup> run_db" where
  "demo_waiting rid = [''r'' \<mapsto> demo_running\<lparr>r_Nodes := [\<lparr>rn_ID = ''n'', rn_NodeID = ''a'', rn_Status = NWaiting, rn_Attempts = 1,
     rn_State = JObj [(''waiting'', JObj [(''kind'', JStr ''tool_approval''), (''approvalId'', JStr rid)])], rn_Error = JNull, rn_EnqueuedAt = 0,
     rn_StartedAt = None, rn_FinishedAt = None, rn_RecoveryDeadLetter = None\<rparr>]\<rparr>]"

definition demo_decision :: "string \<Rightarrow> decision" where
  "demo_decision rid = \<lparr>de_OrgID = ''o'', de_ApprovalID = rid, de_Actor = ''bob'', de_ParamsDigest = ''mail'', de_Status = ''approved''\<rparr>"

definition demo_asked :: "string \<Rightarrow> int \<Rightarrow> approval_tables \<Rightarrow> approval_tables" where
  "demo_asked rid now s = s\<lparr>at_Requests := snd (demo_gate rid now (at_Requests s))\<rparr>"

definition demo_approved :: "string \<Rightarrow> int \<Rightarrow> approval_tables \<Rightarrow> approval_tables" where
  "demo_approved rid now s = snd (DecideToolApproval (demo_decision rid) (now + 1) ((demo_asked rid now s)\<lparr>at_Runs := demo_waiting rid\<rparr>))"

lemma demo_gate_step: "tool_step demo_approval_library demo_starter (Gating ''r'' ''a'' (fst (demo_gate rid now (at_Requests s)))) s (demo_asked rid now s)"
  unfolding demo_asked_def demo_gate_def
  by (rule tool_step.gate [OF prod.collapse [symmetric]]) (simp add: demo_lineage_def demo_starter_def)

lemma demo_approved_steps:
  assumes "tool_steps demo_approval_library demo_starter s0 s"
  shows "tool_steps demo_approval_library demo_starter s0 (demo_approved rid now s)"
  unfolding demo_approved_def
  by (rule tool_steps.more [OF tool_steps.more [OF tool_steps.more [OF assms demo_gate_step] tool_step.work] tool_step.decide [OF prod.collapse [symmetric]]])

definition demo_first :: approval_tables where "demo_first = demo_approved ''q1'' 0 (no_requests Map.empty)"

definition demo_spent :: "tool_approval list" where "demo_spent = snd (demo_gate [] 2 (at_Requests demo_first))"

definition demo_second :: approval_tables where "demo_second = demo_approved ''q2'' 3 (demo_first\<lparr>at_Requests := demo_spent\<rparr>)"

lemma demo_first_reached: "tool_steps demo_approval_library demo_starter (no_requests Map.empty) demo_first"
  unfolding demo_first_def by (intro demo_approved_steps tool_steps.stop)

lemma demo_second_reached: "tool_steps demo_approval_library demo_starter (demo_first\<lparr>at_Requests := demo_spent\<rparr>) demo_second"
  unfolding demo_second_def by (intro demo_approved_steps tool_steps.stop)

lemma demo_policy: "toolApprovalPolicy (Some (JStr ''mail'')) = Ok [''mail'']"
  by code_simp

lemma demo_call: "toolParamsDigest demo_approval_library (\<lambda>_. None) ''mail'' [] = Some (''mail'', [])"
  by code_simp

lemma demo_masked: "RedactSensitiveKeys (RedactValues (JObj []) []) = JObj []"
  by code_simp

lemma demo_review: "review_params demo_approval_library [] [] = Some ''{}''"
  by (simp add: review_params_def demo_masked demo_approval_library_def)

lemma demo_rendered: "rendered_call ''tool'' [(''tool'', JStr ''mail'')] = (''mail'', [])"
  by code_simp

lemma demo_tool: "RedactString ''mail'' [] = ''mail''"
  by code_simp

definition demo_row :: "string \<Rightarrow> int \<Rightarrow> tool_approval" where
  "demo_row rid now = \<lparr>ta_ID = rid, ta_OrgID = ''o'', ta_RunID = ''r'', ta_NodeID = ''a'', ta_Tool = ''mail'', ta_ParamsJson = ''{}'', ta_ParamsDigest = ''mail'',
     ta_RequesterIds = [''ann''], ta_Status = ''pending'', ta_DecidedBy = None, ta_DecidedAt = None, ta_ConsumedAt = None, ta_ExpiresAt = now + 1800000,
     ta_EligibleApprovers = None, ta_CreatedAt = now\<rparr>"

definition demo_decided :: "string \<Rightarrow> int \<Rightarrow> tool_approval" where
  "demo_decided rid now = (demo_row rid now)\<lparr>ta_Status := ''approved'', ta_DecidedBy := Some ''bob'', ta_DecidedAt := Some (now + 1)\<rparr>"

definition demo_used :: "string \<Rightarrow> int \<Rightarrow> tool_approval" where
  "demo_used rid now = (demo_decided rid now)\<lparr>ta_ConsumedAt := Some (now + 2)\<rparr>"

lemma demo_row_fields:
  "ta_ID (demo_row rid now) = rid" "ta_Status (demo_row rid now) = ''pending''" "ta_RequesterIds (demo_row rid now) = [''ann'']"
  "ta_DecidedBy (demo_row rid now) = None" "ta_ParamsDigest (demo_row rid now) = ''mail''"
  by (simp_all add: demo_row_def)

lemmas demo_rows = demo_row_def demo_decided_def demo_used_def

lemma demo_lineage_of_run: "lineage 100 ''r'' (lb_Runs demo_lineage) = [(hd (lb_Runs demo_lineage), True)]"
  by (simp add: lineage_def demo_lineage_def follow_def via_subworkflow_def numeral_nat)

lemma demo_tree: "set (tree_down n (lb_Runs demo_lineage) ids) = set ids"
  by (induction n arbitrary: ids) (auto simp: demo_lineage_def via_subworkflow_def)

lemma remdups_same: "set xs \<subseteq> {a} \<Longrightarrow> remdups (a # xs) = [a]"
  by (induction xs) auto

lemma demo_requesters:
  assumes "list_all (\<lambda>r. ta_RequesterIds r = [''ann'']) rs"
  shows "ListToolApprovalRequesters demo_lineage ''r'' ''a'' 100 rs = [''ann'']"
proof -
  have "set (concat (map ta_RequesterIds (filter (\<lambda>r. ta_RunID r = ''r'' \<and> ta_NodeID r = ''a'') rs))) \<subseteq> {''ann''}"
    using assms by (auto simp: list_all_iff)
  then have "set (filter (\<lambda>a. a \<noteq> []) (concat (map ta_RequesterIds (filter (\<lambda>r. ta_RunID r = ''r'' \<and> ta_NodeID r = ''a'') rs)))) \<subseteq> {''ann''}" by auto
  then have "remdups (''ann'' # filter (\<lambda>a. a \<noteq> []) (concat (map ta_RequesterIds (filter (\<lambda>r. ta_RunID r = ''r'' \<and> ta_NodeID r = ''a'') rs)))) = [''ann'']"
    by (rule remdups_same)
  then show ?thesis
    unfolding ListToolApprovalRequesters_def Let_def demo_lineage_of_run by (simp add: demo_lineage_def optional_def started_by_person_def del: remdups.simps filter_concat)
qed

lemma demo_gate_asks:
  assumes "\<not> HasLiveToolApproval ''r'' ''a'' rs" "list_all (\<lambda>r. ta_RequesterIds r = [''ann''] \<and> ta_ID r \<noteq> rid) rs"
  shows "snd (demo_gate rid now rs) = rs @ [demo_row rid now]"
proof -
  have live: "GetLiveToolApproval ''r'' ''a'' rs = None" using assms(1) by (simp add: GetLiveToolApproval_def HasLiveToolApproval_def find_None_iff list_ex_iff)
  have ids: "\<not> list_ex (\<lambda>q. ta_ID q = rid) rs" using assms(2) by (auto simp: list_ex_iff list_all_iff)
  have req: "ListToolApprovalRequesters demo_lineage ''r'' ''a'' 100 rs = [''ann'']" using assms(2) by (intro demo_requesters) (simp add: list_all_iff)
  have opened: "open_request demo_approval_library demo_lineage None \<lparr>tc_OrgID = ''o'', tc_RunID = ''r'', tc_NodeID = ''a'', tc_Tool = ''mail'', tc_Input = []\<rparr> [] ''{}'' ''mail'' rid now rs =
    Some (demo_row rid now, rs @ [demo_row rid now])"
    using assms(1) ids by (simp add: open_request_def live req Let_def InsertToolApproval_def demo_tool demo_row_def)
  have "fst (ExpireToolApproval rid now (rs @ [demo_row rid now])) = 0"
    using ids by (auto simp: ExpireToolApproval_def update_where_def demo_row_def filter_empty_conv list_ex_iff)
  then obtain rs2 where "ExpireToolApproval rid now (rs @ [demo_row rid now]) = (0, rs2)" by (metis prod.collapse)
  then show ?thesis
    by (simp add: demo_gate_def approval_gate_def demo_policy demo_rendered gateToolCall_def demo_review demo_call toolApprovalParamsMaxBytes_def opened
        demo_row_fields)
qed

lemma demo_gate_runs:
  assumes "\<not> HasLiveToolApproval ''r'' ''a'' rs" "list_all (\<lambda>r. ta_ID r \<noteq> rid) rs"
  shows "demo_gate x (now + 2) (rs @ [demo_decided rid now]) = (Execute [], rs @ [demo_used rid now])"
proof -
  have live: "GetLiveToolApproval ''r'' ''a'' (rs @ [demo_decided rid now]) = Some (demo_decided rid now)"
    using assms(1) by (induction rs) (auto simp: GetLiveToolApproval_def HasLiveToolApproval_def live_def demo_rows)
  have "find (spendable rid) (rs @ [demo_decided rid now]) = Some (demo_decided rid now)"
    using assms(2) by (induction rs) (auto simp: spendable_def demo_rows)
  moreover have "map (\<lambda>r. if spendable rid r then r\<lparr>ta_ConsumedAt := Some (now + 2)\<rparr> else r) rs = rs"
    using assms(2) by (induction rs) (auto simp: spendable_def)
  ultimately have "ConsumeToolApproval rid (now + 2) (rs @ [demo_decided rid now]) = Some (True, rs @ [demo_used rid now])"
    by (simp add: ConsumeToolApproval_def update_where_def spendable_def in_time_def demo_rows)
  then show ?thesis
    by (simp add: demo_gate_def approval_gate_def demo_policy demo_rendered gateToolCall_def demo_review demo_call toolApprovalParamsMaxBytes_def
        open_request_def live spend_request_def) (simp add: demo_rows)
qed

lemma demo_decides:
  assumes "list_all (\<lambda>r. ta_ID r \<noteq> rid) rs" "at_Requests s = rs @ [demo_row rid now]"
  shows "at_Requests (snd (DecideToolApproval (demo_decision rid) (now + 1) (s\<lparr>at_Runs := demo_waiting rid\<rparr>))) = rs @ [demo_decided rid now]"
proof -
  have found: "find (\<lambda>r. ta_ID r = rid \<and> ta_OrgID r = ''o'') (rs @ [demo_row rid now]) = Some (demo_row rid now)"
    using assms(1) by (induction rs) (auto simp: demo_row_def)
  have "map (\<lambda>r. if ta_ID r = rid \<and> P r then f r else r) rs = rs" "filter (\<lambda>r. ta_ID r = rid \<and> P r) rs = []" for P f
    using assms(1) by (induction rs) auto
  then have decided: "DecideToolApproval_row ''approved'' ''bob'' rid ''o'' ''mail'' (now + 1) (rs @ [demo_row rid now]) = (1, rs @ [demo_decided rid now])"
    by (simp add: DecideToolApproval_row_def update_where_def demo_rows)
  have "\<exists>s'. requeueToolApproval (demo_row rid now) ev (now + 1) (s\<lparr>at_Runs := demo_waiting rid, at_Requests := rs @ [demo_decided rid now]\<rparr>) = Some s' \<and>
      at_Requests s' = rs @ [demo_decided rid now]" for ev
    by (simp add: requeueToolApproval_def demo_waiting_def demo_row_def RequeueToolApprovalNode_def is_node_def waiting_field_def get_str_def Let_def split: prod.split)
  then obtain s' where "requeueToolApproval (demo_row rid now) ''tool_approval.approved'' (now + 1) (s\<lparr>at_Runs := demo_waiting rid, at_Requests := rs @ [demo_decided rid now]\<rparr>) = Some s'"
    "at_Requests s' = rs @ [demo_decided rid now]" by blast
  then show ?thesis
    using assms(2) by (simp add: DecideToolApproval_def demo_decision_def GetToolApprovalForOrg_def found decided demo_row_fields)
qed

lemma demo_needs_approval: "needs_approval (\<lambda>_ _. True) (Some (JStr ''mail'')) False ''r'' ''a'' ''tool'' [(''tool'', JStr ''mail'')] rs"
  by (simp add: needs_approval_def toolApprovalPolicy_def) code_simp

lemma demo_approved_requests:
  assumes "\<not> HasLiveToolApproval ''r'' ''a'' (at_Requests s)" "list_all (\<lambda>r. ta_RequesterIds r = [''ann''] \<and> ta_ID r \<noteq> rid) (at_Requests s)"
  shows "at_Requests (demo_approved rid now s) = at_Requests s @ [demo_decided rid now]"
  unfolding demo_approved_def
  by (rule demo_decides) (use assms in \<open>auto simp: demo_asked_def demo_gate_asks list_all_iff\<close>)

lemma demo_first_requests: "at_Requests demo_first = [demo_decided ''q1'' 0]"
  by (simp add: demo_first_def demo_approved_requests no_requests_def HasLiveToolApproval_def)

lemma demo_first_runs: "demo_gate [] 2 (at_Requests demo_first) = (Execute [], demo_spent)"
  using demo_gate_runs [of "[]" "''q1''" "[]" 0] by (simp add: demo_spent_def demo_first_requests HasLiveToolApproval_def)

lemma demo_spent_rows: "demo_spent = [demo_used ''q1'' 0]"
  using demo_gate_runs [of "[]" "''q1''" "[]" 0] by (simp add: demo_spent_def demo_first_requests HasLiveToolApproval_def)

lemma demo_spent_not_live: "\<not> HasLiveToolApproval ''r'' ''a'' [demo_used rid now]"
  by (simp add: HasLiveToolApproval_def live_def demo_used_def)

lemma demo_second_requests: "at_Requests demo_second = [demo_used ''q1'' 0, demo_decided ''q2'' 3]"
  using demo_approved_requests [of "demo_first\<lparr>at_Requests := demo_spent\<rparr>" "''q2''" 3]
  by (simp add: demo_second_def demo_spent_rows demo_spent_not_live) (simp add: demo_rows)

lemma demo_second_runs: "demo_gate [] 5 (at_Requests demo_second) = (Execute [], [demo_used ''q1'' 0, demo_used ''q2'' 3])"
  using demo_gate_runs [of "[demo_used ''q1'' 0]" "''q2''" "[]" 3] demo_spent_not_live by (simp add: demo_second_requests) (simp add: demo_rows)

theorem gated_calls_are_approved_witness:
  "\<exists>r d t. r \<in> set (at_Requests demo_first) \<and> live ''r'' ''a'' r \<and> ta_Status r = ''approved'' \<and> ta_DecidedBy r = Some d \<and> ta_DecidedAt r = Some t \<and>
    t < ta_ExpiresAt r \<and> 2 \<le> t + 1800000 \<and> d \<notin> set (ta_RequesterIds r) \<and> demo_starter ''r'' \<noteq> Some d \<and>
    toolParamsDigest demo_approval_library (\<lambda>_. None) ''mail'' [] = Some (ta_ParamsDigest r, []) \<and>
    r\<lparr>ta_ConsumedAt := Some 2\<rparr> \<in> set demo_spent \<and> \<not> HasLiveToolApproval ''r'' ''a'' demo_spent"
  using gated_calls_are_approved [OF demo_first_reached demo_first_runs [unfolded demo_gate_def] demo_needs_approval] unfolding demo_rendered fst_conv snd_conv .

theorem approvals_are_spent_once_witness:
  "\<exists>r q. r \<in> set (at_Requests demo_first) \<and> live ''r'' ''a'' r \<and> ta_DecidedBy r \<noteq> None \<and> q \<in> set (at_Requests demo_second) \<and> live ''r'' ''a'' q \<and>
    ta_DecidedBy q \<noteq> None \<and> ta_ID r \<noteq> ta_ID q \<and>
    map_option fst (toolParamsDigest demo_approval_library (\<lambda>_. None) ''mail'' []) = Some (ta_ParamsDigest r) \<and>
    map_option fst (toolParamsDigest demo_approval_library (\<lambda>_. None) ''mail'' []) = Some (ta_ParamsDigest q)"
  using approvals_are_spent_once [OF demo_first_reached demo_first_runs [unfolded demo_gate_def] demo_needs_approval demo_second_reached
      demo_second_runs [unfolded demo_gate_def] demo_needs_approval] unfolding demo_rendered fst_conv snd_conv .

end
