(* ===== verification/Spec2Isabelle.thy ===== *)
theory Spec2Isabelle
  imports Guarantees Deadlines Executors Refinement Persist RecoveryPolicy Scrub RecoveryDemo ToolApproval
begin

text \<open>
  A verification development for Janusly, a workflow runner with a recovery plane.

  \<^bold>\<open>The program.\<close> A workflow document is a graph of nodes with a schema for its inputs, retry policies,
  edge conditions and an optional recovery contract. Documents are validated, started as runs, and the
  engine moves the nodes of a run through their lives: workers claim queued nodes, execute them
  and commit the result in one transaction per node; the transaction schedules what became ready and
  settles the run. Nodes may be retried, parked until a person or a timer resumes them, cancelled,
  reaped when their worker died, and redriven after a failure was recorded as a dead letter. Detectors
  of the recovery contract judge the output of a node; a violation opens a recovery case and may park
  the run. A case is diagnosed, given candidates, validated, approved by a person and resolved, which
  replaces the output and lets the run go on, or accepts the loss; when the run ends the monitored
  cases get their verdict. All state is in a database, and guarded updates carry the concurrency.
  These are the packages \<^verbatim>\<open>internal/domain\<close> (documents and policies), \<^verbatim>\<open>internal/grammar\<close> (expressions,
  templates, the persistence gate), \<^verbatim>\<open>internal/recovery\<close> (detectors), \<^verbatim>\<open>internal/engine\<close> (runs and cases),
  \<^verbatim>\<open>internal/executors\<close>, \<^verbatim>\<open>internal/cron\<close>, \<^verbatim>\<open>internal/signature\<close> and \<^verbatim>\<open>internal/store\<close> (statements).

  \<^bold>\<open>Shared theories.\<close> \<open>Prelude\<close> holds results with an error side, Go strings as byte lists and shared lemmas;
  \<open>Json\<close> JSON values, with objects as association lists whose first entry of a key counts; \<open>Calendar\<close> the
  proleptic Gregorian calendar of Go's \<^verbatim>\<open>time\<close>.

  \<^bold>\<open>Documents.\<close> \<open>Workflow\<close> is \<^verbatim>\<open>domain/workflow.go\<close> with the contract of \<^verbatim>\<open>recoverycontract.go\<close>. \<open>Graph\<close> has the
  graph algorithms: \<^verbatim>\<open>hasCycle\<close> (\<^verbatim>\<open>validate.go\<close>), \<^verbatim>\<open>reachableNodesWithout\<close> (\<^verbatim>\<open>recoverydag.go\<close>),
  \<^verbatim>\<open>hasApprovalAncestor\<close>, \<^verbatim>\<open>collectAncestors\<close> and \<^verbatim>\<open>downstreamJoins\<close> (\<^verbatim>\<open>readiness.go\<close>). \<open>JsValue\<close> and \<open>Expression\<close>
  are \<^verbatim>\<open>grammar/jsvalue.go\<close> and \<^verbatim>\<open>expression.go\<close>. \<open>Inputs\<close> is \<^verbatim>\<open>domain/inputs.go\<close> and \<^verbatim>\<open>defaults.go\<close>; \<open>Retry\<close> is
  \<^verbatim>\<open>retrypolicy.go\<close>, \<^verbatim>\<open>engine/retry.go\<close> and the failure patterns of \<^verbatim>\<open>signature.go\<close>. \<open>NodeConfig\<close> has the
  configuration grammars of forks, joins, prompts, agents, triggers (\<^verbatim>\<open>forkjoin.go\<close>, \<^verbatim>\<open>promptconfig.go\<close>,
  \<^verbatim>\<open>agentconfig.go\<close>, \<^verbatim>\<open>triggerconfig.go\<close>) and HTTP requests (\<^verbatim>\<open>httpcontract/bounds.go\<close>); \<open>Validate\<close> is
  \<^verbatim>\<open>ValidateWithOptions\<close> of \<^verbatim>\<open>validate.go\<close> with \<^verbatim>\<open>recoverydag.go\<close>, composed of them. \<open>Waiting\<close> is
  \<^verbatim>\<open>approvalwaiting.go\<close> with the executors of timers and approvals; \<open>Cron\<close> is the package \<^verbatim>\<open>cron\<close> and
  \<^verbatim>\<open>schedule.go\<close>. \<open>Template\<close> is \<^verbatim>\<open>grammar/template.go\<close>; \<open>Persist\<close> is \<^verbatim>\<open>redact.go\<close> and \<^verbatim>\<open>safepersist.go\<close>; \<open>Executors\<close>
  are the executors that only read their configuration.

  \<^bold>\<open>Runs.\<close> \<open>RunState\<close> is the persisted state of one run and the statements on it; \<open>Schedule\<close> is
  \<^verbatim>\<open>engine/readiness.go\<close> and \<^verbatim>\<open>downstream.go\<close>; \<open>Semantic\<close> is \<^verbatim>\<open>recovery/semanticoutcomes.go\<close>; \<open>Lifecycle\<close> is
  \<^verbatim>\<open>complete.go\<close>, \<^verbatim>\<open>terminalfailure.go\<close>, the claim of \<^verbatim>\<open>worker.go\<close>, \<^verbatim>\<open>reaper.go\<close> and \<^verbatim>\<open>cancel.go\<close>; \<open>Resume\<close> is
  \<^verbatim>\<open>waiting.go\<close> and \<^verbatim>\<open>redrive.go\<close>; \<open>Start\<close> is \<^verbatim>\<open>start.go\<close>. \<open>Contracts\<close> states, as locales, what any operation
  keeps when every single update keeps it; \<open>Invariants\<close> interprets them and builds the transition system;
  \<open>Demo\<close> is a small run the witnesses evaluate; \<open>Guarantees\<close> are the properties of runs; \<open>Deadlines\<close> composes
  approvals with their checkpoint; \<open>Refinement\<close> relates the engine to a small abstract machine.

  \<^bold>\<open>Recovery.\<close> \<open>RecoveryPolicy\<close> is the validation of \<^verbatim>\<open>recoverycontract.go\<close>, the capability ladder of
  \<^verbatim>\<open>recoveryautonomy.go\<close> and the repair classes and gates of \<^verbatim>\<open>technicalautonomy.go\<close>; \<open>Scrub\<close> are the secret
  shapes of \<^verbatim>\<open>signature.go\<close>. \<open>Cases\<close> has the tables of cases, receipts, artifacts and grants with
  \<^verbatim>\<open>recoverycase.go\<close>, \<^verbatim>\<open>recoverycases.go\<close> and \<^verbatim>\<open>recoverygovernance.go\<close>; \<open>Governance\<close> has \<^verbatim>\<open>semanticrecovery.go\<close>,
  \<^verbatim>\<open>recoverydiagnosis.go\<close> and \<^verbatim>\<open>recoveryoperations.go\<close>, the invariant of the tables and the locale of relations
  all operations keep; \<open>Resolution\<close> has \<^verbatim>\<open>semanticresolution.go\<close> and \<^verbatim>\<open>semanticmonitoring.go\<close> on a run with the
  tables, and the properties of recovery; \<open>RecoveryDemo\<close> evaluates one recovery. \<open>ToolApproval\<close> has the gate
  before a tool or HTTP call (\<^verbatim>\<open>toolapproval.go\<close>), the decisions on its requests and the sequences of both.

  \<^bold>\<open>What is shown.\<close> Documents: the cycle check, the dominance check and the approval gate are exact with
  respect to paths; accepted expressions cannot fail with a grammar error; input validation agrees with a
  declarative judgement; an accepted document is sound, its quarantine detectors precede every effect,
  and its nodes execute, with the exceptions stated; rendering tracks the secrets it reveals, redaction
  removes them and the persisted text is bounded. Time: instants survive formatting and parsing,
  accepted timers execute without overflow, approval deadlines can be parked exactly before the year
  10000, cron parsing ends and the next fire is exact. Runs: every reachable state satisfies the row
  invariant; settled rows are frozen, histories only grow, a completion never leaves a run hanging, a
  dead letter is written exactly when nobody handles a failure and is redriven at most once, claims take
  exactly the rows they may, and the engine refines the abstract life of nodes and runs. Recovery: no
  autonomy exceeds the contract, the gates of autonomous apply are exact, a repair class means what it
  says; the receipts of a case are a legal chain to its state, nothing on record is rewritten and no
  other organisation is touched, only people make grants, a resolution spends exactly one of them and
  cannot be repeated, a replacement satisfies the contract, and the verdict is the fate of the run.

  \<^bold>\<open>Modelling choices.\<close> Strings are byte lists. Doubles are rationals with infinities and not-a-number,
  rounded to 53 bits where the code computes. Error messages are constructors with their arguments;
  the validator's issues keep their codes and drop their texts. A transaction under the run's completion
  lock is one function on the state, so concurrent workers are interleavings of such steps; claims are
  never taken back, so late deliveries are covered. A recovery operation reads and writes in one step.
  The clock and the source of identifiers are streams in the state or arguments. Code outside the
  repository is an argument: the URI parser, header checks and lower case (\<open>platform\<close>), the projection of
  JSON to a schema and the text of numbers (\<open>validation_platform\<close>, \<open>text_library\<close>), the JSON encoder and
  decoder (\<open>persist_library\<close>), SHA-256 (\<open>case_library\<close>) and the text of an instant (\<open>resolution_library\<close>).
  Faults of the database are not modelled, but its constraints are. In the theories of runs, event
  payloads, metrics and the redaction of stored JSON are left out, and tables of other components appear
  as a log of calls, which \<open>Resolution\<close> carries out on the tables of cases. The verdict on a resume token,
  the schema of a form, the text of a diagnosis and whether a rerun superseded a step are arguments.
  Every loop is a total function with a termination proof, so no fuel is used, but for the counting loop
  of a cron field, which wraps around in 64 bits: it is a partial function, shown to return.

  \<^bold>\<open>Not modelled.\<close> The HTTP layer, executors and tools that call other systems, model providers, authoring,
  playbooks, rollouts, memory, delivery between parent and child runs, reports and listings of the
  recovery tables, the parsers of documents from JSON text, and the web client: they are input and
  output, clients of services outside the repository, or read-only projections of what is modelled.
\<close>

end
